(* ===== verification/Prelude.thy ===== *)
theory Prelude
  imports Main "HOL-Library.Multiset"
begin

text \<open>
  Shared vocabulary of the development: the types that name the model's data
  (file names, paths), the exception-carrying state passing used for every
  Python function that may raise after it has changed the file system, and the
  generic lemmas on lists, options and maps that the component theories share.
  Python semantics that the source relies on (exceptions leave the effects
  already performed in place) is fixed here once.
\<close>

named_theorems py_simps \<open>evaluation rules of the Python string primitives\<close>
named_theorems fs_simps \<open>evaluation rules of the file-system primitives\<close>

type_synonym name = string
type_synonym path = "name list"

subsection \<open>Exceptions with effects\<close>

text \<open>
  A Python statement that raises keeps the effects that happened before the
  raise. A computation is therefore a pair of an outcome (\<open>Inl\<close> the
  exception, \<open>Inr\<close> the value) and the state reached. \<open>ebind\<close> sequences two
  computations as Python sequences two statements: an exception skips the rest
  and keeps the state.
\<close>

type_synonym ('e, 'a, 's) exc = "('e + 'a) \<times> 's"

definition ebind :: "('e, 'a, 's) exc \<Rightarrow> ('a \<Rightarrow> 's \<Rightarrow> ('e, 'b, 's) exc) \<Rightarrow> ('e, 'b, 's) exc" where
  "ebind r f = (case r of (Inl e, s) \<Rightarrow> (Inl e, s) | (Inr a, s) \<Rightarrow> f a s)"

lemma ebind_Inl [simp]: "ebind (Inl e, s) f = (Inl e, s)"
  by (simp add: ebind_def)

lemma ebind_Inr [simp]: "ebind (Inr a, s) f = f a s"
  by (simp add: ebind_def)

lemma ebind_cases:
  assumes "ebind r f = (res, s')"
  obtains e s where "r = (Inl e, s)" "res = Inl e" "s' = s"
    | a s where "r = (Inr a, s)" "f a s = (res, s')"
  using assms by (cases r; cases "fst r") (auto simp: ebind_def)

subsection \<open>Lists\<close>

lemma takeWhile_not_all_length:
  "length (takeWhile P xs) < length xs \<longleftrightarrow> (\<exists>x\<in>set xs. \<not> P x)"
  by (induction xs) auto

lemma butlast_snoc_path [simp]: "butlast (p @ [n]) = p"
  by simp

lemma append_single_eq_iff [simp]: "p @ [a] = q @ [b] \<longleftrightarrow> p = q \<and> a = b"
  by auto

subsection \<open>Maps\<close>

lemma map_upd_other [simp]: "q \<noteq> p \<Longrightarrow> (m(p \<mapsto> v)) q = m q"
  by simp

lemma finite_dom_upd [intro]: "finite (dom m) \<Longrightarrow> finite (dom (m(p := v)))"
  by (cases v) auto

end
