(* ===== verification/PyStr.thy ===== *)
theory PyStr
  imports Prelude
begin

text \<open>
  The Python string operations the organizer applies to file names, extensions
  and the skip-list input: \<open>str.strip\<close>, \<open>str.lower\<close>, \<open>str.split(",")\<close>,
  \<open>os.path.splitext\<close> on a base name, \<open>str(n)\<close> and \<open>f"{n:02}"\<close>.
  Characters are Isabelle's 8-bit \<open>char\<close>, read as the Latin-1 code points
  U+0000..U+00FF; on that range the definitions agree with CPython.
\<close>

subsection \<open>Whitespace and \<open>strip\<close>\<close>

text \<open>\<open>str.isspace\<close> restricted to Latin-1: TAB..CR, the four information
  separators U+001C..U+001F, SPACE, NEL (U+0085) and NBSP (U+00A0).\<close>

definition py_isspace :: "char \<Rightarrow> bool" where
  "py_isspace c = (let n = of_char c :: nat in
     (9 \<le> n \<and> n \<le> 13) \<or> (28 \<le> n \<and> n \<le> 32) \<or> n = 133 \<or> n = 160)"

definition py_strip :: "string \<Rightarrow> string" where
  "py_strip s = rev (dropWhile py_isspace (rev (dropWhile py_isspace s)))"

subsection \<open>\<open>lower\<close>\<close>

text \<open>\<open>str.lower\<close> on Latin-1: A..Z and U+00C0..U+00DE except U+00D7 are
  shifted by 32; every other code point is its own lower case.\<close>

definition py_lower_char :: "char \<Rightarrow> char" where
  "py_lower_char c = (let n = of_char c :: nat in
     if (65 \<le> n \<and> n \<le> 90) \<or> (192 \<le> n \<and> n \<le> 222 \<and> n \<noteq> 215)
     then char_of (n + 32) else c)"

definition py_lower :: "string \<Rightarrow> string" where
  "py_lower s = map py_lower_char s"

subsection \<open>\<open>split\<close> on a one-character separator and \<open>join\<close>\<close>

text \<open>\<open>s.split(",")\<close>: the pieces between separators, empty pieces kept; the
  empty string gives one empty piece.\<close>

fun py_split :: "char \<Rightarrow> string \<Rightarrow> string list" where
  "py_split c [] = [[]]"
| "py_split c (x # xs) =
     (let r = py_split c xs in if x = c then [] # r else (x # hd r) # tl r)"

fun py_join :: "char \<Rightarrow> string list \<Rightarrow> string" where
  "py_join c [] = []"
| "py_join c [w] = w"
| "py_join c (w # ws) = w @ c # py_join c ws"

subsection \<open>\<open>os.path.splitext\<close>\<close>

text \<open>
  \<open>posixpath.splitext\<close> on a name without separator: the extension starts at
  the last dot, provided some character before that dot is not a dot (so
  \<open>.bashrc\<close> and \<open>..\<close> have no extension); otherwise the extension is empty.
  \<open>after\<close> counts the characters after the last dot.
\<close>

definition splitext :: "string \<Rightarrow> string \<times> string" where
  "splitext p =
     (let after = length (takeWhile (\<lambda>c. c \<noteq> CHR ''.'') (rev p)) in
      if after = length p then (p, [])
      else let i = length p - after - 1 in
        if list_all (\<lambda>c. c = CHR ''.'') (take i p) then (p, [])
        else (take i p, drop i p))"

subsection \<open>Decimal printing: \<open>str(n)\<close> and \<open>f"{n:02}"\<close>\<close>

definition digit_char :: "nat \<Rightarrow> char" where
  "digit_char d = char_of (48 + d)"

fun nat_str :: "nat \<Rightarrow> string" where
  "nat_str n = (if n < 10 then [digit_char n] else nat_str (n div 10) @ [digit_char (n mod 10)])"

declare nat_str.simps [simp del]

definition pad2 :: "nat \<Rightarrow> string" where
  "pad2 n = (if n < 10 then CHR ''0'' # nat_str n else nat_str n)"

text \<open>The inverse used in the round-trip lemma: \<open>int(s)\<close> on a digit string.\<close>

definition digit_val :: "char \<Rightarrow> nat" where
  "digit_val c = of_char c - 48"

definition parse_nat :: "string \<Rightarrow> nat" where
  "parse_nat s = foldl (\<lambda>acc c. 10 * acc + digit_val c) 0 s"

subsection \<open>Lemmas\<close>

text \<open>Evaluation of \<open>char_of\<close> on numerals, for closed instances.\<close>

declare char_of_eq_iff [py_simps]

text \<open>\<open>split\<close> and \<open>join\<close> are inverse; no piece contains the separator.\<close>

lemma py_join_Cons_eq: "py_join c (w # ws) = (if ws = [] then w else w @ c # py_join c ws)"
  by (cases ws) auto

lemma py_join_cons_hd:
  "r \<noteq> [] \<Longrightarrow> py_join c ((x # hd r) # tl r) = x # py_join c r"
  by (cases r) (simp_all add: py_join_Cons_eq)

lemma py_split_nonempty [simp]: "py_split c s \<noteq> []"
  by (induction s) (auto simp: Let_def)

lemma py_join_split: "py_join c (py_split c s) = s"
proof (induction s)
  case Nil
  then show ?case by simp
next
  case (Cons x xs)
  then show ?case
    by (cases "py_split c xs") (auto simp: Let_def py_join_Cons_eq)
qed

lemma py_split_pieces: "w \<in> set (py_split c s) \<Longrightarrow> c \<notin> set w"
proof (induction s arbitrary: w)
  case Nil
  then show ?case by simp
next
  case (Cons x xs)
  let ?r = "py_split c xs"
  have hd: "c \<notin> set (hd ?r)" using Cons.IH hd_in_set py_split_nonempty by blast
  have tl: "c \<notin> set v" if "v \<in> set (tl ?r)" for v
    using Cons.IH that by (cases ?r) auto
  show ?case
  proof (cases "x = c")
    case True
    with Cons.prems have "w = [] \<or> w \<in> set ?r" by (simp add: Let_def)
    with Cons.IH show ?thesis by auto
  next
    case False
    with Cons.prems have "w = x # hd ?r \<or> w \<in> set (tl ?r)" by (simp add: Let_def)
    with False hd tl show ?thesis by auto
  qed
qed

lemma splitext_append: "fst (splitext p) @ snd (splitext p) = p"
  by (simp add: splitext_def Let_def)

lemma nat_str_digit [simp]: "n < 10 \<Longrightarrow> nat_str n = [digit_char n]"
  by (simp add: nat_str.simps [of n])

lemma nat_str_nonempty [simp]: "nat_str n \<noteq> []"
  by (subst nat_str.simps) simp

lemma digit_val_digit_char [simp]: "d < 10 \<Longrightarrow> digit_val (digit_char d) = d"
  by (simp add: digit_val_def digit_char_def)

lemma parse_nat_snoc: "parse_nat (s @ [c]) = 10 * parse_nat s + digit_val c"
  by (simp add: parse_nat_def)

lemma parse_nat_nat_str [simp]: "parse_nat (nat_str n) = n"
proof (induction n rule: nat_str.induct)
  case (1 n)
  show ?case
  proof (cases "n < 10")
    case True
    then show ?thesis by (simp add: nat_str.simps [of n] parse_nat_def)
  next
    case False
    with "1.IH" show ?thesis by (simp add: nat_str.simps [of n] parse_nat_snoc)
  qed
qed

lemma nat_str_inj: "nat_str m = nat_str n \<longleftrightarrow> m = n"
  by (metis parse_nat_nat_str)

lemma py_lower_char_idem [simp]: "py_lower_char (py_lower_char c) = py_lower_char c"
  by (simp add: py_lower_char_def Let_def)

lemma py_lower_idem [simp]: "py_lower (py_lower s) = py_lower s"
  by (simp add: py_lower_def comp_def)

lemma py_lower_append [simp]: "py_lower (a @ b) = py_lower a @ py_lower b"
  by (simp add: py_lower_def)

lemma rev_split_last_dot:
  assumes "length (takeWhile (\<lambda>c. c \<noteq> CHR ''.'') (rev p)) \<noteq> length p"
  obtains a b where "p = a @ CHR ''.'' # b" "CHR ''.'' \<notin> set b"
    "length (takeWhile (\<lambda>c. c \<noteq> CHR ''.'') (rev p)) = length b"
proof -
  let ?t = "takeWhile (\<lambda>c. c \<noteq> CHR ''.'') (rev p)"
  let ?d = "dropWhile (\<lambda>c. c \<noteq> CHR ''.'') (rev p)"
  have td: "?t @ ?d = rev p" by (rule takeWhile_dropWhile_id)
  have "?d \<noteq> []"
  proof
    assume "?d = []"
    with td have "?t = rev p" by simp
    with assms show False by (metis length_rev)
  qed
  then obtain h r where d: "?d = h # r" by (cases ?d) auto
  then have "h = CHR ''.''"
    using hd_dropWhile [of "\<lambda>c. c \<noteq> CHR ''.''" "rev p"] by simp
  with d td have "rev p = ?t @ CHR ''.'' # r" by simp
  then have "p = rev (?t @ CHR ''.'' # r)" by (metis rev_rev_ident)
  then have p': "p = rev r @ CHR ''.'' # rev ?t" by simp
  have nb: "CHR ''.'' \<notin> set (rev ?t)"
    by (auto dest: set_takeWhileD)
  have ln: "length ?t = length (rev ?t)" by (rule length_rev [symmetric])
  from p' nb ln show ?thesis by (rule that)
qed

lemma splitext_cases:
  "splitext p = (p, []) \<or>
   (\<exists>a b. p = a @ CHR ''.'' # b \<and> CHR ''.'' \<notin> set b \<and> (\<exists>c\<in>set a. c \<noteq> CHR ''.'') \<and>
          splitext p = (a, CHR ''.'' # b))"
proof (cases "length (takeWhile (\<lambda>c. c \<noteq> CHR ''.'') (rev p)) = length p")
  case True
  then show ?thesis by (simp add: splitext_def)
next
  case False
  then obtain a b where p: "p = a @ CHR ''.'' # b" and b: "CHR ''.'' \<notin> set b"
    and len: "length (takeWhile (\<lambda>c. c \<noteq> CHR ''.'') (rev p)) = length b"
    by (rule rev_split_last_dot)
  have i: "length p - length b - 1 = length a" using p by simp
  have s: "splitext p = (if list_all (\<lambda>c. c = CHR ''.'') (take (length a) p) then (p, [])
                         else (take (length a) p, drop (length a) p))"
    using False unfolding splitext_def Let_def len i by (simp only: if_False)
  have ta: "take (length a) p = a" and da: "drop (length a) p = CHR ''.'' # b"
    using p by simp_all
  show ?thesis
  proof (cases "list_all (\<lambda>c. c = CHR ''.'') a")
    case True
    then show ?thesis by (simp add: s ta)
  next
    case False
    then have r: "splitext p = (a, CHR ''.'' # b)" by (simp add: s ta da)
    from False have "\<exists>c\<in>set a. c \<noteq> CHR ''.''" by (simp add: list_all_iff)
    with p b r show ?thesis by blast
  qed
qed

lemma ext_shape: "snd (splitext p) = [] \<or> (hd (snd (splitext p)) = CHR ''.'' \<and> CHR ''.'' \<notin> set (tl (snd (splitext p))))"
  using splitext_cases [of p] by auto

lemma py_strip_nonempty:
  assumes "c \<in> set s" and "\<not> py_isspace c"
  shows "py_strip s \<noteq> []"
proof -
  have "dropWhile py_isspace s \<noteq> []" using assms by (auto simp: dropWhile_eq_Nil_conv)
  then obtain d where d: "d \<in> set (dropWhile py_isspace s)" "\<not> py_isspace d"
    by (metis dropWhile_eq_Cons_conv list.set_intros(1) neq_Nil_conv)
  then have "dropWhile py_isspace (rev (dropWhile py_isspace s)) \<noteq> []"
    by (auto simp: dropWhile_eq_Nil_conv)
  then show ?thesis by (simp add: py_strip_def)
qed


end
