(* ===== verification/Classifier.thy ===== *)
theory Classifier
  imports PyStr
begin

text \<open>
  The classifier of \<open>src/organizer.py\<close>: the rule table \<open>FILE_TYPES\<close>
  (a dict, iterated in insertion order), \<open>get_category\<close>, the thresholds
  \<open>SIZE_LIMITS\<close> and \<open>get_size_group\<close>. Both functions are pure and total.
\<close>

definition FILE_TYPES :: "(string \<times> string list) list" where
  "FILE_TYPES =
    [(''Images'', [''.jpg'', ''.jpeg'', ''.png'', ''.gif'', ''.bmp'', ''.tiff'', ''.svg'']),
     (''Documents'', [''.pdf'', ''.doc'', ''.docx'', ''.txt'', ''.ppt'', ''.pptx'', ''.xls'', ''.xlsx'', ''.csv'']),
     (''Videos'', [''.mp4'', ''.avi'', ''.mov'', ''.mkv'', ''.flv'', ''.wmv'']),
     (''Audio'', [''.mp3'', ''.wav'', ''.aac'', ''.flac'', ''.ogg'', ''.m4a'']),
     (''Archives'', [''.zip'', ''.rar'', ''.tar'', ''.gz'', ''.7z''])]"

text \<open>The loop \<open>for category, exts in FILE_TYPES.items()\<close>: the first category
  whose list holds \<open>extension.lower()\<close>, else \<open>"Others"\<close>.\<close>

fun category_loop :: "string \<Rightarrow> (string \<times> string list) list \<Rightarrow> string" where
  "category_loop extension [] = ''Others''"
| "category_loop extension ((category, exts) # rest) =
     (if py_lower extension \<in> set exts then category else category_loop extension rest)"

definition get_category :: "string \<Rightarrow> string" where
  "get_category extension = category_loop extension FILE_TYPES"

text \<open>\<open>SIZE_LIMITS\<close>: Small and Medium are byte counts; Large is \<open>float("inf")\<close>,
  which the code never compares against. Sizes are byte counts, so \<open>nat\<close>.\<close>

definition SIZE_LIMIT_Small :: nat where "SIZE_LIMIT_Small = 1 * 1024 * 1024"
definition SIZE_LIMIT_Medium :: nat where "SIZE_LIMIT_Medium = 10 * 1024 * 1024"

definition get_size_group :: "nat \<Rightarrow> string" where
  "get_size_group sz =
     (if sz \<le> SIZE_LIMIT_Small then ''Small''
      else if sz \<le> SIZE_LIMIT_Medium then ''Medium''
      else ''Large'')"

definition CATEGORIES :: "string list" where
  "CATEGORIES = map fst FILE_TYPES @ [''Others'']"

subsection \<open>Lemmas\<close>

lemma category_loop_cases:
  "category_loop e tbl = ''Others'' \<and> (\<forall>(c, xs)\<in>set tbl. py_lower e \<notin> set xs) \<or>
   (\<exists>xs. (category_loop e tbl, xs) \<in> set tbl \<and> py_lower e \<in> set xs)"
  by (induction e tbl rule: category_loop.induct) auto

definition disjoint_rules :: "(string \<times> string list) list \<Rightarrow> bool" where
  "disjoint_rules tbl = (\<forall>c xs c' ys. (c, xs) \<in> set tbl \<longrightarrow> (c', ys) \<in> set tbl \<longrightarrow>
                              c \<noteq> c' \<longrightarrow> set xs \<inter> set ys = {})"

lemma disjoint_rules_Cons: "disjoint_rules (r # rest) \<Longrightarrow> disjoint_rules rest"
  by (auto simp: disjoint_rules_def)

lemma category_loop_first:
  "disjoint_rules tbl \<Longrightarrow> (c, xs) \<in> set tbl \<Longrightarrow> py_lower e \<in> set xs \<Longrightarrow>
   category_loop e tbl = c"
proof (induction e tbl rule: category_loop.induct)
  case (1 e)
  then show ?case by simp
next
  case (2 e c' ys rest)
  show ?case
  proof (cases "py_lower e \<in> set ys")
    case True
    have "(c', ys) \<in> set ((c', ys) # rest)" by simp
    with "2.prems"(1,2) have "c' \<noteq> c \<longrightarrow> set ys \<inter> set xs = {}"
      unfolding disjoint_rules_def by blast
    with True "2.prems"(3) show ?thesis by auto
  next
    case False
    with "2.prems" have "(c, xs) \<in> set rest" by auto
    with False "2.prems" disjoint_rules_Cons have "category_loop e rest = c"
      by (intro "2.IH") auto
    with False show ?thesis by simp
  qed
qed

lemma FILE_TYPES_distinct: "distinct (map fst FILE_TYPES)"
  by (simp add: FILE_TYPES_def)

lemma FILE_TYPES_disjoint: "disjoint_rules FILE_TYPES"
  by (simp add: FILE_TYPES_def disjoint_rules_def)

lemma Others_not_rule: "(''Others'', xs) \<notin> set FILE_TYPES"
  by (auto simp: FILE_TYPES_def)

lemma get_category_in_CATEGORIES: "get_category e \<in> set CATEGORIES"
  using category_loop_cases [of e FILE_TYPES]
  by (force simp: get_category_def CATEGORIES_def)

subsection \<open>Properties\<close>

text \<open>
  (C25) \<open>get_category\<close> returns the declared category of every extension of the
  rule table, compared case-insensitively, and \<open>"Others"\<close> exactly for the
  extensions that no rule lists.
\<close>

theorem get_category_spec:
  "get_category e = c \<longleftrightarrow>
     (\<exists>xs. (c, xs) \<in> set FILE_TYPES \<and> py_lower e \<in> set xs) \<or>
     (c = ''Others'' \<and> (\<forall>(c', xs)\<in>set FILE_TYPES. py_lower e \<notin> set xs))"
proof
  assume "get_category e = c"
  then show "(\<exists>xs. (c, xs) \<in> set FILE_TYPES \<and> py_lower e \<in> set xs) \<or>
     (c = ''Others'' \<and> (\<forall>(c', xs)\<in>set FILE_TYPES. py_lower e \<notin> set xs))"
    using category_loop_cases [of e FILE_TYPES] by (auto simp: get_category_def)
next
  assume "(\<exists>xs. (c, xs) \<in> set FILE_TYPES \<and> py_lower e \<in> set xs) \<or>
     (c = ''Others'' \<and> (\<forall>(c', xs)\<in>set FILE_TYPES. py_lower e \<notin> set xs))"
  then show "get_category e = c"
  proof
    assume "\<exists>xs. (c, xs) \<in> set FILE_TYPES \<and> py_lower e \<in> set xs"
    then show ?thesis
      using category_loop_first [OF FILE_TYPES_disjoint]
      by (auto simp: get_category_def)
  next
    assume "c = ''Others'' \<and> (\<forall>(c', xs)\<in>set FILE_TYPES. py_lower e \<notin> set xs)"
    then show ?thesis
      using category_loop_cases [of e FILE_TYPES] Others_not_rule by (auto simp: get_category_def)
  qed
qed

theorem get_category_spec_witness:
  "get_category ''.JPG'' = ''Images'' \<and> get_category ''.exe'' = ''Others''"
  using get_category_spec [of "''.JPG''" "''Images''"] get_category_spec [of "''.exe''" "''Others''"]
  by (simp add: FILE_TYPES_def py_lower_def py_lower_char_def py_simps)

text \<open>
  (C26) \<open>get_size_group\<close> puts a byte count up to 1 MiB in Small, above 1 MiB
  and up to 10 MiB in Medium, and above 10 MiB in Large; each boundary value
  belongs to the smaller bucket.
\<close>

theorem get_size_group_spec:
  "(get_size_group b = ''Small'' \<longleftrightarrow> b \<le> 1048576) \<and>
   (get_size_group b = ''Medium'' \<longleftrightarrow> 1048576 < b \<and> b \<le> 10485760) \<and>
   (get_size_group b = ''Large'' \<longleftrightarrow> 10485760 < b)"
  by (simp add: get_size_group_def SIZE_LIMIT_Small_def SIZE_LIMIT_Medium_def)

end
