(* ===== verification/FileSystem.thy ===== *)
theory FileSystem
  imports Prelude "HOL-Library.Sublist"
begin

text \<open>
  The part of the operating system the organizer uses: a single-volume file
  system as a map from absolute paths (lists of names, \<open>[]\<close> the root
  \<open>/\<close>) to nodes, and the library calls of \<open>src/organizer.py\<close> on it:
  \<open>os.path.exists\<close>, \<open>isfile\<close>, \<open>isdir\<close>, \<open>getsize\<close>, \<open>getctime\<close>,
  \<open>os.listdir\<close>, \<open>os.mkdir\<close>, \<open>os.makedirs(exist_ok=True)\<close>, \<open>os.rename\<close>,
  \<open>shutil.move\<close> and \<open>shutil.copy2\<close>, each with the exceptions it raises.
  Symbolic links, permissions and other volumes are not modelled.
\<close>

datatype node = File (fdata: string) (fctime: int) (fmtime: int) | Dir

type_synonym fs = "path \<rightharpoonup> node"

text \<open>The exceptions the code meets: those of the file-system calls, the
  \<open>OverflowError\<close> of \<open>fromtimestamp\<close>, the \<open>AttributeError\<close> and
  \<open>TypeError\<close> of a missing attribute or a \<open>None\<close> argument, Tkinter's
  \<open>TclError\<close>, raised by a call on a destroyed widget, and the \<open>NameError\<close>
  of a closure that reads a deleted variable.\<close>

datatype os_error =
    FileNotFoundError path
  | FileExistsError path
  | NotADirectoryError path
  | IsADirectoryError path
  | DirectoryNotEmptyError path
  | InvalidArgumentError path
  | SameFileError path
  | ShutilError path
  | OverflowError int
  | AttributeError string
  | TypeError string
  | TclError string
  | NameError string

type_synonym 'a fsop = "(os_error, 'a, fs) exc"

subsection \<open>Queries\<close>

definition path_exists :: "fs \<Rightarrow> path \<Rightarrow> bool" where
  "path_exists fs p = (fs p \<noteq> None)"

definition isfile :: "fs \<Rightarrow> path \<Rightarrow> bool" where
  "isfile fs p = (case fs p of Some (File _ _ _) \<Rightarrow> True | _ \<Rightarrow> False)"

definition isdir :: "fs \<Rightarrow> path \<Rightarrow> bool" where
  "isdir fs p = (fs p = Some Dir)"

text \<open>\<open>os.listdir\<close> returns the names of the entries of a directory in an order
  the operating system chooses. The model takes that list as an argument
  (\<open>items\<close>) and states what makes it a listing in \<open>is_listing\<close>.\<close>

definition listdir :: "fs \<Rightarrow> path \<Rightarrow> name list \<Rightarrow> (os_error + name list)" where
  "listdir fs d items =
     (case fs d of
        None \<Rightarrow> Inl (FileNotFoundError d)
      | Some Dir \<Rightarrow> Inr items
      | Some (File _ _ _) \<Rightarrow> Inl (NotADirectoryError d))"

definition is_listing :: "fs \<Rightarrow> path \<Rightarrow> name list \<Rightarrow> bool" where
  "is_listing fs d items = (distinct items \<and> (\<forall>n. n \<in> set items \<longleftrightarrow> fs (d @ [n]) \<noteq> None))"

subsection \<open>Directory creation\<close>

definition mkdir :: "path \<Rightarrow> fs \<Rightarrow> unit fsop" where
  "mkdir p fs =
     (if fs p \<noteq> None then (Inl (FileExistsError p), fs)
      else if fs (butlast p) = None then (Inl (FileNotFoundError p), fs)
      else if fs (butlast p) \<noteq> Some Dir then (Inl (NotADirectoryError p), fs)
      else (Inr (), fs(p \<mapsto> Dir)))"

text \<open>
  \<open>os.makedirs(name, exist_ok=True)\<close>: create the missing parent first (a
  \<open>FileExistsError\<close> from that call is ignored), then \<open>mkdir(name)\<close>; an
  error of that \<open>mkdir\<close> is ignored when \<open>name\<close> is a directory afterwards.
  The parent is \<open>butlast\<close>; the root has no parent to create.
\<close>

function makedirs :: "path \<Rightarrow> fs \<Rightarrow> unit fsop" where
  "makedirs p fs =
     (let (r, fs1) =
        (if p \<noteq> [] \<and> fs (butlast p) = None then
           (case makedirs (butlast p) fs of
              (Inl (FileExistsError _), fs') \<Rightarrow> (Inr (), fs')
            | res \<Rightarrow> res)
         else (Inr (), fs))
      in case r of
           Inl e \<Rightarrow> (Inl e, fs1)
         | Inr _ \<Rightarrow>
             (case mkdir p fs1 of
                (Inl e, fs2) \<Rightarrow> (if isdir fs2 p then (Inr (), fs2) else (Inl e, fs2))
              | ok \<Rightarrow> ok))"
  by pat_completeness auto
termination
  by (relation "measure (\<lambda>(p, fs). length p)") auto

declare makedirs.simps [simp del]

subsection \<open>Renaming and moving\<close>

text \<open>Moving a directory moves every entry below it.\<close>

definition move_subtree :: "path \<Rightarrow> path \<Rightarrow> fs \<Rightarrow> fs" where
  "move_subtree src dst fs =
     (\<lambda>q. if prefix dst q then fs (src @ drop (length dst) q)
          else if prefix src q then None else fs q)"

text \<open>
  \<open>os.rename(src, dst)\<close> on one volume (POSIX \<open>rename(2)\<close>): a file replaces
  an existing file at \<open>dst\<close>; a directory may not be moved into itself;
  replacing an existing directory is refused (\<open>shutil.move\<close> never asks for it).
\<close>

definition os_rename :: "path \<Rightarrow> path \<Rightarrow> fs \<Rightarrow> unit fsop" where
  "os_rename src dst fs =
     (case fs src of
        None \<Rightarrow> (Inl (FileNotFoundError src), fs)
      | Some n \<Rightarrow>
          if fs (butlast dst) = None then (Inl (FileNotFoundError dst), fs)
          else if fs (butlast dst) \<noteq> Some Dir then (Inl (NotADirectoryError dst), fs)
          else if src = dst then (Inr (), fs)
          else (case n of
                  File _ _ _ \<Rightarrow>
                    (if fs dst = Some Dir then (Inl (IsADirectoryError dst), fs)
                     else (Inr (), fs(src := None, dst \<mapsto> n)))
                | Dir \<Rightarrow>
                    (if prefix src dst then (Inl (InvalidArgumentError dst), fs)
                     else (case fs dst of
                             None \<Rightarrow> (Inr (), move_subtree src dst fs)
                           | Some Dir \<Rightarrow> (Inl (DirectoryNotEmptyError dst), fs)
                           | Some _ \<Rightarrow> (Inl (NotADirectoryError dst), fs)))))"

text \<open>
  \<open>shutil.move(src, dst)\<close>: into an existing directory \<open>dst\<close> the target is
  \<open>dst/basename(src)\<close>, which must not exist; then \<open>os.rename\<close>. The
  copy-and-delete fallback for cross-volume moves is not modelled (one volume).
  Returns the real destination.
\<close>

definition shutil_move :: "path \<Rightarrow> path \<Rightarrow> fs \<Rightarrow> path fsop" where
  "shutil_move src dst fs =
     (if isdir fs dst \<and> src \<noteq> dst then
        (let real_dst = dst @ [last src] in
         if path_exists fs real_dst then (Inl (ShutilError real_dst), fs)
         else ebind (os_rename src real_dst fs) (\<lambda>_ s. (Inr real_dst, s)))
      else ebind (os_rename src dst fs) (\<lambda>_ s. (Inr dst, s)))"

text \<open>
  \<open>shutil.copy2(src, dst)\<close>: into an existing directory the target is
  \<open>dst/basename(src)\<close>; the content and the modification time are copied,
  the change time of the copy is the current time \<open>now\<close>.
\<close>

definition copy2 :: "int \<Rightarrow> path \<Rightarrow> path \<Rightarrow> fs \<Rightarrow> path fsop" where
  "copy2 now src dst fs =
     (let d = (if isdir fs dst then dst @ [last src] else dst) in
      if src = d then (Inl (SameFileError d), fs)
      else (case fs src of
              None \<Rightarrow> (Inl (FileNotFoundError src), fs)
            | Some Dir \<Rightarrow> (Inl (IsADirectoryError src), fs)
            | Some (File data _ mt) \<Rightarrow>
                if fs (butlast d) = None then (Inl (FileNotFoundError d), fs)
                else if fs (butlast d) \<noteq> Some Dir then (Inl (NotADirectoryError d), fs)
                else if fs d = Some Dir then (Inl (IsADirectoryError d), fs)
                else (Inr d, fs(d \<mapsto> File data now mt))))"

subsection \<open>Well-formedness\<close>

text \<open>The root is a directory, there are finitely many entries, and the
  parent of every entry is a directory.\<close>

definition wf_fs :: "fs \<Rightarrow> bool" where
  "wf_fs fs = (fs [] = Some Dir \<and> finite (dom fs) \<and>
               (\<forall>p n. fs (p @ [n]) \<noteq> None \<longrightarrow> fs p = Some Dir))"

text \<open>The multiset of the contents of the files whose path satisfies \<open>Q\<close>:
  over all paths it is what a move must preserve; over the entries of one
  folder it is what an organize run takes out and its undo puts back.\<close>

definition file_paths :: "fs \<Rightarrow> (path \<Rightarrow> bool) \<Rightarrow> path set" where
  "file_paths fs Q = {p. isfile fs p \<and> Q p}"

definition contents_where :: "fs \<Rightarrow> (path \<Rightarrow> bool) \<Rightarrow> string multiset" where
  "contents_where fs Q = image_mset (\<lambda>p. fdata (the (fs p))) (mset_set (file_paths fs Q))"

definition contents :: "fs \<Rightarrow> string multiset" where
  "contents fs = contents_where fs (\<lambda>_. True)"

definition top_files :: "fs \<Rightarrow> path \<Rightarrow> string multiset" where
  "top_files fs F = contents_where fs (\<lambda>p. p \<noteq> [] \<and> butlast p = F)"

definition files_at :: "fs \<Rightarrow> path list \<Rightarrow> string multiset" where
  "files_at fs ps = mset (map (\<lambda>p. fdata (the (fs p))) ps)"

subsection \<open>Lemmas\<close>

declare path_exists_def [fs_simps] isfile_def [fs_simps] isdir_def [fs_simps]
  listdir_def [fs_simps] mkdir_def [fs_simps] os_rename_def [fs_simps]
  shutil_move_def [fs_simps] copy2_def [fs_simps]

lemma wf_fs_root: "wf_fs fs \<Longrightarrow> fs [] = Some Dir"
  by (simp add: wf_fs_def)

lemma wf_fs_parent: "wf_fs fs \<Longrightarrow> fs (p @ [n]) \<noteq> None \<Longrightarrow> fs p = Some Dir"
  unfolding wf_fs_def by blast

lemma wf_fs_parent_butlast: "wf_fs fs \<Longrightarrow> p \<noteq> [] \<Longrightarrow> fs p \<noteq> None \<Longrightarrow> fs (butlast p) = Some Dir"
  by (metis append_butlast_last_id wf_fs_parent)

lemma wf_fs_finite: "wf_fs fs \<Longrightarrow> finite (dom fs)"
  by (simp add: wf_fs_def)

lemma wf_fs_upd_Dir:
  "wf_fs fs \<Longrightarrow> p \<noteq> [] \<Longrightarrow> fs (butlast p) = Some Dir \<Longrightarrow> wf_fs (fs(p \<mapsto> Dir))"
  unfolding wf_fs_def by (auto simp: butlast_append split: if_splits)

lemma mkdir_wf: "mkdir p fs = (r, fs') \<Longrightarrow> wf_fs fs \<Longrightarrow> wf_fs fs'"
  unfolding mkdir_def
  by (auto split: if_splits intro: wf_fs_upd_Dir simp: wf_fs_root)

lemma mkdir_frame: "mkdir p fs = (r, fs') \<Longrightarrow> fs \<subseteq>\<^sub>m fs' \<and> (\<forall>q. fs' q \<noteq> fs q \<longrightarrow> fs' q = Some Dir)"
  unfolding mkdir_def by (auto split: if_splits simp: map_le_def)

lemma makedirs_wf: "makedirs p fs = (r, fs') \<Longrightarrow> wf_fs fs \<Longrightarrow> wf_fs fs'"
proof (induction p fs arbitrary: r fs' rule: makedirs.induct)
  case (1 p fs)
  show ?case
  proof (cases "p \<noteq> [] \<and> fs (butlast p) = None")
    case True
    obtain r1 fs1 where m1: "makedirs (butlast p) fs = (r1, fs1)" by fastforce
    have wf1: "wf_fs fs1" using "1.IH" True m1 "1.prems"(2) by blast
    show ?thesis
      using "1.prems"(1) True m1 wf1
      by (auto simp: makedirs.simps [of p] split: sum.splits os_error.splits prod.splits if_splits
               dest: mkdir_wf)
  next
    case False
    with "1.prems" show ?thesis
      by (auto simp: makedirs.simps [of p] split: sum.splits prod.splits if_splits dest: mkdir_wf)
  qed
qed

lemma makedirs_frame: "makedirs p fs = (r, fs') \<Longrightarrow> fs \<subseteq>\<^sub>m fs' \<and> (\<forall>q. fs' q \<noteq> fs q \<longrightarrow> fs' q = Some Dir)"
proof (induction p fs arbitrary: r fs' rule: makedirs.induct)
  case (1 p fs)
  show ?case
  proof (cases "p \<noteq> [] \<and> fs (butlast p) = None")
    case True
    obtain r1 fs1 where m1: "makedirs (butlast p) fs = (r1, fs1)" by fastforce
    have f1: "fs \<subseteq>\<^sub>m fs1 \<and> (\<forall>q. fs1 q \<noteq> fs q \<longrightarrow> fs1 q = Some Dir)" using "1.IH" True m1 by blast
    show ?thesis
      using "1.prems"(1) True m1 f1
      by (auto simp: makedirs.simps [of p] split: sum.splits os_error.splits prod.splits if_splits
               dest!: mkdir_frame intro: map_le_trans) (metis)+
  next
    case False
    with "1.prems" show ?thesis
      by (auto simp: makedirs.simps [of p] split: sum.splits prod.splits if_splits dest: mkdir_frame)
  qed
qed

lemma prefix_butlast_iff:
  "p \<noteq> [] \<Longrightarrow> prefix q p \<longleftrightarrow> q = p \<or> prefix q (butlast p)"
  by (metis append_butlast_last_id prefix_snoc)

lemma wf_fs_ancestors:
  "wf_fs fs \<Longrightarrow> fs p \<noteq> None \<Longrightarrow> prefix q p \<Longrightarrow> q \<noteq> p \<Longrightarrow> fs q = Some Dir"
proof (induction p rule: rev_induct)
  case Nil
  then show ?case by simp
next
  case (snoc x xs)
  have d: "fs xs = Some Dir" using snoc.prems(1,2) by (rule wf_fs_parent)
  from snoc.prems(3,4) have "prefix q xs" by (simp add: prefix_snoc)
  with d snoc.IH snoc.prems(1) show ?case by (cases "q = xs") auto
qed

lemma makedirs_ok:
  "wf_fs fs \<Longrightarrow> (\<forall>q. prefix q p \<longrightarrow> \<not> isfile fs q) \<Longrightarrow>
   \<exists>fs'. makedirs p fs = (Inr (), fs') \<and> (\<forall>q. prefix q p \<longrightarrow> fs' q = Some Dir)"
proof (induction p fs rule: makedirs.induct)
  case (1 p fs)
  show ?case
  proof (cases "p = []")
    case True
    with "1.prems"(1) show ?thesis
      by (simp add: makedirs.simps [of "[]"] mkdir_def isdir_def wf_fs_root)
  next
    case nonempty: False
    have pre: "prefix q p \<longleftrightarrow> q = p \<or> prefix q (butlast p)" for q
      using nonempty by (rule prefix_butlast_iff)
    show ?thesis
    proof (cases "fs (butlast p) = None")
      case True
      have "\<forall>q. prefix q (butlast p) \<longrightarrow> \<not> isfile fs q" using "1.prems"(2) pre by blast
      with "1.IH" nonempty True "1.prems"(1) obtain fs1 where
        m1: "makedirs (butlast p) fs = (Inr (), fs1)" and d1: "\<forall>q. prefix q (butlast p) \<longrightarrow> fs1 q = Some Dir"
        by blast
      have "fs p = None"
        using True nonempty "1.prems"(1) wf_fs_parent_butlast by fastforce
      with makedirs_frame [OF m1] have p1: "fs1 p = None \<or> fs1 p = Some Dir" by metis
      have b1: "fs1 (butlast p) = Some Dir" using d1 by simp
      show ?thesis
        using p1 b1 d1 nonempty True m1 pre
        by (auto simp: makedirs.simps [of p] mkdir_def isdir_def)
    next
      case False
      have nf: "\<not> isfile fs (butlast p)" using "1.prems"(2) pre by blast
      with False have bd: "fs (butlast p) = Some Dir"
        by (auto simp: isfile_def split: option.splits node.splits)
      have "\<not> isfile fs p" using "1.prems"(2) by simp
      then have pd: "fs p = None \<or> fs p = Some Dir"
        by (cases "fs p") (auto simp: isfile_def split: node.splits)
      have anc: "prefix q (butlast p) \<Longrightarrow> fs q = Some Dir" for q
        using wf_fs_ancestors [OF "1.prems"(1), of "butlast p" q] bd by (cases "q = butlast p") auto
      show ?thesis
        using pd bd anc nonempty False pre
        by (auto simp: makedirs.simps [of p] mkdir_def isdir_def)
    qed
  qed
qed

lemma makedirs_fails_on_file:
  "wf_fs fs \<Longrightarrow> makedirs p fs = (Inl e, fs') \<Longrightarrow> \<exists>q. prefix q p \<and> isfile fs q"
  using makedirs_ok by fastforce

lemma shutil_move_fresh:
  "isfile fs src \<Longrightarrow> fs dst = None \<Longrightarrow> fs (butlast dst) = Some Dir \<Longrightarrow>
   shutil_move src dst fs = (Inr dst, fs(src := None, dst := fs src))"
  by (auto simp: shutil_move_def os_rename_def isdir_def isfile_def split: option.splits node.splits)

lemma finite_dom_move_subtree:
  assumes "finite (dom fs)"
  shows "finite (dom (move_subtree src dst fs))"
proof -
  have "dom (move_subtree src dst fs) \<subseteq> dom fs \<union> (\<lambda>q. dst @ drop (length src) q) ` dom fs"
  proof
    fix q assume q: "q \<in> dom (move_subtree src dst fs)"
    show "q \<in> dom fs \<union> (\<lambda>q. dst @ drop (length src) q) ` dom fs"
    proof (cases "prefix dst q")
      case True
      then have "q = dst @ drop (length src) (src @ drop (length dst) q)"
        by (auto simp: prefix_def)
      moreover have "src @ drop (length dst) q \<in> dom fs"
        using q True by (auto simp: move_subtree_def)
      ultimately show ?thesis by blast
    next
      case False
      with q show ?thesis by (auto simp: move_subtree_def split: if_splits)
    qed
  qed
  with assms show ?thesis by (meson finite_UnI finite_imageI finite_subset)
qed

lemma move_subtree_wf:
  assumes wf: "wf_fs fs" and src: "fs src = Some Dir" and dst: "fs dst = None"
    and par: "fs (butlast dst) = Some Dir" and np: "\<not> prefix src dst"
  shows "wf_fs (move_subtree src dst fs)"
proof -
  let ?g = "move_subtree src dst fs"
  have dne: "dst \<noteq> []" using dst wf by (auto simp: wf_fs_def)
  have sne: "src \<noteq> []" using np by auto
  have root: "?g [] = Some Dir"
    using dne sne wf by (simp add: move_subtree_def wf_fs_def)
  have par_g: "?g q = Some Dir" if "?g (q @ [n]) \<noteq> None" for q n
  proof (cases "prefix dst (q @ [n])")
    case True
    show ?thesis
    proof (cases "dst = q @ [n]")
      case True
      then have "q = butlast dst" by simp
      moreover have "\<not> prefix dst q" using True by (auto dest: prefix_length_le)
      moreover have "\<not> prefix src q"
        using np True by (metis prefix_order.dual_order.trans prefix_snoc)
      ultimately show ?thesis using par by (simp add: move_subtree_def)
    next
      case False
      with True have pq: "prefix dst q" by (simp add: prefix_snoc)
      have "fs (src @ drop (length dst) q @ [n]) \<noteq> None"
        using that True pq by (auto simp: move_subtree_def prefix_def)
      then have "fs (src @ drop (length dst) q) = Some Dir"
        using wf wf_fs_parent by (metis append_assoc)
      with pq show ?thesis by (simp add: move_subtree_def)
    qed
  next
    case False
    then have "\<not> prefix dst q" by (metis prefix_order.dual_order.trans prefix_snoc)
    moreover have "\<not> prefix src (q @ [n])" and "fs (q @ [n]) \<noteq> None"
      using that False by (auto simp: move_subtree_def split: if_splits)
    moreover have "\<not> prefix src q"
      using calculation(2) by (metis prefix_order.dual_order.trans prefix_snoc)
    ultimately show ?thesis using wf wf_fs_parent by (simp add: move_subtree_def)
  qed
  show ?thesis
    using root par_g finite_dom_move_subtree wf_fs_finite [OF wf]
    by (simp add: wf_fs_def)
qed

lemma wf_fs_del_file:
  "wf_fs fs \<Longrightarrow> fs p = Some (File d c m) \<Longrightarrow> wf_fs (fs(p := None))"
  unfolding wf_fs_def by (metis fun_upd_apply finite_dom_upd node.distinct(1) option.inject option.simps(3))

lemma wf_fs_put_file:
  "wf_fs fs \<Longrightarrow> fs (butlast p) = Some Dir \<Longrightarrow> fs p \<noteq> Some Dir \<Longrightarrow> wf_fs (fs(p \<mapsto> File d c m))"
proof -
  assume wf: "wf_fs fs" and par: "fs (butlast p) = Some Dir" and nd: "fs p \<noteq> Some Dir"
  have nochild: "fs (p @ [n]) = None" for n
    using wf nd wf_fs_parent by blast
  have pne: "p \<noteq> []" using wf nd by (auto simp: wf_fs_def)
  show ?thesis
    using wf par nochild pne unfolding wf_fs_def
    by (auto simp: fun_upd_apply)
qed

lemma os_rename_wf: "os_rename src dst fs = (r, fs') \<Longrightarrow> wf_fs fs \<Longrightarrow> wf_fs fs'"
proof -
  assume ren: "os_rename src dst fs = (r, fs')" and wf: "wf_fs fs"
  show ?thesis
  proof (cases "fs src")
    case None
    with ren wf show ?thesis by (simp add: os_rename_def)
  next
    case (Some n)
    show ?thesis
    proof (cases n)
      case (File d c m)
      have "butlast dst \<noteq> src" if "fs (butlast dst) = Some Dir" using that Some File by auto
      then show ?thesis
        using ren wf Some File
        by (auto simp: os_rename_def split: if_splits option.splits
                 intro!: wf_fs_put_file wf_fs_del_file)
    next
      case Dir
      with ren wf Some show ?thesis
        by (auto simp: os_rename_def split: if_splits option.splits node.splits
                 intro: move_subtree_wf)
    qed
  qed
qed

lemma shutil_move_wf: "shutil_move src dst fs = (r, fs') \<Longrightarrow> wf_fs fs \<Longrightarrow> wf_fs fs'"
  unfolding shutil_move_def Let_def
  by (auto split: if_splits elim!: ebind_cases dest: os_rename_wf)

lemma copy2_wf: "copy2 now src dst fs = (r, fs') \<Longrightarrow> wf_fs fs \<Longrightarrow> wf_fs fs'"
  unfolding copy2_def Let_def
  by (auto split: if_splits option.splits node.splits intro: wf_fs_put_file)

lemma file_paths_finite: "finite (dom fs) \<Longrightarrow> finite (file_paths fs Q)"
  by (rule finite_subset [of _ "dom fs"]) (auto simp: file_paths_def isfile_def split: option.splits)

lemma contents_where_dirs_only:
  assumes "\<forall>q. fs' q \<noteq> fs q \<longrightarrow> fs' q = Some Dir \<and> fs q = None"
  shows "contents_where fs' Q = contents_where fs Q"
proof -
  have "isfile fs' q = isfile fs q" for q
    using assms [rule_format, of q] by (cases "fs' q = fs q") (auto simp: isfile_def)
  then have fp: "file_paths fs' Q = file_paths fs Q" by (simp add: file_paths_def)
  have eq: "\<forall>p\<in>file_paths fs Q. fs' p = fs p"
    using assms by (fastforce simp: file_paths_def isfile_def)
  show ?thesis
  proof (cases "finite (file_paths fs Q)")
    case True
    then show ?thesis
      unfolding contents_where_def fp by (intro image_mset_cong) (simp add: eq)
  next
    case False
    then show ?thesis by (simp add: contents_where_def fp)
  qed
qed

lemma contents_where_del:
  assumes fin: "finite (dom fs)" and f: "fs p = Some (File d c m)"
  shows "contents_where (fs(p := None)) Q + (if Q p then {#d#} else {#}) = contents_where fs Q"
proof -
  let ?G = "file_paths fs Q" and ?f = "\<lambda>q. fdata (the (fs q))"
  have finG: "finite ?G" using fin by (rule file_paths_finite)
  have G': "file_paths (fs(p := None)) Q = ?G - {p}"
    by (auto simp: file_paths_def isfile_def)
  have img: "contents_where (fs(p := None)) Q = image_mset ?f (mset_set (?G - {p}))"
    unfolding contents_where_def G' using finG by (intro image_mset_cong) auto
  show ?thesis
  proof (cases "Q p")
    case True
    then have "p \<in> ?G" using f by (simp add: file_paths_def isfile_def)
    with finG have "mset_set ?G = add_mset p (mset_set (?G - {p}))" by (simp add: mset_set.remove)
    with img True f show ?thesis by (simp add: contents_where_def)
  next
    case False
    then have "?G - {p} = ?G" by (auto simp: file_paths_def)
    with img False show ?thesis by (simp add: contents_where_def)
  qed
qed

lemma contents_where_put:
  assumes fin: "finite (dom fs)" and none: "fs p = None"
  shows "contents_where (fs(p \<mapsto> File d c m)) Q = contents_where fs Q + (if Q p then {#d#} else {#})"
proof -
  let ?fs' = "fs(p \<mapsto> File d c m)"
  have fin': "finite (dom ?fs')" using fin by simp
  have "contents_where (?fs'(p := None)) Q + (if Q p then {#d#} else {#}) = contents_where ?fs' Q"
    using contents_where_del [OF fin', of p d c m Q] by simp
  moreover have "?fs'(p := None) = fs" using none by (simp add: fun_eq_iff)
  ultimately show ?thesis by simp
qed

lemma contents_where_move:
  assumes fin: "finite (dom fs)" and src: "fs src = Some (File d c m)" and dst: "fs dst = None"
  shows "contents_where (fs(src := None, dst := fs src)) Q + (if Q src then {#d#} else {#}) =
         contents_where fs Q + (if Q dst then {#d#} else {#})"
proof -
  have sd: "src \<noteq> dst" using src dst by auto
  have fin': "finite (dom (fs(src := None)))" using fin by simp
  have "contents_where (fs(src := None, dst := fs src)) Q =
        contents_where (fs(src := None)) Q + (if Q dst then {#d#} else {#})"
    using contents_where_put [OF fin', of dst d c m Q] sd dst src by simp
  with contents_where_del [OF fin src, of Q] show ?thesis
    by (simp add: algebra_simps)
qed

lemma contents_move_file:
  assumes "finite (dom fs)" and "isfile fs src" and "fs dst = None"
  shows "contents (fs(src := None, dst := fs src)) = contents fs"
  using assms contents_where_move [of fs src _ _ _ dst "\<lambda>_. True"]
  by (auto simp: contents_def isfile_def split: option.splits node.splits)

lemma contents_dirs_only:
  "\<forall>q. fs' q \<noteq> fs q \<longrightarrow> fs' q = Some Dir \<and> fs q = None \<Longrightarrow> contents fs' = contents fs"
  unfolding contents_def by (rule contents_where_dirs_only)

lemma makedirs_Inr_dir: "makedirs p fs = (Inr u, fs') \<Longrightarrow> fs' p = Some Dir"
  by (auto simp: makedirs.simps [of p] mkdir_def isdir_def split: prod.splits sum.splits if_splits os_error.splits)

lemma makedirs_keeps: "makedirs p fs = (r, fs') \<Longrightarrow> fs q \<noteq> None \<Longrightarrow> fs' q = fs q"
  using makedirs_frame by (metis domIff map_le_def)

lemma makedirs_dirs_only:
  "makedirs p fs = (r, fs') \<Longrightarrow> \<forall>q. fs' q \<noteq> fs q \<longrightarrow> fs' q = Some Dir \<and> fs q = None"
  using makedirs_frame [of p fs r fs'] by (metis domIff map_le_def)

lemma wf_fs_move_fresh:
  "wf_fs fs \<Longrightarrow> fs src = Some (File d c m) \<Longrightarrow> fs dst = None \<Longrightarrow> fs (butlast dst) = Some Dir \<Longrightarrow>
   wf_fs (fs(src := None, dst := fs src))"
proof -
  assume wf: "wf_fs fs" and s: "fs src = Some (File d c m)" and n: "fs dst = None"
    and p: "fs (butlast dst) = Some Dir"
  have "wf_fs (fs(src := None))" using wf s by (rule wf_fs_del_file)
  moreover have "(fs(src := None)) (butlast dst) = Some Dir" using p s by auto
  moreover have "(fs(src := None)) dst \<noteq> Some Dir" using n by simp
  ultimately have "wf_fs ((fs(src := None))(dst \<mapsto> File d c m))" by (rule wf_fs_put_file)
  then show ?thesis using s by simp
qed

lemma isfile_exists: "isfile fs p \<Longrightarrow> fs p \<noteq> None"
  by (auto simp: isfile_def split: option.splits)

lemma files_at_cong: "\<forall>p\<in>set ps. fs' p = fs p \<Longrightarrow> files_at fs' ps = files_at fs ps"
  unfolding files_at_def by (metis (mono_tags, lifting) map_eq_conv)

lemma shutil_move_err: "shutil_move src dst fs = (Inl e, fs') \<Longrightarrow> fs' = fs"
  unfolding shutil_move_def os_rename_def Let_def
  by (auto split: if_splits option.splits node.splits elim!: ebind_cases)

lemma contents_where_upd_outside:
  assumes "\<not> Q p"
  shows "contents_where (fs(p := v)) Q = contents_where fs Q"
proof -
  have fp: "file_paths (fs(p := v)) Q = file_paths fs Q"
    using assms by (auto simp: file_paths_def isfile_def)
  have "\<forall>q\<in>file_paths fs Q. fdata (the ((fs(p := v)) q)) = fdata (the (fs q))"
    using assms by (auto simp: file_paths_def)
  then show ?thesis unfolding contents_where_def fp
    by (cases "finite (file_paths fs Q)") (auto intro: image_mset_cong)
qed

text \<open>\<open>copy2\<close> into a directory writes at most the one entry
  \<open>dst/basename(src)\<close>, so it changes no contents outside that directory.\<close>

lemma copy2_outside:
  assumes cp: "copy2 now src bd fs = (r, fs')" and bdd: "fs bd = Some Dir" and out: "\<forall>n. \<not> Q (bd @ [n])"
  shows "contents_where fs' Q = contents_where fs Q \<and> fs' bd = Some Dir"
proof -
  have "fs' = fs \<or> (\<exists>x. fs' = fs(bd @ [last src] := x))"
    using cp bdd unfolding copy2_def Let_def isdir_def
    by (auto split: if_splits option.splits node.splits)
  moreover have "\<not> Q (bd @ [last src])" using out by blast
  moreover have "bd \<noteq> bd @ [last src]" by simp
  ultimately show ?thesis using bdd by (auto simp: contents_where_upd_outside)
qed

lemma contents_where_le: "finite (dom fs) \<Longrightarrow> contents_where fs Q \<subseteq># contents fs"
  unfolding contents_def contents_where_def
  by (intro image_mset_subseteq_mono subset_imp_msubset_mset_set file_paths_finite) (auto simp: file_paths_def)

lemma contents_where_all:
  "\<forall>p. isfile fs p \<longrightarrow> Q p \<Longrightarrow> contents_where fs Q = contents fs"
  unfolding contents_def contents_where_def file_paths_def by metis

lemma wf_fs_no_below:
  "wf_fs fs \<Longrightarrow> fs d = None \<Longrightarrow> prefix d p \<Longrightarrow> fs p = None"
  using wf_fs_ancestors by fastforce

lemma makedirs_isfile:
  assumes mk: "makedirs p fs = (r, fs')" and f: "isfile fs' q"
  shows "isfile fs q"
proof (cases "fs' q = fs q")
  case True
  then show ?thesis using f by (simp add: isfile_def)
next
  case False
  then have "fs' q = Some Dir" using makedirs_dirs_only [OF mk] by blast
  then show ?thesis using f by (simp add: isfile_def)
qed

lemma makedirs_success:
  assumes "wf_fs fs" and "\<forall>q. prefix q p \<longrightarrow> \<not> isfile fs q"
  obtains fs' where "makedirs p fs = (Inr (), fs')" "wf_fs fs'" "\<forall>q. prefix q p \<longrightarrow> fs' q = Some Dir"
    "\<forall>q. fs q \<noteq> None \<longrightarrow> fs' q = fs q" "\<forall>q. isfile fs' q \<longrightarrow> isfile fs q"
proof -
  obtain fs' where mk: "makedirs p fs = (Inr (), fs')" and d: "\<forall>q. prefix q p \<longrightarrow> fs' q = Some Dir"
    using makedirs_ok [OF assms] by blast
  show ?thesis
    using that [OF mk makedirs_wf [OF mk assms(1)] d] makedirs_keeps [OF mk] makedirs_isfile [OF mk] by blast
qed


lemma prefix_butlast_self: "prefix (butlast p) p"
  by (metis take_is_prefix butlast_conv_take)

lemma mkdir_cases: "mkdir p fs = (r, fs') \<Longrightarrow> fs' = fs \<or> fs' = fs(p \<mapsto> Dir)"
  unfolding mkdir_def by (auto split: if_splits)

lemma makedirs_only_prefixes:
  "makedirs p fs = (r, fs') \<Longrightarrow> fs' q \<noteq> fs q \<Longrightarrow> prefix q p"
proof (induction p fs arbitrary: r fs' rule: makedirs.induct)
  case (1 p fs)
  show ?case
  proof (cases "p \<noteq> [] \<and> fs (butlast p) = None")
    case True
    obtain r1 fs1 where m1: "makedirs (butlast p) fs = (r1, fs1)" by fastforce
    have f1: "fs1 q \<noteq> fs q \<Longrightarrow> prefix q p"
      using "1.IH" [OF True m1] prefix_butlast_self by (metis prefix_order.trans)
    have "fs' = fs1 \<or> fs' = fs1(p \<mapsto> Dir)"
      using "1.prems"(1) True m1
      by (auto simp: makedirs.simps [of p] split: sum.splits os_error.splits prod.splits if_splits
               dest!: mkdir_cases)
    then show ?thesis using f1 "1.prems"(2) by (cases "q = p") auto
  next
    case False
    then have "fs' = fs \<or> fs' = fs(p \<mapsto> Dir)"
      using "1.prems"(1)
      by (auto simp: makedirs.simps [of p] split: sum.splits prod.splits if_splits dest!: mkdir_cases)
    then show ?thesis using "1.prems"(2) by (cases "q = p") auto
  qed
qed

lemma contents_where_insert:
  assumes fin: "finite (dom fs)" and f: "fs p = Some (File d c m)" and nq: "\<not> Q p"
  shows "contents_where fs (\<lambda>q. q = p \<or> Q q) = contents_where fs Q + {#d#}"
proof -
  have "file_paths fs (\<lambda>q. q = p \<or> Q q) = insert p (file_paths fs Q)"
    using f by (auto simp: file_paths_def isfile_def)
  moreover have "p \<notin> file_paths fs Q" using nq by (simp add: file_paths_def)
  ultimately show ?thesis using file_paths_finite [OF fin] f
    by (simp add: contents_where_def)
qed

lemma contents_where_cong_files:
  "\<forall>p. isfile fs p \<longrightarrow> (Q p \<longleftrightarrow> Q' p) \<Longrightarrow> contents_where fs Q = contents_where fs Q'"
  unfolding contents_where_def file_paths_def by metis

lemma no_files_below:
  assumes wf: "wf_fs fs" and none: "fs d = None"
  shows "contents_where fs (\<lambda>p. prefix d p) = {#}"
proof -
  have "file_paths fs (\<lambda>p. prefix d p) = {}"
    by (auto simp: file_paths_def isfile_def dest: wf_fs_no_below [OF wf none])
  then show ?thesis by (simp add: contents_where_def)
qed

end
