(* ===== verification/Naming.thy ===== *)
theory Naming
  imports PyStr FileSystem
begin

text \<open>
  The duplicate-name loop that both \<open>organize_files_thread\<close> and
  \<open>undo_operation\<close> of \<open>src/organizer.py\<close> run before a move:
  \<^verbatim>\<open>
    new_path = os.path.join(folder, item); counter = 1
    while os.path.exists(new_path):
        new_path = os.path.join(folder, f"{base}_{counter}{extension}")
        counter += 1
  \<close>
  Nothing in the loop itself bounds it, so it is a \<open>partial_function (option)\<close>;
  on a file system with finitely many entries it always returns, with a path
  that does not exist, and it returns the first free candidate of the sequence
  \<open>item\<close>, \<open>base_1ext\<close>, \<open>base_2ext\<close>, \<dots>
\<close>

definition candidate :: "path \<Rightarrow> string \<Rightarrow> string \<Rightarrow> nat \<Rightarrow> path" where
  "candidate dir base ext counter = dir @ [base @ ''_'' @ nat_str counter @ ext]"

partial_function (option) find_free ::
  "fs \<Rightarrow> path \<Rightarrow> string \<Rightarrow> string \<Rightarrow> nat \<Rightarrow> path \<Rightarrow> path option" where
  "find_free fs dir base ext counter new_path =
     (if path_exists fs new_path
      then find_free fs dir base ext (Suc counter) (candidate dir base ext counter)
      else Some new_path)"

declare find_free.simps [code]

text \<open>A folder \<open>d\<close> holding \<open>draft.txt\<close>.\<close>

definition fs_example :: fs where
  "fs_example = [[] \<mapsto> Dir, [''d''] \<mapsto> Dir, [''d'', ''draft.txt''] \<mapsto> File ''old'' 0 0]"

subsection \<open>Lemmas\<close>

lemma candidate_inj [simp]:
  "candidate dir base ext j = candidate dir base ext k \<longleftrightarrow> j = k"
  by (simp add: candidate_def nat_str_inj)

lemma butlast_candidate [simp]: "butlast (candidate dir base ext k) = dir"
  by (simp add: candidate_def)

lemma find_free_free:
  assumes ret: "find_free fs dir base ext c p = Some q"
  shows "\<not> path_exists fs q \<and> (q = p \<or> (\<exists>k\<ge>c. q = candidate dir base ext k))"
proof (rule find_free.raw_induct [where P = "\<lambda>fs dir base ext c p q. \<not> path_exists fs q \<and>
           (q = p \<or> (\<exists>k\<ge>c. q = candidate dir base ext k))", OF _ ret])
  fix f fs dir base ext c p q
  assume IH: "\<And>fs dir base ext c p q. f fs dir base ext c p = Some q \<Longrightarrow>
                \<not> path_exists fs q \<and> (q = p \<or> (\<exists>k\<ge>c. q = candidate dir base ext k))"
    and eq: "(if path_exists fs p then f fs dir base ext (Suc c) (candidate dir base ext c)
              else Some p) = Some q"
  show "\<not> path_exists fs q \<and> (q = p \<or> (\<exists>k\<ge>c. q = candidate dir base ext k))"
  proof (cases "path_exists fs p")
    case True
    with eq have "f fs dir base ext (Suc c) (candidate dir base ext c) = Some q" by simp
    then have "\<not> path_exists fs q \<and> (q = candidate dir base ext c \<or>
               (\<exists>k\<ge>Suc c. q = candidate dir base ext k))"
      by (rule IH)
    then show ?thesis by (auto intro: Suc_leD)
  next
    case False
    with eq show ?thesis by simp
  qed
qed

text \<open>The loop returns the first candidate that is free, once one exists.\<close>

lemma find_free_first:
  assumes "c \<le> k" and "\<not> path_exists fs (candidate dir base ext k)"
    and "\<forall>j. c \<le> j \<and> j < k \<longrightarrow> path_exists fs (candidate dir base ext j)"
  shows "find_free fs dir base ext c p =
           (if path_exists fs p then Some (candidate dir base ext k) else Some p)"
  using assms
proof (induction "k - c" arbitrary: c p)
  case 0
  then have "k = c" by simp
  with "0.prems"(2) show ?case by (simp add: find_free.simps [of fs dir base ext c p] find_free.simps [of fs dir base ext "Suc c"])
next
  case (Suc m)
  then have lt: "c < k" by simp
  then have ex: "path_exists fs (candidate dir base ext c)" using Suc.prems(3) by simp
  have "find_free fs dir base ext (Suc c) (candidate dir base ext c) = Some (candidate dir base ext k)"
    using Suc.hyps(1) [of "Suc c" "candidate dir base ext c"] Suc.hyps(2) Suc.prems lt ex by simp
  then show ?case by (simp add: find_free.simps [of fs dir base ext c p])
qed

lemma exists_free_candidate:
  assumes "finite (dom fs)"
  shows "\<exists>k\<ge>c. \<not> path_exists fs (candidate dir base ext k)"
proof -
  let ?S = "{k. candidate dir base ext k \<in> dom fs}"
  have "inj (candidate dir base ext)" by (simp add: inj_def)
  then have fin: "finite ?S" using assms by (simp add: finite_vimageI [unfolded vimage_def])
  let ?k = "Suc (Max (insert c ?S))"
  have "?k \<notin> ?S"
  proof
    assume "?k \<in> ?S"
    then have "?k \<le> Max (insert c ?S)" using fin by (intro Max_ge) auto
    then show False by simp
  qed
  moreover have "c \<le> ?k" using fin by (simp add: le_SucI)
  ultimately show ?thesis by (auto simp: path_exists_def)
qed

lemma least_free_candidate:
  assumes "finite (dom fs)"
  obtains k where "c \<le> k" "\<not> path_exists fs (candidate dir base ext k)"
    "\<forall>j. c \<le> j \<and> j < k \<longrightarrow> path_exists fs (candidate dir base ext j)"
proof -
  obtain k0 where k0: "c \<le> k0" "\<not> path_exists fs (candidate dir base ext k0)"
    using exists_free_candidate [OF assms] by blast
  let ?k = "LEAST k. c \<le> k \<and> \<not> path_exists fs (candidate dir base ext k)"
  have "\<exists>k. c \<le> k \<and> \<not> path_exists fs (candidate dir base ext k)" using k0 by blast
  then have l: "c \<le> ?k \<and> \<not> path_exists fs (candidate dir base ext ?k)" by (rule LeastI_ex)
  have m: "path_exists fs (candidate dir base ext j)" if "c \<le> j" "j < ?k" for j
    using not_less_Least [OF that(2)] that(1) by blast
  from l m show ?thesis by (intro that) auto
qed

text \<open>The form both loops of the code use: started on \<open>dir/name\<close>, the loop
  returns a free path in \<open>dir\<close>.\<close>

lemma find_free_parent:
  "find_free fs dir base ext c (dir @ [n]) = Some q \<Longrightarrow> butlast q = dir \<and> fs q = None"
  using find_free_free [of fs dir base ext c "dir @ [n]" q] by (auto simp: path_exists_def)

lemma find_free_at:
  assumes "finite (dom fs)"
  shows "\<exists>q. find_free fs dir base ext c (dir @ [n]) = Some q \<and> butlast q = dir \<and> fs q = None"
proof -
  obtain k where "c \<le> k" "\<not> path_exists fs (candidate dir base ext k)"
    "\<forall>j. c \<le> j \<and> j < k \<longrightarrow> path_exists fs (candidate dir base ext j)"
    using assms by (rule least_free_candidate)
  then have "find_free fs dir base ext c (dir @ [n]) \<noteq> None" by (simp add: find_free_first)
  then show ?thesis using find_free_parent by blast
qed

subsection \<open>Properties\<close>

text \<open>
  (C14) On a file system with finitely many entries the duplicate-name loop
  terminates, and the path it returns does not exist: it is the original path
  when that is free, and otherwise the first free candidate from the counter
  on.
\<close>

theorem find_free_terminates:
  assumes "finite (dom fs)"
  shows "\<exists>q. find_free fs dir base ext c p = Some q \<and> \<not> path_exists fs q \<and>
             (if path_exists fs p
              then \<exists>k\<ge>c. q = candidate dir base ext k \<and>
                          (\<forall>j. c \<le> j \<and> j < k \<longrightarrow> path_exists fs (candidate dir base ext j))
              else q = p)"
proof -
  obtain k where k: "c \<le> k" "\<not> path_exists fs (candidate dir base ext k)"
    "\<forall>j. c \<le> j \<and> j < k \<longrightarrow> path_exists fs (candidate dir base ext j)"
    using assms by (rule least_free_candidate)
  then have "find_free fs dir base ext c p =
               (if path_exists fs p then Some (candidate dir base ext k) else Some p)"
    by (rule find_free_first)
  with k show ?thesis by auto
qed

theorem find_free_terminates_witness:
  "finite (dom fs_example) \<and>
   find_free fs_example [''d''] ''draft'' ''.txt'' 1 [''d'', ''draft.txt''] = Some [''d'', ''draft_1.txt'']"
proof -
  have fin: "finite (dom fs_example)" by (simp add: fs_example_def)
  have "find_free fs_example [''d''] ''draft'' ''.txt'' 1 [''d'', ''draft.txt''] = Some [''d'', ''draft_1.txt'']"
    using find_free_terminates [OF fin, of "[''d'']" "''draft''" "''.txt''" 1 "[''d'', ''draft.txt'']"]
    by (simp add: find_free.simps candidate_def fs_example_def path_exists_def digit_char_def py_simps)
  with fin show ?thesis by simp
qed



end
