(* ===== verification/Dates.thy ===== *)
theory Dates
  imports PyStr FileSystem
begin

text \<open>
  How \<open>src/organizer.py\<close> turns times into folder and file names:
  \<open>datetime.fromtimestamp(os.path.getctime(p))\<close> gives the year and month
  of the category folder (\<open>str(year)\<close>, \<open>f"{month:02}"\<close>);
  \<open>datetime.now().strftime("%Y-%m-%d_%H-%M-%S")\<close> names the backup
  directory; \<open>str(datetime.now())\<close> starts every log line.
  Times are whole seconds since the epoch (\<open>int\<close>); local time is the
  epoch time shifted by a fixed offset \<open>tz\<close> in seconds (no daylight-saving
  changes). The calendar is CPython's proleptic Gregorian one: the date of an
  ordinal day (0001-01-01 is day 1) is computed by \<open>_ord2ymd\<close>, transcribed
  here with its 400/100/4/1-year cycles.
\<close>

definition DAYS_IN_MONTH :: "int list" where
  "DAYS_IN_MONTH = [-1, 31, 28, 31, 30, 31, 30, 31, 31, 30, 31, 30, 31]"

definition DAYS_BEFORE_MONTH :: "int list" where
  "DAYS_BEFORE_MONTH = [-1, 0, 31, 59, 90, 120, 151, 181, 212, 243, 273, 304, 334]"

definition DI400Y :: int where "DI400Y = 146097"
definition DI100Y :: int where "DI100Y = 36524"
definition DI4Y :: int where "DI4Y = 1461"

text \<open>The second half of \<open>_ord2ymd\<close>: month and day of the zero-based day
  \<open>n\<close> of a year, from the estimate \<open>(n + 50) >> 5\<close> corrected once.\<close>

definition month_day :: "bool \<Rightarrow> int \<Rightarrow> int \<times> int" where
  "month_day leapyear n =
     (let month = (n + 50) div 32;
          preceding = DAYS_BEFORE_MONTH ! nat month + (if month > 2 \<and> leapyear then 1 else 0)
      in if preceding > n then
           let month = month - 1;
               preceding = preceding - (DAYS_IN_MONTH ! nat month + (if month = 2 \<and> leapyear then 1 else 0))
           in (month, n - preceding + 1)
         else (month, n - preceding + 1))"

text \<open>\<open>_ord2ymd(n)\<close>: \<open>(year, month, day)\<close> of ordinal day \<open>n\<close>.\<close>

definition ord2ymd :: "int \<Rightarrow> int \<times> int \<times> int" where
  "ord2ymd n0 =
     (let n = n0 - 1;
          n400 = n div DI400Y; n = n mod DI400Y;
          year = n400 * 400 + 1;
          n100 = n div DI100Y; n = n mod DI100Y;
          n4 = n div DI4Y; n = n mod DI4Y;
          n1 = n div 365; n = n mod 365;
          year = year + n100 * 100 + n4 * 4 + n1
      in if n1 = 4 \<or> n100 = 4 then (year - 1, 12, 31)
         else let leapyear = (n1 = 3 \<and> (n4 \<noteq> 24 \<or> n100 = 3)) in
              (year, month_day leapyear n))"

text \<open>\<open>date(1970, 1, 1).toordinal()\<close>, and the ordinals of 0001-01-01 and
  9999-12-31, outside of which \<open>fromtimestamp\<close> raises.\<close>

definition EPOCH_ORD :: int where "EPOCH_ORD = 719163"
definition MAX_ORD :: int where "MAX_ORD = 3652059"

definition local_ordinal :: "int \<Rightarrow> int \<Rightarrow> int" where
  "local_ordinal tz t = (t + tz) div 86400 + EPOCH_ORD"

text \<open>\<open>datetime.fromtimestamp(t)\<close>, read for its date: year, month, day.\<close>

definition fromtimestamp :: "int \<Rightarrow> int \<Rightarrow> os_error + (int \<times> int \<times> int)" where
  "fromtimestamp tz t =
     (let ord = local_ordinal tz t in
      if ord < 1 \<or> MAX_ORD < ord then Inl (OverflowError t) else Inr (ord2ymd ord))"

text \<open>Time of day of the local time, in hours, minutes and seconds.\<close>

definition hms :: "int \<Rightarrow> int \<Rightarrow> int \<times> int \<times> int" where
  "hms tz t = (let s = (t + tz) mod 86400 in (s div 3600, s mod 3600 div 60, s mod 60))"

definition int_str :: "int \<Rightarrow> string" where
  "int_str i = nat_str (nat i)"

definition pad2i :: "int \<Rightarrow> string" where
  "pad2i i = pad2 (nat i)"

definition pad4i :: "int \<Rightarrow> string" where
  "pad4i i = replicate (4 - length (int_str i)) CHR ''0'' @ int_str i"

text \<open>\<open>strftime("%Y-%m-%d_%H-%M-%S")\<close> (glibc prints \<open>%Y\<close> without padding)
  and \<open>str(datetime)\<close> with zero microseconds, \<open>"%04d-%02d-%02d %02d:%02d:%02d"\<close>.\<close>

definition backup_stamp :: "int \<Rightarrow> int \<Rightarrow> string" where
  "backup_stamp tz t =
     (let (y, m, d) = ord2ymd (local_ordinal tz t); (hh, mm, ss) = hms tz t in
      int_str y @ ''-'' @ pad2i m @ ''-'' @ pad2i d @ ''_'' @
      pad2i hh @ ''-'' @ pad2i mm @ ''-'' @ pad2i ss)"

definition str_datetime :: "int \<Rightarrow> int \<Rightarrow> string" where
  "str_datetime tz t =
     (let (y, m, d) = ord2ymd (local_ordinal tz t); (hh, mm, ss) = hms tz t in
      pad4i y @ ''-'' @ pad2i m @ ''-'' @ pad2i d @ '' '' @
      pad2i hh @ '':'' @ pad2i mm @ '':'' @ pad2i ss)"

subsection \<open>Lemmas\<close>

lemma month_estimate:
  fixes r :: int
  assumes "0 \<le> r" "r < 365"
  shows "1 \<le> (r + 50) div 32 \<and> (r + 50) div 32 \<le> 12"
  using assms by auto

lemma month_day_bounds:
  fixes r :: int
  assumes r: "0 \<le> r" "r < 365" and md: "month_day L r = (m, d)"
  shows "1 \<le> m \<and> m \<le> 12 \<and> 1 \<le> d \<and> d \<le> 31"
proof -
  let ?m0 = "(r + 50) div 32"
  have lo: "32 * ?m0 \<le> r + 50" and hi: "r + 50 < 32 * ?m0 + 32" by auto
  have "?m0 \<in> set [1..12]" using month_estimate [OF r] by (simp only: set_upto atLeastAtMost_iff)
  then have "?m0 = 1 \<or> ?m0 = 2 \<or> ?m0 = 3 \<or> ?m0 = 4 \<or> ?m0 = 5 \<or> ?m0 = 6 \<or> ?m0 = 7 \<or> ?m0 = 8 \<or>
             ?m0 = 9 \<or> ?m0 = 10 \<or> ?m0 = 11 \<or> ?m0 = 12" by (simp add: upto.simps)
  then show ?thesis
    using lo hi r md unfolding month_day_def Let_def
    by (elim disjE) (simp_all add: DAYS_BEFORE_MONTH_def DAYS_IN_MONTH_def split: if_splits)
qed

text \<open>Every date \<open>_ord2ymd\<close> produces has a month between 1 and 12 and a
  day between 1 and 31, and so has every date \<open>fromtimestamp\<close> returns; the
  month folder \<open>f"{month:02}"\<close> of such a month is one of \<open>01\<close>..\<open>12\<close>.\<close>

lemma ord2ymd_bounds:
  assumes "ord2ymd n = (y, m, d)"
  shows "1 \<le> m \<and> m \<le> 12 \<and> 1 \<le> d \<and> d \<le> 31"
proof -
  let ?r = "(n - 1) mod DI400Y mod DI100Y mod DI4Y mod 365"
  have r: "0 \<le> ?r" "?r < 365" by simp_all
  show ?thesis
    using assms month_day_bounds [OF r] unfolding ord2ymd_def Let_def
    by (auto split: if_splits)
qed
lemma fromtimestamp_month:
  assumes "fromtimestamp tz t = Inr (y, m, d)"
  shows "1 \<le> m \<and> m \<le> 12"
  using assms ord2ymd_bounds [of "local_ordinal tz t"] by (auto simp: fromtimestamp_def Let_def split: if_splits)

lemma pad2i_month:
  assumes "1 \<le> m" and "m \<le> (12::int)"
  shows "pad2i m \<in> {''01'', ''02'', ''03'', ''04'', ''05'', ''06'', ''07'', ''08'', ''09'', ''10'', ''11'', ''12''}"
proof -
  have "m = 1 \<or> m = 2 \<or> m = 3 \<or> m = 4 \<or> m = 5 \<or> m = 6 \<or> m = 7 \<or> m = 8 \<or> m = 9 \<or> m = 10 \<or> m = 11 \<or> m = 12"
    using assms by arith
  then show ?thesis
    by (elim disjE) (simp_all add: pad2i_def pad2_def nat_str.simps digit_char_def py_simps)
qed

end
