(* ===== verification/AppState.thy ===== *)
theory AppState
  imports Dates
begin

text \<open>
  The state the handlers of \<open>src/organizer.py\<close> act on. The disk holds the
  folders being organized and the backup snapshots (under \<open>DATA_DIR\<close>); the
  three data files the application keeps under \<open>DATA_DIR\<close> are modelled by
  their parsed content: \<open>users.json\<close> (username to password), the single
  \<open>undo_log.json\<close> slot, and one activity log per user. \<open>current_user\<close> is
  the attribute of the GUI object; \<open>clock\<close> is \<open>datetime.now()\<close> in epoch
  seconds, \<open>tz\<close> the local offset. A handler runs to completion before the
  next starts, so the clock is read as one instant per handler.
\<close>

record undo_entry =
  undo_user :: string
  undo_files :: "(path \<times> path) list"

record world =
  disk :: fs
  users_file :: "(string \<rightharpoonup> string) option"
  undo_file :: "undo_entry option"
  logs :: "string \<rightharpoonup> string"
  current_user :: "string option"
  clock :: int
  tz :: int
  data_dir :: path

text \<open>What a handler shows: \<open>messagebox.showinfo\<close>, \<open>showerror\<close> (with the text
  of a caught exception where the code appends \<open>str(e)\<close>), and
  \<open>askyesno\<close> answers, which the handlers take as an argument.\<close>

datatype message =
    Info string string
  | Error string string
  | ErrorExc string string os_error

type_synonym 'a run = "(os_error, 'a, world) exc"

text \<open>A file-system call on the disk of the world.\<close>

definition on_disk :: "(fs \<Rightarrow> 'a fsop) \<Rightarrow> world \<Rightarrow> 'a run" where
  "on_disk f w = (let (r, d) = f (disk w) in (r, w\<lparr>disk := d\<rparr>))"

text \<open>\<open>create_log(username, message)\<close>: append the line
  \<open>"<str(datetime.now())> - <message>\n"\<close> to \<open>data/logs/<username>_log.txt\<close>,
  creating the file when absent.\<close>

definition create_log :: "string \<Rightarrow> string \<Rightarrow> world \<Rightarrow> world" where
  "create_log username msg w =
     w\<lparr>logs := (logs w)(username \<mapsto>
        (case logs w username of None \<Rightarrow> [] | Some s \<Rightarrow> s) @
        str_datetime (tz w) (clock w) @ '' - '' @ msg @ ''\<newline>'')\<rparr>"

definition ARROW :: string where
  "ARROW = [CHR 0xE2, CHR 0x86, CHR 0x92]"

definition BULLET :: string where
  "BULLET = [CHR 0xE2, CHR 0x80, CHR 0xA2]"

text \<open>Two worlds that agree on everything but the disk and the logs.\<close>

definition meta_eq :: "world \<Rightarrow> world \<Rightarrow> bool" where
  "meta_eq w w' = (undo_file w' = undo_file w \<and> users_file w' = users_file w \<and>
                   current_user w' = current_user w \<and> clock w' = clock w \<and> tz w' = tz w \<and>
                   data_dir w' = data_dir w)"

subsection \<open>Lemmas\<close>

lemma on_disk_simps [simp]:
  "f (disk w) = (r, d) \<Longrightarrow> on_disk f w = (r, w\<lparr>disk := d\<rparr>)"
  by (simp add: on_disk_def)

lemma create_log_disk [simp]: "disk (create_log u m w) = disk w"
  and create_log_undo [simp]: "undo_file (create_log u m w) = undo_file w"
  and create_log_users [simp]: "users_file (create_log u m w) = users_file w"
  and create_log_user [simp]: "current_user (create_log u m w) = current_user w"
  and create_log_clock [simp]: "clock (create_log u m w) = clock w"
  and create_log_tz [simp]: "tz (create_log u m w) = tz w"
  and create_log_data_dir [simp]: "data_dir (create_log u m w) = data_dir w"
  by (simp_all add: create_log_def)

lemma create_log_appends:
  "\<exists>s. logs (create_log u m w) u = Some s \<and>
       (case logs w u of None \<Rightarrow> True | Some old \<Rightarrow> prefix old s)"
  by (auto simp: create_log_def split: option.splits)

lemma create_log_other [simp]: "v \<noteq> u \<Longrightarrow> logs (create_log u m w) v = logs w v"
  by (simp add: create_log_def)

lemma meta_eq_disk [simp]: "meta_eq w (w'\<lparr>disk := d\<rparr>) = meta_eq w w'"
  and meta_eq_log [simp]: "meta_eq w (create_log u msg w') = meta_eq w w'"
  and meta_eq_refl [simp]: "meta_eq w w"
  by (simp_all add: meta_eq_def)

end
