(* ===== verification/Organizer.thy ===== *)
theory Organizer
  imports Classifier Naming AppState
begin

text \<open>
  The organize path of \<open>src/organizer.py\<close>: \<open>backup_folder\<close>, and
  \<open>start_organization\<close> with the body of its worker thread
  \<open>organize_files_thread\<close> (skip-list parsing, backup, the loop over the
  top-level entries, the undo-log write, the results message or the exception it caught).
  The worker runs to completion before any other handler (the application
  has a single mutating actor), so it is one function of the world.
  \<open>os.listdir\<close> is called twice on the folder, once by the backup and once by
  the loop; each listing is an argument.
\<close>

subsection \<open>Backup\<close>

fun backup_items :: "path \<Rightarrow> path \<Rightarrow> name list \<Rightarrow> world \<Rightarrow> unit run" where
  "backup_items folder_path backup_dir [] w = (Inr (), w)"
| "backup_items folder_path backup_dir (item # items) w =
     (let src_path = folder_path @ [item] in
      if isfile (disk w) src_path then
        ebind (on_disk (copy2 (clock w) src_path backup_dir) w)
              (\<lambda>_ w'. backup_items folder_path backup_dir items w')
      else backup_items folder_path backup_dir items w)"

definition backup_dir_of :: "string \<Rightarrow> world \<Rightarrow> path" where
  "backup_dir_of username w = data_dir w @ [''backups'', username, backup_stamp (tz w) (clock w)]"

definition backup_folder :: "string \<Rightarrow> path \<Rightarrow> name list \<Rightarrow> world \<Rightarrow> path run" where
  "backup_folder username folder_path listing w =
     (let backup_dir = backup_dir_of username w in
      ebind (on_disk (makedirs backup_dir) w) (\<lambda>_ w1.
      ebind (on_disk (\<lambda>d. (listdir d folder_path listing, d)) w1) (\<lambda>items w2.
      ebind (backup_items folder_path backup_dir items w2) (\<lambda>_ w3.
      (Inr backup_dir, w3)))))"

subsection \<open>The organize loop\<close>

text \<open>\<open>summary[category] = summary.get(category, 0) + 1\<close> on a dict that keeps
  insertion order.\<close>

fun dict_incr :: "string \<Rightarrow> (string \<times> nat) list \<Rightarrow> (string \<times> nat) list" where
  "dict_incr k [] = [(k, 1)]"
| "dict_incr k ((k', v) # rest) =
     (if k = k' then (k', Suc v) # rest else (k', v) # dict_incr k rest)"

text \<open>
  One pass of the \<open>for item in os.listdir(folder_path)\<close> loop. The result is
  \<open>None\<close> when the duplicate-name loop does not return; otherwise the outcome
  with the moved files and the summary so far, or the exception that ended the
  run with the world as the exception left it.
\<close>

type_synonym moves = "(path \<times> path) list"
type_synonym summary = "(string \<times> nat) list"

definition category_folder_of :: "path \<Rightarrow> string \<Rightarrow> string \<Rightarrow> string \<Rightarrow> string \<Rightarrow> path" where
  "category_folder_of folder_path category year_folder month_folder size_group =
     folder_path @ [category, year_folder, month_folder, size_group]"

fun organize_loop ::
  "string \<Rightarrow> path \<Rightarrow> string list \<Rightarrow> name list \<Rightarrow> moves \<Rightarrow> summary \<Rightarrow> world \<Rightarrow>
   (moves \<times> summary) run option" where
  "organize_loop user folder_path skip_exts [] moved summary w = Some (Inr (moved, summary), w)"
| "organize_loop user folder_path skip_exts (item # items) moved summary w =
     (let item_path = folder_path @ [item] in
      if \<not> isfile (disk w) item_path then organize_loop user folder_path skip_exts items moved summary w
      else
        let ext = snd (splitext item) in
        if py_lower ext \<in> set skip_exts then organize_loop user folder_path skip_exts items moved summary w
        else
          let category = get_category ext;
              f = the (disk w item_path);
              size_group = get_size_group (length (fdata f))
          in case fromtimestamp (tz w) (fctime f) of
               Inl e \<Rightarrow> Some (Inl e, w)
             | Inr (year, month, _) \<Rightarrow>
                 let year_folder = int_str year; month_folder = pad2i month;
                     category_folder = category_folder_of folder_path category year_folder month_folder size_group
                 in case on_disk (makedirs category_folder) w of
                      (Inl e, w1) \<Rightarrow> Some (Inl e, w1)
                    | (Inr _, w1) \<Rightarrow>
                        let (base, extension) = splitext item in
                        case find_free (disk w1) category_folder base extension 1 (category_folder @ [item]) of
                          None \<Rightarrow> None
                        | Some new_path \<Rightarrow>
                            (case on_disk (shutil_move item_path new_path) w1 of
                               (Inl e, w2) \<Rightarrow> Some (Inl e, w2)
                             | (Inr _, w2) \<Rightarrow>
                                 let moved' = moved @ [(new_path, folder_path)];
                                     summary' = dict_incr category summary;
                                     w3 = create_log user
                                            (''Moved: '' @ item @ '' '' @ ARROW @ '' '' @ category @ ''/'' @
                                             year_folder @ ''/'' @ month_folder @ ''/'' @ size_group) w2
                                 in organize_loop user folder_path skip_exts items moved' summary' w3))"

subsection \<open>The worker thread\<close>

text \<open>\<open>[s.strip().lower() for s in skip_text.split(",")] if skip_text else []\<close>,
  after \<open>skip_text = self.skip_entry.get().strip()\<close>.\<close>

definition parse_skip :: "string \<Rightarrow> string list" where
  "parse_skip entry =
     (let skip_text = py_strip entry in
      if skip_text = [] then [] else map (\<lambda>s. py_lower (py_strip s)) (py_split CHR '','' skip_text))"

text \<open>\<open>show_organization_results(summary, backup_path)\<close>; the backup path is
  shown as the code builds it, relative to the working directory.\<close>

definition backup_path_str :: "string \<Rightarrow> world \<Rightarrow> string" where
  "backup_path_str username w = ''data/backups/'' @ username @ ''/'' @ backup_stamp (tz w) (clock w)"

definition show_organization_results :: "summary \<Rightarrow> string \<Rightarrow> message" where
  "show_organization_results summary backup_path =
     (if summary = [] then Info ''Info'' ''No files were organized.''
      else Info ''Success''
             (''Organization Summary:\<newline>\<newline>'' @
              concat (map (\<lambda>(category, count). BULLET @ '' '' @ category @ '': '' @ nat_str count @ '' file(s)\<newline>'') summary) @
              ''\<newline>Backup created at:\<newline>'' @ backup_path))"

text \<open>
  \<open>organize_files_thread(folder_path)\<close> for the logged-in \<open>user\<close>. Its
  outcome is the results message it schedules (\<open>Inr\<close>), or the exception its
  \<open>except\<close> clause catches (\<open>Inl\<close>): the clause schedules
  \<open>lambda: messagebox.showerror(..., str(e))\<close>, but Python deletes \<open>e\<close> when
  the clause ends, so that callback never shows a message (\<open>Screens\<close> models
  what Tkinter does with it). Moves done before the exception stay done, and
  the undo log is written only after the loop has finished with at least one
  move.
\<close>

type_synonym worker_outcome = "os_error + message"

definition organize_files_thread ::
  "string \<Rightarrow> string \<Rightarrow> path \<Rightarrow> name list \<Rightarrow> name list \<Rightarrow> world \<Rightarrow> (world \<times> worker_outcome) option" where
  "organize_files_thread user skip_entry folder_path listing_b listing_o w =
     (let skip_exts = parse_skip skip_entry in
      case backup_folder user folder_path listing_b w of
        (Inl e, w1) \<Rightarrow> Some (w1, Inl e)
      | (Inr backup_path, w1) \<Rightarrow>
          (case listdir (disk w1) folder_path listing_o of
             Inl e \<Rightarrow> Some (w1, Inl e)
           | Inr items \<Rightarrow>
               (case organize_loop user folder_path skip_exts items [] [] w1 of
                  None \<Rightarrow> None
                | Some (Inl e, w2) \<Rightarrow> Some (w2, Inl e)
                | Some (Inr (moved_files, summary), w2) \<Rightarrow>
                    let w3 = (if moved_files \<noteq> []
                              then w2\<lparr>undo_file := Some \<lparr>undo_user = user, undo_files = moved_files\<rparr>\<rparr>
                              else w2)
                    in Some (w3, Inr (show_organization_results summary (backup_path_str user w3))))))"

text \<open>\<open>start_organization\<close>: the two guards (their messages are shown at
  once), then the worker; with no user logged in, the worker's
  \<open>backup_folder(None, ...)\<close> raises \<open>TypeError\<close> in \<open>os.path.join\<close>.\<close>

definition start_organization ::
  "string \<Rightarrow> path option \<Rightarrow> name list \<Rightarrow> name list \<Rightarrow> world \<Rightarrow> (world \<times> worker_outcome) option" where
  "start_organization skip_entry folder listing_b listing_o w =
     (case folder of
        None \<Rightarrow> Some (w, Inr (Error ''Error'' ''Please select a folder!''))
      | Some folder_path \<Rightarrow>
          if \<not> path_exists (disk w) folder_path then Some (w, Inr (Error ''Error'' ''Folder path does not exist!''))
          else case current_user w of
                 None \<Rightarrow> Some (w, Inl (TypeError ''join() argument must be str''))
               | Some user \<Rightarrow> organize_files_thread user skip_entry folder_path listing_b listing_o w)"

text \<open>A world to run the handlers on: user \<open>alice\<close>, a folder \<open>d\<close> holding one
  photo created on 2024-03-09 (UTC).\<close>

definition demo_world :: world where
  "demo_world = \<lparr>disk = [[] \<mapsto> Dir, [''d''] \<mapsto> Dir, [''d'', ''photo.jpg''] \<mapsto> File ''abc'' 1710000000 1710000000],
     users_file = Some [''alice'' \<mapsto> ''pw''], undo_file = None, logs = Map.empty,
     current_user = Some ''alice'', clock = 1710000000, tz = 0, data_dir = [''data'']\<rparr>"

text \<open>The moves an organize run records in the undo log: distinct paths,
  each a file five levels below the organized folder (category, year, month,
  size group, name), each with the organized folder as its origin.\<close>

definition moved_ok :: "path \<Rightarrow> fs \<Rightarrow> moves \<Rightarrow> bool" where
  "moved_ok F d M = (distinct (map fst M) \<and>
     (\<forall>x\<in>set M. snd x = F \<and> isfile d (fst x) \<and> prefix F (fst x) \<and> length (fst x) = length F + 5))"

text \<open>The summary dictionary read abstractly: the multiset in which each
  category occurs as often as its count, and the dictionary's invariant
  (one entry per category, no zero count).\<close>

definition dict_mset :: "summary \<Rightarrow> string multiset" where
  "dict_mset S = sum_list (map (\<lambda>(k, n). replicate_mset n k) S)"

definition dict_inv :: "summary \<Rightarrow> bool" where
  "dict_inv S = (distinct (map fst S) \<and> (\<forall>(k, n)\<in>set S. 0 < n))"

subsection \<open>Lemmas\<close>

text \<open>\<open>summary[category] = summary.get(category, 0) + 1\<close> implements
  adding one occurrence to the multiset.\<close>

lemma dict_incr_keys: "fst ` set (dict_incr k S) = insert k (fst ` set S)"
  by (induction k S rule: dict_incr.induct) auto

lemma dict_incr_refines:
  "dict_inv S \<Longrightarrow> dict_inv (dict_incr k S) \<and> dict_mset (dict_incr k S) = add_mset k (dict_mset S)"
proof (induction S)
  case Nil
  then show ?case by (simp add: dict_inv_def dict_mset_def)
next
  case (Cons kv S)
  obtain k' v where kv: "kv = (k', v)" by fastforce
  show ?case
  proof (cases "k = k'")
    case True
    then show ?thesis using Cons.prems kv by (auto simp: dict_inv_def dict_mset_def)
  next
    case False
    have "dict_inv S" using Cons.prems kv by (simp add: dict_inv_def)
    then have ih: "dict_inv (dict_incr k S)" "dict_mset (dict_incr k S) = add_mset k (dict_mset S)"
      using Cons.IH by simp_all
    have "k' \<notin> fst ` set (dict_incr k S)" using Cons.prems kv False by (auto simp: dict_inv_def dict_incr_keys)
    then show ?thesis using ih Cons.prems kv False by (auto simp: dict_inv_def dict_mset_def)
  qed
qed


lemma demo_world_wf: "wf_fs (disk demo_world)"
  by (auto simp: wf_fs_def demo_world_def append_eq_Cons_conv Cons_eq_append_conv)

text \<open>One item that is moved: the loop continues from the world after the move.\<close>

lemma organize_loop_move:
  assumes isf: "isfile (disk w) (F @ [item])"
    and noskip: "py_lower (snd (splitext item)) \<notin> set S"
    and ts: "fromtimestamp (tz w) (fctime (the (disk w (F @ [item])))) = Inr (y, m, dd)"
    and cf: "cf = category_folder_of F (get_category (snd (splitext item))) (int_str y) (pad2i m)
                   (get_size_group (length (fdata (the (disk w (F @ [item]))))))"
    and mk: "makedirs cf (disk w) = (Inr u, d1)"
    and ff: "find_free d1 cf (fst (splitext item)) (snd (splitext item)) 1 (cf @ [item]) = Some np"
  shows "organize_loop user F S (item # items) M Sm w =
         organize_loop user F S items (M @ [(np, F)]) (dict_incr (get_category (snd (splitext item))) Sm)
           (create_log user (''Moved: '' @ item @ '' '' @ ARROW @ '' '' @ get_category (snd (splitext item)) @ ''/'' @
                              int_str y @ ''/'' @ pad2i m @ ''/'' @
                              get_size_group (length (fdata (the (disk w (F @ [item])))))) 
              (w\<lparr>disk := d1(F @ [item] := None, np := d1 (F @ [item]))\<rparr>))"
proof -
  have np: "butlast np = cf \<and> d1 np = None" using ff by (rule find_free_parent)
  have d1i: "d1 (F @ [item]) = disk w (F @ [item])"
    using makedirs_keeps [OF mk] isf by (auto simp: isfile_def split: option.splits)
  have d1cf: "d1 cf = Some Dir" using mk by (rule makedirs_Inr_dir)
  have mv: "shutil_move (F @ [item]) np d1 = (Inr np, d1(F @ [item] := None, np := d1 (F @ [item])))"
    using isf np d1i d1cf by (intro shutil_move_fresh) (auto simp: isfile_def)
  obtain b e where se: "splitext item = (b, e)" by fastforce
  have omk: "on_disk (makedirs cf) w = (Inr u, w\<lparr>disk := d1\<rparr>)" by (simp add: on_disk_def mk)
  have omv: "on_disk (shutil_move (F @ [item]) np) (w\<lparr>disk := d1\<rparr>) =
               (Inr np, w\<lparr>disk := d1(F @ [item] := None, np := d1 (F @ [item]))\<rparr>)"
    by (simp add: on_disk_def mv)
  show ?thesis
    using isf noskip ts ff omk [unfolded cf] omv
    by (simp add: Let_def se cf)
qed

text \<open>Invariants of the loop: it suffices that a failed \<open>makedirs\<close> and a
  completed move keep them.\<close>

lemma organize_loop_invariant:
  assumes run: "organize_loop user F S items M Sm w = Some (r, w')"
    and start: "P M Sm w"
    and mk_step: "\<And>M Sm w cf e d1. P M Sm w \<Longrightarrow> makedirs cf (disk w) = (Inl e, d1) \<Longrightarrow>
                    P M Sm (w\<lparr>disk := d1\<rparr>)"
    and mv_step: "\<And>M Sm w c cf u d1 item np msg. P M Sm w \<Longrightarrow> isfile (disk w) (F @ [item]) \<Longrightarrow>
                    (\<exists>y mo s. cf = F @ [c, y, pad2i mo, s] \<and> 1 \<le> mo \<and> mo \<le> 12) \<Longrightarrow>
                    makedirs cf (disk w) = (Inr u, d1) \<Longrightarrow> d1 np = None \<Longrightarrow> butlast np = cf \<Longrightarrow>
                    P (M @ [(np, F)]) (dict_incr c Sm)
                      (create_log user msg (w\<lparr>disk := d1(F @ [item] := None, np := d1 (F @ [item]))\<rparr>))"
  shows "case r of Inr (M', Sm') \<Rightarrow> P M' Sm' w' | Inl _ \<Rightarrow> (\<exists>M' Sm'. P M' Sm' w')"
  using run start
proof (induction items arbitrary: M Sm w r w')
  case Nil
  then show ?case by auto
next
  case (Cons item items)
  let ?ip = "F @ [item]" and ?ext = "snd (splitext item)"
  show ?case
  proof (cases "isfile (disk w) ?ip \<and> py_lower ?ext \<notin> set S")
    case False
    then have step: "organize_loop user F S (item # items) M Sm w = organize_loop user F S items M Sm w"
      by (auto simp: Let_def)
    from Cons.prems(1) [unfolded step] show ?thesis by (rule Cons.IH) (rule Cons.prems(2))
  next
    case True
    let ?f = "the (disk w ?ip)"
    show ?thesis
    proof (cases "fromtimestamp (tz w) (fctime ?f)")
      case (Inl e)
      with True Cons.prems(1) have "r = Inl e \<and> w' = w" by (auto simp: Let_def)
      with Cons.prems(2) show ?thesis by (simp, blast)
    next
      case (Inr ymd)
      obtain y m dd where ymd: "ymd = (y, m, dd)" by (cases ymd) auto
      define cf where "cf = category_folder_of F (get_category ?ext) (int_str y) (pad2i m)
                              (get_size_group (length (fdata ?f)))"
      have "1 \<le> m \<and> m \<le> 12" using Inr ymd by (intro fromtimestamp_month) simp
      then have cfF: "\<exists>y mo s. cf = F @ [get_category ?ext, y, pad2i mo, s] \<and> 1 \<le> mo \<and> mo \<le> 12"
        by (auto simp: cf_def category_folder_of_def)
      obtain res d1 where mk: "makedirs cf (disk w) = (res, d1)" by fastforce
      have omk: "on_disk (makedirs cf) w = (res, w\<lparr>disk := d1\<rparr>)" by (simp add: on_disk_def mk)
      show ?thesis
      proof (cases res)
        case (Inl e)
        have "organize_loop user F S (item # items) M Sm w = Some (Inl e, w\<lparr>disk := d1\<rparr>)"
          using True Inr ymd omk [unfolded cf_def] Inl by (simp add: Let_def)
        with Cons.prems(1) have "r = Inl e \<and> w' = w\<lparr>disk := d1\<rparr>" by simp
        with mk_step [OF Cons.prems(2) mk [unfolded Inl]] show ?thesis by (simp, blast)
      next
        case (Inr u)
        obtain b e where se: "splitext item = (b, e)" by fastforce
        show ?thesis
        proof (cases "find_free d1 cf b e 1 (cf @ [item])")
          case None
          have "organize_loop user F S (item # items) M Sm w = None"
            using True \<open>fromtimestamp (tz w) (fctime ?f) = Inr ymd\<close> ymd omk [unfolded cf_def] Inr None se
            by (simp add: Let_def cf_def)
          with Cons.prems show ?thesis by simp
        next
          case (Some np)
          have npf: "butlast np = cf \<and> d1 np = None" using Some by (rule find_free_parent)
          have ff: "find_free d1 cf (fst (splitext item)) (snd (splitext item)) 1 (cf @ [item]) = Some np"
            using Some se by simp
          note step = organize_loop_move [OF conjunct1 [OF True] conjunct2 [OF True]
                        \<open>fromtimestamp (tz w) (fctime ?f) = Inr ymd\<close> [unfolded ymd] cf_def
                        mk [unfolded Inr] ff]
          from Cons.prems(1) [unfolded step] show ?thesis
            by (rule Cons.IH)
               (rule mv_step [OF Cons.prems(2) conjunct1 [OF True] cfF mk [unfolded Inr] conjunct2 [OF npf] conjunct1 [OF npf]])
        qed
      qed
    qed
  qed
qed



text \<open>Facts every completed move of the loop provides.\<close>

lemma loop_move_facts:
  assumes wf: "wf_fs fs" and isf: "isfile fs src" and mk: "makedirs cf fs = (Inr u, d1)"
    and np: "d1 np = None" "butlast np = cf"
  shows "wf_fs d1 \<and> isfile d1 src \<and> d1 src = fs src \<and> d1 cf = Some Dir \<and>
         wf_fs (d1(src := None, np := fs src)) \<and>
         contents (d1(src := None, np := fs src)) = contents fs"
proof -
  have wf1: "wf_fs d1" using mk wf by (rule makedirs_wf)
  have same: "d1 src = fs src"
    using makedirs_keeps [OF mk, of src] isf by (auto simp: isfile_def split: option.splits)
  have dcf: "d1 cf = Some Dir" using mk by (rule makedirs_Inr_dir)
  obtain d c m where f: "d1 src = Some (File d c m)"
    using isf same by (auto simp: isfile_def split: option.splits node.splits)
  have "wf_fs (d1(src := None, np := d1 src))"
    using wf_fs_move_fresh [OF wf1 f np(1)] np(2) dcf by simp
  moreover have "contents (d1(src := None, np := d1 src)) = contents d1"
    using wf_fs_finite [OF wf1] f np(1) by (intro contents_move_file) (auto simp: isfile_def)
  moreover have "contents d1 = contents fs"
    using makedirs_dirs_only [OF mk] by (rule contents_dirs_only)
  ultimately show ?thesis using wf1 same dcf isf by (simp add: isfile_def del: fun_upd_apply)
qed

lemma organize_loop_safe:
  assumes run: "organize_loop user F S items M Sm w = Some (r, w')" and wf: "wf_fs (disk w)"
  shows "wf_fs (disk w') \<and> contents (disk w') = contents (disk w) \<and> meta_eq w w'"
proof -
  let ?P = "\<lambda>(M::moves) (Sm::summary) v. wf_fs (disk v) \<and> contents (disk v) = contents (disk w) \<and> meta_eq w v"
  have "case r of Inr (M', Sm') \<Rightarrow> ?P M' Sm' w' | Inl _ \<Rightarrow> (\<exists>M' Sm'. ?P M' Sm' w')"
  proof (rule organize_loop_invariant [OF run, where P = ?P])
    show "?P M Sm w" using wf by simp
  next
    fix M Sm v cf e d1
    assume "?P M Sm v" and mk: "makedirs cf (disk v) = (Inl e, d1)"
    then show "?P M Sm (v\<lparr>disk := d1\<rparr>)"
      using makedirs_wf [OF mk] contents_dirs_only [OF makedirs_dirs_only [OF mk]] by simp
  next
    fix M Sm v c cf u d1 item np msg
    assume P: "?P M Sm v" and isf: "isfile (disk v) (F @ [item])"
      and mk: "makedirs cf (disk v) = (Inr u, d1)" and np: "d1 np = None" "butlast np = cf"
    show "?P (M @ [(np, F)]) (dict_incr c Sm) (create_log user msg (v\<lparr>disk := d1(F @ [item] := None, np := d1 (F @ [item]))\<rparr>))"
      using loop_move_facts [OF conjunct1 [OF P] isf mk np] P by simp
  qed
  then show ?thesis by (auto split: sum.splits)
qed

lemma organize_loop_returns:
  "wf_fs (disk w) \<Longrightarrow> organize_loop user F S items M Sm w \<noteq> None"
proof (induction items arbitrary: M Sm w)
  case Nil
  then show ?case by simp
next
  case (Cons item items)
  let ?ip = "F @ [item]" and ?ext = "snd (splitext item)"
  show ?case
  proof (cases "isfile (disk w) ?ip \<and> py_lower ?ext \<notin> set S")
    case False
    then have "organize_loop user F S (item # items) M Sm w = organize_loop user F S items M Sm w"
      by (auto simp: Let_def)
    with Cons show ?thesis by simp
  next
    case True
    let ?f = "the (disk w ?ip)"
    show ?thesis
    proof (cases "fromtimestamp (tz w) (fctime ?f)")
      case (Inl e)
      with True show ?thesis by (auto simp: Let_def)
    next
      case (Inr ymd)
      obtain y m dd where ymd: "ymd = (y, m, dd)" by (cases ymd) auto
      define cf where "cf = category_folder_of F (get_category ?ext) (int_str y) (pad2i m)
                              (get_size_group (length (fdata ?f)))"
      obtain res d1 where mk: "makedirs cf (disk w) = (res, d1)" by fastforce
      have omk: "on_disk (makedirs cf) w = (res, w\<lparr>disk := d1\<rparr>)" by (simp add: on_disk_def mk)
      show ?thesis
      proof (cases res)
        case (Inl e)
        then show ?thesis
          using True Inr ymd omk [unfolded cf_def] by (simp add: Let_def)
      next
        case (Inr u)
        have wf1: "wf_fs d1" using mk Cons.prems by (rule makedirs_wf)
        obtain b e where se: "splitext item = (b, e)" by fastforce
        obtain np where ff: "find_free d1 cf b e 1 (cf @ [item]) = Some np"
          using find_free_at [OF wf_fs_finite [OF wf1]] by blast
        have npf: "butlast np = cf \<and> d1 np = None" using ff by (rule find_free_parent)
        note facts = loop_move_facts [OF Cons.prems conjunct1 [OF True] mk [unfolded Inr]
                       conjunct2 [OF npf] conjunct1 [OF npf]]
        have step: "organize_loop user F S (item # items) M Sm w =
          organize_loop user F S items (M @ [(np, F)]) (dict_incr (get_category ?ext) Sm)
           (create_log user (''Moved: '' @ item @ '' '' @ ARROW @ '' '' @ get_category ?ext @ ''/'' @
                              int_str y @ ''/'' @ pad2i m @ ''/'' @ get_size_group (length (fdata ?f)))
              (w\<lparr>disk := d1(?ip := None, np := d1 ?ip)\<rparr>))"
          using True \<open>fromtimestamp (tz w) (fctime ?f) = Inr ymd\<close> ymd cf_def mk [unfolded Inr] ff se
          by (intro organize_loop_move) simp_all
        have wfn: "wf_fs (disk (create_log user msg (w\<lparr>disk := d1(?ip := None, np := d1 ?ip)\<rparr>)))" for msg
          using facts by simp
        show ?thesis unfolding step by (rule Cons.IH) (rule wfn)
      qed
    qed
  qed
qed

lemma moved_ok_cong:
  assumes ok: "moved_ok F d M" and keep: "\<forall>p\<in>set (map fst M). d' p = d p"
  shows "moved_ok F d' M"
proof -
  have "isfile d' (fst x) = isfile d (fst x)" if "x \<in> set M" for x
    using keep that by (simp add: isfile_def)
  then show ?thesis using ok unfolding moved_ok_def by blast
qed

lemma moved_ok_snoc:
  assumes ok: "moved_ok F d M" and keep: "\<forall>p\<in>set (map fst M). d' p = d p \<and> p \<noteq> np"
    and f: "isfile d' np" and shape: "prefix F np" "length np = length F + 5"
  shows "moved_ok F d' (M @ [(np, F)])"
proof -
  have "\<forall>p\<in>set (map fst M). d' p = d p" using keep by blast
  then have "moved_ok F d' M" using ok by (rule moved_ok_cong [rotated])
  moreover have "np \<notin> set (map fst M)" using keep by blast
  ultimately show ?thesis using f shape unfolding moved_ok_def by simp
qed

lemma moved_ok_isfile:
  "moved_ok F d M \<Longrightarrow> p \<in> set (map fst M) \<Longrightarrow> isfile d p \<and> prefix F p \<and> length p = length F + 5"
  unfolding moved_ok_def by auto

lemma moved_ok_Nil [simp]: "moved_ok F d []"
  by (simp add: moved_ok_def)

text \<open>Accounting of a completed run: the files still at the top of the folder
  and the files recorded as moved are, as a multiset of contents, the files
  that were at the top of the folder.\<close>

lemma organize_loop_accounting:
  assumes run: "organize_loop user F S items [] Sm w = Some (Inr (M, Sm'), w')"
    and wf: "wf_fs (disk w)"
  shows "top_files (disk w') F + files_at (disk w') (map fst M) = top_files (disk w) F \<and>
         moved_ok F (disk w') M \<and> wf_fs (disk w')"
proof -
  let ?T = "top_files (disk w) F"
  let ?P = "\<lambda>(M::moves) (Sm::summary) (v::world). top_files (disk v) F + files_at (disk v) (map fst M) = ?T \<and>
                             moved_ok F (disk v) M \<and> wf_fs (disk v)"
  have "case r of Inr (M', Sm') \<Rightarrow> ?P M' Sm' w' | Inl _ \<Rightarrow> (\<exists>M' Sm'. ?P M' Sm' w')"
    if run: "organize_loop user F S items [] Sm w = Some (r, w')" for r
  proof (rule organize_loop_invariant [OF run, where P = ?P])
    show "?P [] Sm w" using wf by (simp add: files_at_def)
  next
    fix M :: moves and Sm :: summary and v :: world and cf e d1
    assume P: "?P M Sm v" and mk: "makedirs cf (disk v) = (Inl e, d1)"
    have keep: "\<forall>p\<in>set (map fst M). d1 p = disk v p"
    proof
      fix p assume "p \<in> set (map fst M)"
      then have "isfile (disk v) p" using P moved_ok_isfile by blast
      then show "d1 p = disk v p" using makedirs_keeps [OF mk] isfile_exists by blast
    qed
    have "top_files d1 F = top_files (disk v) F"
      unfolding top_files_def by (rule contents_where_dirs_only [OF makedirs_dirs_only [OF mk]])
    moreover have "files_at d1 (map fst M) = files_at (disk v) (map fst M)"
      using keep by (rule files_at_cong)
    moreover have "moved_ok F d1 M"
      using conjunct1 [OF conjunct2 [OF P]] keep by (rule moved_ok_cong)
    ultimately show "?P M Sm (v\<lparr>disk := d1\<rparr>)" using P makedirs_wf [OF mk] by simp
  next
    fix M :: moves and Sm :: summary and v :: world and c0 cf u d1 item np msg
    assume P: "?P M Sm v" and isf: "isfile (disk v) (F @ [item])"
      and cfF: "\<exists>y mo s. cf = F @ [c0, y, pad2i mo, s] \<and> 1 \<le> mo \<and> mo \<le> 12"
      and mk: "makedirs cf (disk v) = (Inr u, d1)" and np: "d1 np = None" "butlast np = cf"
    let ?src = "F @ [item]"
    let ?d' = "d1(?src := None, np := d1 ?src)"
    have wfv: "wf_fs (disk v)" using P by simp
    note facts = loop_move_facts [OF wfv isf mk np]
    obtain dd c m where f: "disk v ?src = Some (File dd c m)"
      using isf by (auto simp: isfile_def split: option.splits node.splits)
    have d1src: "d1 ?src = Some (File dd c m)" using facts f by simp
    obtain y0 m0 s0 where cf: "cf = F @ [c0, y0, m0, s0]" using cfF by blast
    have npne: "np \<noteq> []" using np(2) cf by auto
    have np_eq: "np = F @ [c0, y0, m0, s0, last np]"
      using append_butlast_last_id [OF npne] np(2) cf by simp
    have shape: "prefix F np" "length np = length F + 5"
      by (rule prefixI [OF np_eq], subst np_eq, simp)
    have old: "\<forall>p\<in>set (map fst M). ?d' p = disk v p \<and> p \<noteq> np"
    proof
      fix p assume pM: "p \<in> set (map fst M)"
      have ip: "isfile (disk v) p" "length p = length F + 5"
        using moved_ok_isfile [OF _ pM] P by auto
      have same: "d1 p = disk v p" using makedirs_keeps [OF mk] isfile_exists [OF ip(1)] by blast
      have "p \<noteq> ?src" using ip(2) by auto
      moreover have "p \<noteq> np" using np(1) same isfile_exists [OF ip(1)] by auto
      ultimately show "?d' p = disk v p \<and> p \<noteq> np" using same by simp
    qed
    have top: "top_files ?d' F + {#dd#} = top_files (disk v) F"
    proof -
      have "contents_where ?d' (\<lambda>p. p \<noteq> [] \<and> butlast p = F) + {#dd#} =
            contents_where d1 (\<lambda>p. p \<noteq> [] \<and> butlast p = F)"
        using contents_where_move [OF wf_fs_finite [OF conjunct1 [OF facts]] d1src np(1),
                                   of "\<lambda>p. p \<noteq> [] \<and> butlast p = F"] np(2) cf d1src
        by simp
      moreover have "contents_where d1 (\<lambda>p. p \<noteq> [] \<and> butlast p = F) = top_files (disk v) F"
        unfolding top_files_def by (rule contents_where_dirs_only [OF makedirs_dirs_only [OF mk]])
      ultimately show ?thesis by (simp add: top_files_def)
    qed
    have fa: "files_at ?d' (map fst (M @ [(np, F)])) = files_at (disk v) (map fst M) + {#dd#}"
    proof -
      have "\<forall>p\<in>set (map fst M). ?d' p = disk v p" using old by blast
      then have "files_at ?d' (map fst M) = files_at (disk v) (map fst M)" by (rule files_at_cong)
      then show ?thesis using d1src by (simp add: files_at_def)
    qed
    have isnp: "isfile ?d' np" using d1src by (simp add: isfile_def)
    have mok: "moved_ok F ?d' (M @ [(np, F)])"
      by (rule moved_ok_snoc [OF conjunct1 [OF conjunct2 [OF P]] old isnp shape])
    have acc: "top_files ?d' F + files_at ?d' (map fst (M @ [(np, F)])) = ?T"
    proof -
      have "top_files ?d' F + files_at ?d' (map fst (M @ [(np, F)])) =
            (top_files ?d' F + {#dd#}) + files_at (disk v) (map fst M)"
        by (subst fa) (simp add: add_ac)
      also have "\<dots> = ?T" using top P by simp
      finally show ?thesis .
    qed
    show "?P (M @ [(np, F)]) (dict_incr c0 Sm) (create_log user msg (v\<lparr>disk := ?d'\<rparr>))"
      using acc mok facts f d1src by simp
  qed
  from this [OF run] show ?thesis by simp
qed

lemma backup_items_wf:
  "backup_items F bd items w = (r, w') \<Longrightarrow> wf_fs (disk w) \<Longrightarrow> wf_fs (disk w') \<and> meta_eq w w'"
proof (induction items arbitrary: w)
  case Nil
  then show ?case by simp
next
  case (Cons item items)
  show ?case
  proof (cases "isfile (disk w) (F @ [item])")
    case True
    obtain r1 d1 where c: "copy2 (clock w) (F @ [item]) bd (disk w) = (r1, d1)" by fastforce
    have wf1: "wf_fs d1" using c Cons.prems(2) by (rule copy2_wf)
    show ?thesis
    proof (cases r1)
      case (Inl e)
      with Cons.prems True c wf1 show ?thesis by (auto simp: on_disk_def)
    next
      case (Inr x)
      with Cons.prems True c have "backup_items F bd items (w\<lparr>disk := d1\<rparr>) = (r, w')"
        by (simp add: on_disk_def)
      with Cons.IH wf1 show ?thesis by (auto simp: meta_eq_def)
    qed
  next
    case False
    with Cons show ?thesis by simp
  qed
qed

lemma backup_folder_wf:
  assumes "backup_folder u F listing w = (r, w')" and "wf_fs (disk w)"
  shows "wf_fs (disk w') \<and> meta_eq w w'"
proof -
  obtain r1 d1 where mk: "makedirs (backup_dir_of u w) (disk w) = (r1, d1)" by fastforce
  have wf1: "wf_fs d1" using mk assms(2) by (rule makedirs_wf)
  show ?thesis
  proof (cases r1)
    case (Inl e)
    with assms mk wf1 show ?thesis by (auto simp: backup_folder_def on_disk_def)
  next
    case (Inr x)
    show ?thesis
    proof (cases "listdir d1 F listing")
      case (Inl e)
      with assms mk wf1 Inr show ?thesis by (auto simp: backup_folder_def on_disk_def)
    next
      case (Inr items)
      obtain r2 w2 where b: "backup_items F (backup_dir_of u w) items (w\<lparr>disk := d1\<rparr>) = (r2, w2)"
        by fastforce
      have "wf_fs (disk w2) \<and> meta_eq (w\<lparr>disk := d1\<rparr>) w2" using backup_items_wf [OF b] wf1 by simp
      moreover have "w' = w2"
        using assms(1) mk \<open>r1 = Inr x\<close> Inr b by (cases r2) (simp_all add: backup_folder_def on_disk_def)
      ultimately show ?thesis by (simp add: meta_eq_def)
    qed
  qed
qed

lemma backup_items_outside:
  "backup_items F' bd items w = (r, w') \<Longrightarrow> disk w bd = Some Dir \<Longrightarrow> \<forall>n. \<not> Q (bd @ [n]) \<Longrightarrow>
   contents_where (disk w') Q = contents_where (disk w) Q"
proof (induction items arbitrary: w)
  case Nil
  then show ?case by simp
next
  case (Cons item items)
  show ?case
  proof (cases "isfile (disk w) (F' @ [item])")
    case True
    obtain r1 d1 where c: "copy2 (clock w) (F' @ [item]) bd (disk w) = (r1, d1)" by fastforce
    note ct = copy2_outside [OF c Cons.prems(2) Cons.prems(3)]
    show ?thesis
    proof (cases r1)
      case (Inl e)
      then show ?thesis using Cons.prems(1) True c ct by (auto simp: on_disk_def)
    next
      case (Inr x)
      then have "backup_items F' bd items (w\<lparr>disk := d1\<rparr>) = (r, w')"
        using Cons.prems(1) True c by (simp add: on_disk_def)
      then show ?thesis using Cons.IH [of "w\<lparr>disk := d1\<rparr>"] ct Cons.prems(3) by simp
    qed
  next
    case False
    then show ?thesis using Cons by simp
  qed
qed

text \<open>The backup changes no contents outside its own directory.\<close>

lemma backup_folder_outside:
  assumes b: "backup_folder u F' listing w = (r, w')" and out: "\<forall>n. \<not> Q (backup_dir_of u w @ [n])"
  shows "contents_where (disk w') Q = contents_where (disk w) Q"
proof -
  let ?bd = "backup_dir_of u w"
  obtain r1 d1 where mk: "makedirs ?bd (disk w) = (r1, d1)" by fastforce
  have t1: "contents_where d1 Q = contents_where (disk w) Q"
    by (rule contents_where_dirs_only [OF makedirs_dirs_only [OF mk]])
  show ?thesis
  proof (cases r1)
    case (Inl e)
    then show ?thesis using b mk t1 by (auto simp: backup_folder_def on_disk_def)
  next
    case (Inr x)
    have bdd: "d1 ?bd = Some Dir" using mk Inr makedirs_Inr_dir by simp
    show ?thesis
    proof (cases "listdir d1 F' listing")
      case (Inl e)
      then show ?thesis using b mk t1 Inr by (auto simp: backup_folder_def on_disk_def)
    next
      case (Inr items)
      obtain r2 w2 where bi: "backup_items F' ?bd items (w\<lparr>disk := d1\<rparr>) = (r2, w2)" by fastforce
      have "contents_where (disk w2) Q = contents_where d1 Q"
        using backup_items_outside [OF bi] bdd out by simp
      moreover have "w' = w2"
        using b mk \<open>r1 = Inr x\<close> Inr bi by (cases r2) (simp_all add: backup_folder_def on_disk_def)
      ultimately show ?thesis using t1 by simp
    qed
  qed
qed

lemma backup_folder_top:
  assumes b: "backup_folder u F' listing w = (r, w')" and ne: "backup_dir_of u w \<noteq> F"
  shows "top_files (disk w') F = top_files (disk w) F"
  unfolding top_files_def by (rule backup_folder_outside [OF b]) (use ne in simp)

text \<open>The backup of one listing into a directory holding none of its names
  copies every regular file of the listing.\<close>

lemma backup_items_copies:
  assumes "backup_items F bd items w = (r, w')" and "wf_fs (disk w)" and "disk w bd = Some Dir"
    and "bd \<noteq> F" and "distinct items" and "\<forall>n\<in>set items. disk w (bd @ [n]) = None"
  shows "r = Inr () \<and> wf_fs (disk w') \<and>
         top_files (disk w') bd = top_files (disk w) bd + contents_where (disk w) (\<lambda>p. p \<in> (\<lambda>n. F @ [n]) ` set items)"
  using assms
proof (induction items arbitrary: w)
  case Nil
  then show ?case by (simp add: contents_where_def file_paths_def)
next
  case (Cons item items)
  let ?src = "F @ [item]" and ?d = "bd @ [item]"
  let ?R = "\<lambda>p. p \<in> (\<lambda>n. F @ [n]) ` set items"
  have fin: "finite (dom (disk w))" using Cons.prems(2) by (rule wf_fs_finite)
  have rest: "\<forall>n\<in>set items. disk w (bd @ [n]) = None" "distinct items" using Cons.prems(5,6) by simp_all
  show ?case
  proof (cases "isfile (disk w) ?src")
    case True
    obtain data c m where f: "disk w ?src = Some (File data c m)"
      using True by (auto simp: isfile_def split: option.splits node.splits)
    have dn: "disk w ?d = None" using Cons.prems(6) by simp
    have ne: "?src \<noteq> ?d" using Cons.prems(4) by simp
    let ?d' = "(disk w)(?d \<mapsto> File data (clock w) m)"
    have cp: "copy2 (clock w) ?src bd (disk w) = (Inr ?d, ?d')"
      using f dn ne Cons.prems(3) by (simp add: copy2_def isdir_def Let_def)
    have run: "backup_items F bd items (w\<lparr>disk := ?d'\<rparr>) = (r, w')"
      using Cons.prems(1) True cp by (simp add: on_disk_def)
    have wf': "wf_fs (disk (w\<lparr>disk := ?d'\<rparr>))" using copy2_wf [OF cp Cons.prems(2)] by simp
    have ih: "r = Inr () \<and> wf_fs (disk w') \<and> top_files (disk w') bd = top_files ?d' bd + contents_where ?d' ?R"
    proof -
      have b1: "\<forall>n\<in>set items. disk (w\<lparr>disk := ?d'\<rparr>) (bd @ [n]) = None"
        using rest Cons.prems(5) by auto
      have b2: "disk (w\<lparr>disk := ?d'\<rparr>) bd = Some Dir" using Cons.prems(3) by simp
      from Cons.IH [OF run wf' b2 Cons.prems(4) rest(2) b1] show ?thesis by (simp add: fun_upd_def)
    qed
    have t: "top_files ?d' bd = top_files (disk w) bd + {#data#}"
      using contents_where_put [OF fin dn] by (simp add: top_files_def)
    have "\<not> ?R ?d" using Cons.prems(4) by auto
    then have c: "contents_where ?d' ?R = contents_where (disk w) ?R"
      by (simp add: contents_where_upd_outside)
    have "\<not> ?R ?src" using Cons.prems(5) by auto
    then have s: "contents_where (disk w) (\<lambda>p. p \<in> (\<lambda>n. F @ [n]) ` set (item # items)) =
                  contents_where (disk w) ?R + {#data#}"
      using contents_where_insert [OF fin f, of ?R] by simp
    show ?thesis using ih t c s by (simp add: add_ac)
  next
    case False
    have run: "backup_items F bd items w = (r, w')" using Cons.prems(1) False by simp
    have s: "contents_where (disk w) (\<lambda>p. p \<in> (\<lambda>n. F @ [n]) ` set (item # items)) = contents_where (disk w) ?R"
      using False by (intro contents_where_cong_files) auto
    show ?thesis using Cons.IH [OF run Cons.prems(2,3,4)] rest s by simp
  qed
qed

text \<open>The outcomes of the worker: it stops after the backup, or it runs the loop.\<close>

lemma organize_files_thread_shape:
  assumes run: "organize_files_thread user skip F lb lo w = Some (w2, m)"
  obtains r1 w1 where "backup_folder user F lb w = (r1, w1)" "w2 = w1"
  | r1 w1 items r v where "backup_folder user F lb w = (r1, w1)"
      "organize_loop user F (parse_skip skip) items [] [] w1 = Some (r, v)"
      "disk w2 = disk v" "users_file w2 = users_file v" "current_user w2 = current_user v"
proof -
  obtain r1 w1 where b: "backup_folder user F lb w = (r1, w1)" by fastforce
  show ?thesis
  proof (cases "\<exists>bp items. r1 = Inr bp \<and> listdir (disk w1) F lo = Inr items")
    case False
    then have "w2 = w1" using run b
      by (cases r1; cases "listdir (disk w1) F lo") (auto simp: organize_files_thread_def)
    then show ?thesis using that(1) b by blast
  next
    case True
    then obtain bp items where r1: "r1 = Inr bp" and ld: "listdir (disk w1) F lo = Inr items" by blast
    obtain res where lp: "organize_loop user F (parse_skip skip) items [] [] w1 = Some res"
      using run b r1 ld by (auto simp: organize_files_thread_def split: option.splits)
    obtain x v where res: "res = (x, v)" by fastforce
    have "disk w2 = disk v \<and> users_file w2 = users_file v \<and> current_user w2 = current_user v"
      using run b r1 ld lp res by (auto simp: organize_files_thread_def Let_def split: sum.splits prod.splits)
    then show ?thesis using that(2) b lp res by blast
  qed
qed

lemma organize_files_thread_Info:
  assumes "organize_files_thread user skip F lb lo w = Some (w2, Inr (Info t s))"
  obtains bp w1 items M Sm v where "backup_folder user F lb w = (Inr bp, w1)"
    "organize_loop user F (parse_skip skip) items [] [] w1 = Some (Inr (M, Sm), v)"
    "w2 = (if M \<noteq> [] then v\<lparr>undo_file := Some \<lparr>undo_user = user, undo_files = M\<rparr>\<rparr> else v)"
proof -
  obtain r1 w1 where b: "backup_folder user F lb w = (r1, w1)" by fastforce
  show ?thesis
  proof (cases r1)
    case (Inl e)
    then show ?thesis using assms b by (simp add: organize_files_thread_def)
  next
    case (Inr bp)
    show ?thesis
    proof (cases "listdir (disk w1) F lo")
      case (Inl e)
      then show ?thesis using assms b \<open>r1 = Inr bp\<close> by (simp add: organize_files_thread_def)
    next
      case (Inr items)
      obtain res where lp: "organize_loop user F (parse_skip skip) items [] [] w1 = res" by blast
      show ?thesis
      proof (cases res)
        case None
        then show ?thesis using assms b \<open>r1 = Inr bp\<close> Inr lp by (simp add: organize_files_thread_def)
      next
        case (Some a)
        obtain x v where a: "a = (x, v)" by fastforce
        show ?thesis
        proof (cases x)
          case (Inl e)
          then show ?thesis using assms b \<open>r1 = Inr bp\<close> Inr lp Some a
            by (simp add: organize_files_thread_def)
        next
          case (Inr MS)
          obtain M Sm where "MS = (M, Sm)" by fastforce
          then show ?thesis using that assms b \<open>r1 = Inr bp\<close> \<open>listdir (disk w1) F lo = Inr items\<close> lp Some a Inr
            by (auto simp: organize_files_thread_def Let_def show_organization_results_def)
        qed
      qed
    qed
  qed
qed

subsection \<open>Properties\<close>

text \<open>
  (C9) On a well-formed disk the worker thread always finishes: the backup, the
  loop over the listing and every duplicate-name loop in it return, whatever
  the listing and the skip list are.
\<close>

theorem organize_files_thread_returns:
  assumes "wf_fs (disk w)"
  shows "\<exists>r. organize_files_thread user skip folder listing_b listing_o w = Some r"
proof -
  obtain r1 w1 where b: "backup_folder user folder listing_b w = (r1, w1)" by fastforce
  have wf1: "wf_fs (disk w1)" using backup_folder_wf [OF b assms] by simp
  show ?thesis
  proof (cases r1)
    case (Inl e)
    with b show ?thesis by (simp add: organize_files_thread_def)
  next
    case (Inr bp)
    show ?thesis
    proof (cases "listdir (disk w1) folder listing_o")
      case (Inl e)
      with b \<open>r1 = Inr bp\<close> show ?thesis by (simp add: organize_files_thread_def)
    next
      case (Inr items)
      obtain res where "organize_loop user folder (parse_skip skip) items [] [] w1 = Some res"
        using organize_loop_returns [OF wf1] by blast
      with b \<open>r1 = Inr bp\<close> Inr show ?thesis
        by (auto simp: organize_files_thread_def Let_def split: sum.splits prod.splits)
    qed
  qed
qed

theorem organize_files_thread_returns_witness:
  "wf_fs (disk demo_world) \<and>
   (\<exists>r. organize_files_thread ''alice'' [] [''d''] [''photo.jpg''] [''photo.jpg''] demo_world = Some r)"
  using organize_files_thread_returns [of demo_world] demo_world_wf by simp

text \<open>
  (C12) The summary a completed run shows is exact: it has one entry per
  category with a positive count, and each category occurs as often as the
  run recorded a move into that category's folder.
\<close>

theorem organize_loop_summary:
  assumes run: "organize_loop user F S items [] [] w = Some (Inr (M, Sm), w')"
  shows "dict_inv Sm \<and> dict_mset Sm = image_mset (\<lambda>x. fst x ! length F) (mset M)"
proof -
  let ?P = "\<lambda>(M::moves) (Sm::summary) (v::world). dict_inv Sm \<and> dict_mset Sm = image_mset (\<lambda>x. fst x ! length F) (mset M)"
  have "case r of Inr (M', Sm') \<Rightarrow> ?P M' Sm' w' | Inl _ \<Rightarrow> (\<exists>M' Sm'. ?P M' Sm' w')"
    if run: "organize_loop user F S items [] [] w = Some (r, w')" for r
  proof (rule organize_loop_invariant [OF run, where P = ?P])
    show "?P [] [] w" by (simp add: dict_inv_def dict_mset_def)
  next
    fix M Sm v cf e d1
    assume "?P M Sm v"
    then show "?P M Sm (v\<lparr>disk := d1\<rparr>)" by simp
  next
    fix M :: moves and Sm :: summary and v :: world and c cf u d1 item np msg
    assume P: "?P M Sm v" and cf: "\<exists>y mo s. cf = F @ [c, y, pad2i mo, s] \<and> 1 \<le> mo \<and> mo \<le> 12"
      and np: "butlast np = cf"
    have "np ! length F = c"
    proof -
      obtain y m s where cfe: "cf = F @ [c, y, m, s]" using cf by blast
      have "np \<noteq> []" using np cfe by auto
      then have "np = F @ c # [y, m, s, last np]" using np cfe by (metis append_butlast_last_id append.assoc append_Cons append_Nil)
      then show ?thesis by (metis nth_append_length)
    qed
    then show "?P (M @ [(np, F)]) (dict_incr c Sm) (create_log user msg (v\<lparr>disk := d1(F @ [item] := None, np := d1 (F @ [item]))\<rparr>))"
      using dict_incr_refines [of Sm c] P by simp
  qed
  from this [OF run] show ?thesis by simp
qed


text \<open>
  (C10) The worker never loses a file: whatever the outcome, exceptions
  included, every file content on the disk before the run is still on the
  disk after it (the backup adds copies in its fresh directory, the loop only
  moves files), and the disk stays well formed.
\<close>

theorem organize_files_thread_no_loss:
  assumes run: "organize_files_thread user skip F lb lo w = Some (w2, m)"
    and wf: "wf_fs (disk w)" and fresh: "disk w (backup_dir_of user w) = None"
  shows "contents (disk w) \<subseteq># contents (disk w2) \<and> wf_fs (disk w2)"
proof -
  let ?Q = "\<lambda>p. \<not> prefix (backup_dir_of user w) p"
  have out: "\<forall>n. \<not> ?Q (backup_dir_of user w @ [n])" by simp
  have c0: "contents_where (disk w) ?Q = contents (disk w)"
    using wf_fs_no_below [OF wf fresh] by (intro contents_where_all) (auto simp: isfile_def)
  have step: "contents (disk w) \<subseteq># contents (disk w1) \<and> wf_fs (disk w1)"
    if b: "backup_folder user F lb w = (r1, w1)" for r1 w1
  proof -
    have wf1: "wf_fs (disk w1)" using backup_folder_wf [OF b wf] by simp
    have "contents (disk w) = contents_where (disk w1) ?Q"
      using backup_folder_outside [OF b out] c0 by simp
    also have "\<dots> \<subseteq># contents (disk w1)" by (rule contents_where_le [OF wf_fs_finite [OF wf1]])
    finally show ?thesis using wf1 by simp
  qed
  from run show ?thesis
  proof (cases rule: organize_files_thread_shape)
    case (1 r1 w1)
    then show ?thesis using step by simp
  next
    case (2 r1 w1 items r v)
    have "wf_fs (disk v) \<and> contents (disk v) = contents (disk w1)"
      using organize_loop_safe [OF 2(2)] step [OF 2(1)] by simp
    then show ?thesis using step [OF 2(1)] 2(3) by simp
  qed
qed


text \<open>
  (C11) The backup copies the folder: given a real listing of the folder and a
  backup directory that does not exist yet and can be created (no file on its
  path), \<open>backup_folder\<close> returns the backup directory, the files directly
  in it are, as a multiset of contents, the files at the top of the folder,
  and the folder itself is unchanged.
\<close>

theorem backup_folder_snapshot:
  assumes wf: "wf_fs (disk w)" and dir: "isdir (disk w) F" and ls: "is_listing (disk w) F items"
    and fresh: "disk w (backup_dir_of user w) = None"
    and nf: "\<forall>q. prefix q (backup_dir_of user w) \<longrightarrow> \<not> isfile (disk w) q"
  shows "\<exists>w'. backup_folder user F items w = (Inr (backup_dir_of user w), w') \<and>
              top_files (disk w') (backup_dir_of user w) = top_files (disk w) F \<and>
              top_files (disk w') F = top_files (disk w) F"
proof -
  let ?bd = "backup_dir_of user w"
  obtain d1 where mk: "makedirs ?bd (disk w) = (Inr (), d1)" and wf1: "wf_fs d1"
    and bdD: "\<forall>q. prefix q ?bd \<longrightarrow> d1 q = Some Dir" and keep: "\<forall>q. disk w q \<noteq> None \<longrightarrow> d1 q = disk w q"
    by (rule makedirs_success [OF wf nf])
  have same: "contents_where d1 Q = contents_where (disk w) Q" for Q
    by (rule contents_where_dirs_only [OF makedirs_dirs_only [OF mk]])
  have ne: "?bd \<noteq> F" using dir fresh by (auto simp: isdir_def)
  have Fd: "d1 F = Some Dir" using keep dir by (auto simp: isdir_def)
  have kids: "\<forall>n\<in>set items. d1 (?bd @ [n]) = None"
  proof
    fix n
    have "disk w (?bd @ [n]) = None" by (rule wf_fs_no_below [OF wf fresh]) simp
    moreover have "\<not> prefix (?bd @ [n]) ?bd" by simp
    ultimately show "d1 (?bd @ [n]) = None" using makedirs_only_prefixes [OF mk] by metis
  qed
  let ?w1 = "w\<lparr>disk := d1\<rparr>"
  obtain r w' where bi: "backup_items F ?bd items ?w1 = (r, w')" by fastforce
  have "r = Inr () \<and> wf_fs (disk w') \<and>
        top_files (disk w') ?bd = top_files d1 ?bd + contents_where d1 (\<lambda>p. p \<in> (\<lambda>n. F @ [n]) ` set items)"
    using backup_items_copies [OF bi] wf1 bdD ne ls kids by (simp add: is_listing_def)
  moreover have "top_files d1 ?bd = {#}"
  proof -
    have "top_files d1 ?bd = contents_where (disk w) (\<lambda>p. p \<noteq> [] \<and> butlast p = ?bd)"
      by (simp add: top_files_def same)
    also have "\<dots> = contents_where (disk w) (\<lambda>p. prefix ?bd p)"
    proof (rule contents_where_cong_files, intro allI impI)
      fix p assume "isfile (disk w) p"
      then have "\<not> prefix ?bd p" using wf_fs_no_below [OF wf fresh, of p] by (auto simp: isfile_def)
      then show "(p \<noteq> [] \<and> butlast p = ?bd) \<longleftrightarrow> prefix ?bd p" using prefix_butlast_self [of p] by auto
    qed
    finally show ?thesis using no_files_below [OF wf fresh] by simp
  qed
  moreover have "contents_where d1 (\<lambda>p. p \<in> (\<lambda>n. F @ [n]) ` set items) = top_files (disk w) F"
  proof -
    have "contents_where (disk w) (\<lambda>p. p \<in> (\<lambda>n. F @ [n]) ` set items) = top_files (disk w) F"
      unfolding top_files_def
    proof (rule contents_where_cong_files, intro allI impI)
      fix p assume f: "isfile (disk w) p"
      show "p \<in> (\<lambda>n. F @ [n]) ` set items \<longleftrightarrow> p \<noteq> [] \<and> butlast p = F"
      proof
        assume "p \<noteq> [] \<and> butlast p = F"
        then have "p = F @ [last p]" by (metis append_butlast_last_id)
        moreover have "disk w p \<noteq> None" using f by (auto simp: isfile_def split: option.splits)
        ultimately show "p \<in> (\<lambda>n. F @ [n]) ` set items" using ls unfolding is_listing_def by (metis imageI)
      qed auto
    qed
    then show ?thesis by (simp add: same)
  qed
  ultimately have r: "r = Inr ()" and
    snap: "top_files (disk w') ?bd = top_files (disk w) F" by simp_all
  have b: "backup_folder user F items w = (Inr ?bd, w')"
    using mk Fd bi r by (simp add: backup_folder_def on_disk_def listdir_def Let_def)
  moreover have "top_files (disk w') F = top_files (disk w) F"
    by (rule backup_folder_top [OF b ne])
  ultimately show ?thesis using snap by blast
qed

end
