(* ===== verification/Undo.thy ===== *)
theory Undo
  imports Organizer
begin

text \<open>
  \<open>undo_operation\<close> of \<open>src/organizer.py\<close> (lines 368--403): read the one
  undo entry, refuse it unless it belongs to the logged-in user, ask for
  confirmation, then move every recorded file that still exists back into its
  original folder, under the first free name of the duplicate-name sequence,
  log each restore, and delete the entry. An exception inside the loop is
  caught and shown; the files restored before it stay restored and the entry
  is kept. The answer of \<open>askyesno\<close> is the argument \<open>confirm\<close>; the
  result is the world and the message shown, if any (\<open>None\<close> when the user
  declines).
\<close>

text \<open>\<open>os.path.basename\<close> of a path given as its components.\<close>

definition basename :: "path \<Rightarrow> name" where
  "basename p = (if p = [] then [] else last p)"

fun undo_loop :: "string \<Rightarrow> (path \<times> path) list \<Rightarrow> nat \<Rightarrow> world \<Rightarrow> nat run option" where
  "undo_loop user [] restored_count w = Some (Inr restored_count, w)"
| "undo_loop user ((new_path, original_folder) # rest) restored_count w =
     (if path_exists (disk w) new_path then
        let filename = basename new_path;
            original_path = original_folder @ [filename];
            (base, ext) = splitext filename
        in case find_free (disk w) original_folder base ext 1 original_path of
             None \<Rightarrow> None
           | Some original_path' \<Rightarrow>
               (case on_disk (shutil_move new_path original_path') w of
                  (Inl e, w') \<Rightarrow> Some (Inl e, w')
                | (Inr _, w') \<Rightarrow>
                    undo_loop user rest (Suc restored_count)
                      (create_log user (''Restored: '' @ filename) w'))
      else undo_loop user rest restored_count w)"

definition undo_operation :: "bool \<Rightarrow> world \<Rightarrow> (world \<times> message option) option" where
  "undo_operation confirm w =
     (case undo_file w of
        None \<Rightarrow> Some (w, Some (Error ''Error'' ''No undo history found!''))
      | Some data \<Rightarrow>
          if Some (undo_user data) \<noteq> current_user w
          then Some (w, Some (Error ''Error'' ''You can only undo your own last operation!''))
          else if \<not> confirm then Some (w, None)
          else (case undo_loop (undo_user data) (undo_files data) 0 w of
                  None \<Rightarrow> None
                | Some (Inl e, w') \<Rightarrow> Some (w', Some (ErrorExc ''Error'' ''Undo failed: '' e))
                | Some (Inr restored_count, w') \<Rightarrow>
                    Some (w'\<lparr>undo_file := None\<rparr>,
                          Some (Info ''Success'' (''Undo complete! Restored '' @ nat_str restored_count @ '' files.'')))))"

text \<open>A world whose undo entry records one photo organized out of \<open>d\<close>.\<close>

definition undo_demo :: world where
  "undo_demo = demo_world\<lparr>
     disk := [[] \<mapsto> Dir, [''d''] \<mapsto> Dir, [''d'', ''Images''] \<mapsto> Dir,
              [''d'', ''Images'', ''2024''] \<mapsto> Dir, [''d'', ''Images'', ''2024'', ''03''] \<mapsto> Dir,
              [''d'', ''Images'', ''2024'', ''03'', ''Small''] \<mapsto> Dir,
              [''d'', ''Images'', ''2024'', ''03'', ''Small'', ''photo.jpg''] \<mapsto> File ''abc'' 1710000000 1710000000],
     undo_file := Some \<lparr>undo_user = ''alice'',
                         undo_files = [([''d'', ''Images'', ''2024'', ''03'', ''Small'', ''photo.jpg''], [''d''])]\<rparr>\<rparr>"

text \<open>The same entry after the folder \<open>d\<close> has been deleted: the restore
  fails.\<close>

definition undo_gone :: world where
  "undo_gone = undo_demo\<lparr>disk := [[] \<mapsto> Dir, [''x''] \<mapsto> Dir, [''x'', ''f.txt''] \<mapsto> File ''abc'' 0 0],
     undo_file := Some \<lparr>undo_user = ''alice'', undo_files = [([''x'', ''f.txt''], [''gone''])]\<rparr>\<rparr>"

subsection \<open>Lemmas\<close>

lemma undo_loop_restores:
  assumes "moved_ok F (disk v) L" and "wf_fs (disk v)"
  shows "\<exists>n u. undo_loop user L k v = Some (Inr n, u) \<and> wf_fs (disk u) \<and>
           top_files (disk u) F = top_files (disk v) F + files_at (disk v) (map fst L)"
  using assms
proof (induction L arbitrary: k v)
  case Nil
  then show ?case by (simp add: files_at_def)
next
  case (Cons x rest)
  obtain np f where x: "x = (np, f)" by fastforce
  have ok: "moved_ok F (disk v) ((np, f) # rest)" using Cons.prems(1) x by simp
  have fF: "f = F" and isf: "isfile (disk v) np" and pre: "prefix F np" and len: "length np = length F + 5"
    using ok by (auto simp: moved_ok_def)
  have wf: "wf_fs (disk v)" by (rule Cons.prems(2))
  obtain dd c m where npf: "disk v np = Some (File dd c m)"
    using isf by (auto simp: isfile_def split: option.splits node.splits)
  obtain b e where se: "splitext (basename np) = (b, e)" by fastforce
  obtain op where ff: "find_free (disk v) F b e 1 (F @ [basename np]) = Some op"
    and opF: "butlast op = F" and opn: "disk v op = None"
    using find_free_at [OF wf_fs_finite [OF wf]] by blast
  have "F \<noteq> np" using len by auto
  then have Fdir: "disk v F = Some Dir"
    using wf_fs_ancestors [OF wf _ pre] npf by simp
  have mv: "shutil_move np op (disk v) = (Inr op, (disk v)(np := None, op := disk v np))"
    using isf opn Fdir opF by (intro shutil_move_fresh) simp_all
  let ?d' = "(disk v)(np := None, op := disk v np)"
  let ?v' = "create_log user (''Restored: '' @ basename np) (v\<lparr>disk := ?d'\<rparr>)"
  have step: "undo_loop user ((np, f) # rest) k v = undo_loop user rest (Suc k) ?v'"
    using isf ff se mv fF by (simp add: path_exists_def isfile_exists on_disk_def)
  have rest_old: "\<forall>p\<in>set (map fst rest). ?d' p = disk v p"
  proof
    fix p assume pr: "p \<in> set (map fst rest)"
    have "p \<noteq> np" using ok pr by (auto simp: moved_ok_def)
    moreover have "p \<noteq> op" using moved_ok_isfile [OF _ pr] ok opn isfile_exists
      by (fastforce simp: moved_ok_def)
    ultimately show "?d' p = disk v p" by simp
  qed
  have ok': "moved_ok F ?d' rest"
  proof -
    have "moved_ok F (disk v) rest" using ok by (simp add: moved_ok_def)
    then show ?thesis using rest_old by (rule moved_ok_cong)
  qed
  have wf': "wf_fs ?d'" using wf_fs_move_fresh [OF wf npf opn] opF Fdir by simp
  have top: "top_files ?d' F = top_files (disk v) F + {#dd#}"
  proof -
    have "op \<noteq> []" using opn wf_fs_root [OF wf] by auto
    moreover have "length (butlast np) \<noteq> length F" using len by simp
    then have "butlast np \<noteq> F" by blast
    ultimately show ?thesis
      using contents_where_move [OF wf_fs_finite [OF wf] npf opn, of "\<lambda>p. p \<noteq> [] \<and> butlast p = F"] opF npf
      by (simp add: top_files_def)
  qed
  have fa: "files_at ?d' (map fst rest) = files_at (disk v) (map fst rest)"
    using rest_old by (rule files_at_cong)
  have ok'': "moved_ok F (disk ?v') rest" and wf'': "wf_fs (disk ?v')" using ok' wf' by simp_all
  obtain n u where u: "undo_loop user rest (Suc k) ?v' = Some (Inr n, u)" "wf_fs (disk u)"
    "top_files (disk u) F = top_files ?d' F + files_at ?d' (map fst rest)"
  proof -
    have dv: "disk ?v' = ?d'" by simp
    have "\<exists>n u. undo_loop user rest (Suc k) ?v' = Some (Inr n, u) \<and> wf_fs (disk u) \<and>
            top_files (disk u) F = top_files (disk ?v') F + files_at (disk ?v') (map fst rest)"
      by (rule Cons.IH [OF ok'' wf''])
    then show ?thesis using that unfolding dv by blast
  qed
  have run: "undo_loop user (x # rest) k v = Some (Inr n, u)" using u(1) step x by simp
  have fx: "files_at (disk v) (map fst (x # rest)) = {#dd#} + files_at (disk v) (map fst rest)"
    using x npf by (simp add: files_at_def)
  have "top_files (disk u) F = top_files (disk v) F + files_at (disk v) (map fst (x # rest))"
    unfolding u(3) top fa fx by (simp add: add_ac)
  then show ?case using run u(2) by blast
qed

lemma undo_loop_invariant:
  assumes run: "undo_loop user L k w = Some (r, w')"
    and start: "P L w"
    and skip: "\<And>np f rest v. P ((np, f) # rest) v \<Longrightarrow> \<not> path_exists (disk v) np \<Longrightarrow> P rest v"
    and mv: "\<And>np f rest v op x d' msg. P ((np, f) # rest) v \<Longrightarrow> path_exists (disk v) np \<Longrightarrow>
               butlast op = f \<Longrightarrow> disk v op = None \<Longrightarrow> shutil_move np op (disk v) = (Inr x, d') \<Longrightarrow>
               P rest (create_log user msg (v\<lparr>disk := d'\<rparr>))"
  shows "case r of Inr _ \<Rightarrow> P [] w' | Inl _ \<Rightarrow> (\<exists>L'. P L' w')"
  using run start
proof (induction L arbitrary: k w)
  case Nil
  then show ?case by auto
next
  case (Cons x rest)
  obtain np f where x: "x = (np, f)" by fastforce
  show ?case
  proof (cases "path_exists (disk w) np")
    case False
    then have "undo_loop user rest k w = Some (r, w')" using Cons.prems(1) x by simp
    then show ?thesis using Cons.IH skip [OF Cons.prems(2) [unfolded x] False] by blast
  next
    case True
    obtain b e where se: "splitext (basename np) = (b, e)" by fastforce
    show ?thesis
    proof (cases "find_free (disk w) f b e 1 (f @ [basename np])")
      case None
      then show ?thesis using Cons.prems(1) x True se by simp
    next
      case (Some op)
      have op: "butlast op = f \<and> disk w op = None" using Some by (rule find_free_parent)
      obtain res d' where sm: "shutil_move np op (disk w) = (res, d')" by fastforce
      show ?thesis
      proof (cases res)
        case (Inl e)
        then have "d' = disk w" using sm shutil_move_err by simp
        then have "r = Inl e \<and> w' = w" using Cons.prems(1) x True se Some sm Inl by (simp add: on_disk_def)
        then show ?thesis using Cons.prems(2) by auto
      next
        case (Inr y)
        then have "undo_loop user rest (Suc k)
                     (create_log user (''Restored: '' @ basename np) (w\<lparr>disk := d'\<rparr>)) = Some (r, w')"
          using Cons.prems(1) x True se Some sm by (simp add: on_disk_def)
        then show ?thesis
          using Cons.IH mv [OF Cons.prems(2) [unfolded x] True conjunct1 [OF op] conjunct2 [OF op] sm [unfolded Inr]]
          by blast
      qed
    qed
  qed
qed

lemma undo_loop_returns:
  "wf_fs (disk w) \<Longrightarrow> undo_loop user L k w \<noteq> None"
proof (induction L arbitrary: k w)
  case Nil
  then show ?case by simp
next
  case (Cons x rest)
  obtain np f where x: "x = (np, f)" by fastforce
  obtain b e where se: "splitext (basename np) = (b, e)" by fastforce
  obtain op where ff: "find_free (disk w) f b e 1 (f @ [basename np]) = Some op"
    using find_free_at [OF wf_fs_finite [OF Cons.prems]] by blast
  obtain res d' where sm: "shutil_move np op (disk w) = (res, d')" by fastforce
  have wf': "wf_fs (disk (create_log user msg (w\<lparr>disk := d'\<rparr>)))" for msg
    using shutil_move_wf [OF sm Cons.prems] by simp
  show ?case
    using Cons.IH [OF Cons.prems] Cons.IH [OF wf'] x se ff sm
    by (cases res) (auto simp: on_disk_def)
qed

lemma undo_loop_wf:
  assumes run: "undo_loop user L k w = Some (r, w')" and wf: "wf_fs (disk w)"
  shows "wf_fs (disk w') \<and> meta_eq w w'"
proof -
  let ?P = "\<lambda>(L::(path \<times> path) list) (v::world). wf_fs (disk v) \<and> meta_eq w v"
  have "case r of Inr _ \<Rightarrow> ?P [] w' | Inl _ \<Rightarrow> (\<exists>L'. ?P L' w')"
    by (rule undo_loop_invariant [OF run, where P = ?P])
       (use wf in \<open>auto dest: shutil_move_wf\<close>)
  then show ?thesis by (auto split: sum.splits)
qed

lemma demo_world_undo_wf: "wf_fs (disk undo_demo)"
  by (auto simp: wf_fs_def undo_demo_def append_eq_Cons_conv Cons_eq_append_conv)

lemma undo_gone_wf: "wf_fs (disk undo_gone)"
  by (auto simp: wf_fs_def undo_gone_def append_eq_Cons_conv Cons_eq_append_conv)

subsection \<open>Properties\<close>

text \<open>
  (C20) On a well-formed disk \<open>undo_operation\<close> always returns: every
  duplicate-name loop of the restore ends.
\<close>

theorem undo_operation_returns:
  assumes "wf_fs (disk w)"
  shows "\<exists>w' m. undo_operation confirm w = Some (w', m)"
proof (cases "undo_file w")
  case None
  then show ?thesis by (simp add: undo_operation_def)
next
  case (Some data)
  obtain res where "undo_loop (undo_user data) (undo_files data) 0 w = Some res"
    using undo_loop_returns [OF assms] by blast
  then show ?thesis using Some by (cases res) (auto simp: undo_operation_def split: sum.splits)
qed

theorem undo_operation_returns_witness:
  "wf_fs (disk undo_demo) \<and> (\<exists>w' m. undo_operation True undo_demo = Some (w', m))"
  using undo_operation_returns [OF demo_world_undo_wf] demo_world_undo_wf by blast

text \<open>
  (C16) Undo touches nothing unless there is an undo entry, it belongs to the
  logged-in user and the user confirms: otherwise the world is left as it is.
\<close>

theorem undo_only_owner:
  assumes "\<not> (\<exists>e. undo_file w = Some e \<and> current_user w = Some (undo_user e) \<and> confirm)"
  shows "\<exists>m. undo_operation confirm w = Some (w, m)"
proof (cases "undo_file w")
  case None
  then show ?thesis by (simp add: undo_operation_def)
next
  case (Some e)
  with assms have "\<not> (current_user w = Some (undo_user e) \<and> confirm)" by blast
  with Some show ?thesis by (auto simp: undo_operation_def)
qed

theorem undo_only_owner_witness:
  "\<not> (\<exists>e. undo_file (undo_demo\<lparr>current_user := Some ''bob''\<rparr>) = Some e \<and>
         current_user (undo_demo\<lparr>current_user := Some ''bob''\<rparr>) = Some (undo_user e) \<and> True) \<and>
   (\<exists>m. undo_operation True (undo_demo\<lparr>current_user := Some ''bob''\<rparr>) =
          Some (undo_demo\<lparr>current_user := Some ''bob''\<rparr>, m))"
proof -
  let ?w = "undo_demo\<lparr>current_user := Some ''bob''\<rparr>"
  have h: "\<not> (\<exists>e. undo_file ?w = Some e \<and> current_user ?w = Some (undo_user e) \<and> True)"
    by (simp add: undo_demo_def)
  with undo_only_owner [OF h] show ?thesis by blast
qed

text \<open>
  (C17) When a restore fails (the exception is caught and shown), the undo entry
  is kept, the disk stays well formed and the user stays logged in, so the
  undo can be retried.
\<close>

theorem undo_failure_keeps_entry:
  assumes "undo_operation confirm w = Some (w', Some (ErrorExc t s e))" and "wf_fs (disk w)"
  shows "undo_file w' = undo_file w \<and> wf_fs (disk w') \<and> current_user w' = current_user w"
  using assms undo_loop_wf [of _ _ 0 w]
  by (auto simp: undo_operation_def meta_eq_def split: option.splits if_splits sum.splits)

theorem undo_failure_keeps_entry_witness:
  "undo_operation True undo_gone =
     Some (undo_gone, Some (ErrorExc ''Error'' ''Undo failed: '' (FileNotFoundError [''gone'', ''f.txt'']))) \<and>
   undo_file undo_gone \<noteq> None"
proof -
  have run: "undo_operation True undo_gone =
     Some (undo_gone, Some (ErrorExc ''Error'' ''Undo failed: '' (FileNotFoundError [''gone'', ''f.txt''])))"
    by (simp add: undo_operation_def undo_gone_def undo_demo_def demo_world_def basename_def splitext_def
                  find_free.simps fs_simps on_disk_def py_simps)
  have "undo_file undo_gone = undo_file undo_gone" using undo_failure_keeps_entry [OF run undo_gone_wf] by simp
  then show ?thesis using run by (simp add: undo_gone_def)
qed

end
