(* ===== verification/Scenario.thy ===== *)
theory Scenario
  imports Undo
begin

text \<open>
  The example run of the specification, evaluated on the model: user
  \<open>alice\<close> organizes folder \<open>d\<close> holding \<open>photo.jpg\<close> (3 bytes, created
  2024-03-09 16:00:00 UTC) with an empty skip list. The backup goes to
  \<open>data/backups/alice/2024-03-09_16-00-00\<close>, the photo moves to
  \<open>d/Images/2024/03/Small/photo.jpg\<close>, the move is logged and recorded as
  the undo entry. Each stage is a lemma proved by simplification.
\<close>

definition demo_bd :: path where
  "demo_bd = [''data'', ''backups'', ''alice'', ''2024-03-09_16-00-00'']"

definition demo_cf :: path where
  "demo_cf = [''d'', ''Images'', ''2024'', ''03'', ''Small'']"

definition demo_d1 :: fs where
  "demo_d1 = (disk demo_world)([''data''] \<mapsto> Dir, [''data'', ''backups''] \<mapsto> Dir,
                   [''data'', ''backups'', ''alice''] \<mapsto> Dir, demo_bd \<mapsto> Dir,
                   demo_bd @ [''photo.jpg''] \<mapsto> File ''abc'' 1710000000 1710000000)"

definition demo_d2 :: fs where
  "demo_d2 = demo_d1([''d'', ''Images''] \<mapsto> Dir, [''d'', ''Images'', ''2024''] \<mapsto> Dir,
                     [''d'', ''Images'', ''2024'', ''03''] \<mapsto> Dir, demo_cf \<mapsto> Dir)"

definition demo_w2 :: world where
  "demo_w2 = (create_log ''alice'' (''Moved: photo.jpg '' @ ARROW @ '' Images/2024/03/Small'')
             (demo_world\<lparr>disk := demo_d2([''d'', ''photo.jpg''] := None,
                                          demo_cf @ [''photo.jpg''] := demo_d2 [''d'', ''photo.jpg''])\<rparr>))
       \<lparr>undo_file := Some \<lparr>undo_user = ''alice'', undo_files = [(demo_cf @ [''photo.jpg''], [''d''])]\<rparr>\<rparr>"

subsection \<open>Evaluation\<close>

lemma demo_stamp: "backup_stamp 0 1710000000 = ''2024-03-09_16-00-00''"
  by (simp add: backup_stamp_def local_ordinal_def EPOCH_ORD_def ord2ymd_def month_day_def DI400Y_def DI100Y_def DI4Y_def
                  DAYS_BEFORE_MONTH_def DAYS_IN_MONTH_def hms_def int_str_def pad2i_def pad2_def digit_char_def nat_str.simps py_simps)

lemma demo_backup:
  "backup_folder ''alice'' [''d''] [''photo.jpg''] demo_world = (Inr demo_bd, demo_world\<lparr>disk := demo_d1\<rparr>)"
  by (simp add: backup_folder_def backup_dir_of_def demo_world_def demo_stamp Let_def demo_d1_def demo_bd_def
     on_disk_def makedirs.simps fs_simps)

lemma demo_ts: "fromtimestamp 0 1710000000 = Inr (2024, 3, 9)"
  by (simp add: fromtimestamp_def local_ordinal_def EPOCH_ORD_def MAX_ORD_def ord2ymd_def month_day_def
                DI400Y_def DI100Y_def DI4Y_def DAYS_BEFORE_MONTH_def DAYS_IN_MONTH_def)

lemma demo_split: "splitext ''photo.jpg'' = (''photo'', ''.jpg'')"
  by (simp add: splitext_def)

lemma demo_cat: "get_category ''.jpg'' = ''Images''"
  by (simp add: get_category_def FILE_TYPES_def py_lower_def py_lower_char_def py_simps)

lemma demo_cf: "category_folder_of [''d''] ''Images'' (int_str 2024) (pad2i 3) (get_size_group 3) = demo_cf"
  by (simp add: category_folder_of_def demo_cf_def int_str_def pad2i_def pad2_def nat_str.simps digit_char_def
                get_size_group_def SIZE_LIMIT_Small_def py_simps)

lemma demo_mk: "makedirs demo_cf demo_d1 = (Inr (), demo_d2)"
  by (simp add: demo_cf_def demo_d1_def demo_d2_def demo_bd_def demo_world_def makedirs.simps fs_simps)

lemma demo_ff: "find_free demo_d2 demo_cf ''photo'' ''.jpg'' 1 (demo_cf @ [''photo.jpg'']) = Some (demo_cf @ [''photo.jpg''])"
  by (simp add: find_free.simps demo_cf_def demo_d1_def demo_d2_def demo_bd_def demo_world_def path_exists_def)

lemma demo_year: "int_str 2024 = ''2024''" and demo_month: "pad2i 3 = ''03''"
  and demo_small: "get_size_group (Suc (Suc (Suc 0))) = ''Small''"
  by (simp_all add: int_str_def pad2i_def pad2_def nat_str.simps digit_char_def get_size_group_def
                    SIZE_LIMIT_Small_def py_simps)

lemma demo_loop:
  "organize_loop ''alice'' [''d''] [] [''photo.jpg''] [] [] (demo_world\<lparr>disk := demo_d1\<rparr>) =
     Some (Inr ([(demo_cf @ [''photo.jpg''], [''d''])], [(''Images'', 1)]),
           create_log ''alice'' (''Moved: photo.jpg '' @ ARROW @ '' Images/2024/03/Small'')
             (demo_world\<lparr>disk := demo_d2([''d'', ''photo.jpg''] := None,
                                          demo_cf @ [''photo.jpg''] := demo_d2 [''d'', ''photo.jpg''])\<rparr>))"
proof -
  let ?W = "demo_world\<lparr>disk := demo_d1\<rparr>"
  have f: "demo_d1 [''d'', ''photo.jpg''] = Some (File ''abc'' 1710000000 1710000000)"
    by (simp add: demo_d1_def demo_bd_def demo_world_def)
  have isf: "isfile (disk ?W) ([''d''] @ [''photo.jpg''])" using f by (simp add: isfile_def)
  have ns: "py_lower (snd (splitext ''photo.jpg'')) \<notin> set []" by simp
  have ts: "fromtimestamp (tz ?W) (fctime (the (disk ?W ([''d''] @ [''photo.jpg''])))) = Inr (2024, 3, 9)"
    using f by (simp add: demo_world_def demo_ts)
  have cf: "demo_cf = category_folder_of [''d''] (get_category (snd (splitext ''photo.jpg''))) (int_str 2024) (pad2i 3)
                 (get_size_group (length (fdata (the (disk ?W ([''d''] @ [''photo.jpg'']))))))"
    using f demo_cf by (simp add: demo_split demo_cat eval_nat_numeral)
  have mk: "makedirs demo_cf (disk ?W) = (Inr (), demo_d2)"
    using demo_mk by simp
  have ff: "find_free demo_d2 demo_cf (fst (splitext ''photo.jpg'')) (snd (splitext ''photo.jpg'')) 1
              (demo_cf @ [''photo.jpg'']) = Some (demo_cf @ [''photo.jpg''])"
    using demo_ff by (simp add: demo_split)
  note step = organize_loop_move [OF isf ns ts cf mk ff, of "''alice''" "[]" "[]" "[]"]
  have d2: "demo_d2 [''d'', ''photo.jpg''] = Some (File ''abc'' 1710000000 1710000000)"
    using f by (simp add: demo_d2_def demo_cf_def)
  show ?thesis
    using step f d2 by (simp add: demo_split demo_cat demo_year demo_month demo_small)
qed

lemma demo_thread:
  "\<exists>t s. organize_files_thread ''alice'' [] [''d''] [''photo.jpg''] [''photo.jpg''] demo_world = Some (demo_w2, Inr (Info t s))"
proof -
  have ld: "listdir demo_d1 [''d''] [''photo.jpg''] = Inr [''photo.jpg'']"
    by (simp add: listdir_def demo_d1_def demo_bd_def demo_world_def)
  show ?thesis
    using demo_backup demo_loop ld
    by (simp add: organize_files_thread_def parse_skip_def py_strip_def demo_w2_def show_organization_results_def Let_def)
qed

theorem organize_loop_summary_witness:
  "organize_loop ''alice'' [''d''] [] [''photo.jpg''] [] [] (demo_world\<lparr>disk := demo_d1\<rparr>) =
     Some (Inr ([(demo_cf @ [''photo.jpg''], [''d''])], [(''Images'', 1)]),
           create_log ''alice'' (''Moved: photo.jpg '' @ ARROW @ '' Images/2024/03/Small'')
             (demo_world\<lparr>disk := demo_d2([''d'', ''photo.jpg''] := None,
                                          demo_cf @ [''photo.jpg''] := demo_d2 [''d'', ''photo.jpg''])\<rparr>)) \<and>
   dict_inv [(''Images'', 1)] \<and> dict_mset [(''Images'', 1)] = {#''Images''#}"
proof -
  have "dict_inv [(''Images'', 1)] \<and>
        dict_mset [(''Images'', 1)] = image_mset (\<lambda>x. fst x ! length [''d'']) (mset [(demo_cf @ [''photo.jpg''], [''d''])])"
    by (rule organize_loop_summary [OF demo_loop])
  then show ?thesis using demo_loop by (simp add: demo_cf_def)
qed


theorem organize_files_thread_no_loss_witness:
  "wf_fs (disk demo_world) \<and> disk demo_world (backup_dir_of ''alice'' demo_world) = None \<and>
   (\<exists>t s. organize_files_thread ''alice'' [] [''d''] [''photo.jpg''] [''photo.jpg''] demo_world = Some (demo_w2, Inr (Info t s))) \<and>
   contents (disk demo_world) \<subseteq># contents (disk demo_w2)"
proof -
  have fresh: "disk demo_world (backup_dir_of ''alice'' demo_world) = None"
    by (simp add: demo_world_def backup_dir_of_def)
  obtain t s where org: "organize_files_thread ''alice'' [] [''d''] [''photo.jpg''] [''photo.jpg''] demo_world =
                           Some (demo_w2, Inr (Info t s))"
    using demo_thread by blast
  show ?thesis using organize_files_thread_no_loss [OF org demo_world_wf fresh] demo_world_wf fresh org by blast
qed


theorem backup_folder_snapshot_witness:
  "wf_fs (disk demo_world) \<and> isdir (disk demo_world) [''d''] \<and>
   is_listing (disk demo_world) [''d''] [''photo.jpg''] \<and> disk demo_world demo_bd = None \<and>
   (\<exists>w'. backup_folder ''alice'' [''d''] [''photo.jpg''] demo_world = (Inr demo_bd, w') \<and>
         top_files (disk w') demo_bd = {#''abc''#})"
proof -
  have bd: "backup_dir_of ''alice'' demo_world = demo_bd"
    by (simp add: backup_dir_of_def demo_world_def demo_stamp demo_bd_def)
  have d: "isdir (disk demo_world) [''d'']" and fr: "disk demo_world demo_bd = None"
    by (simp_all add: isdir_def demo_world_def demo_bd_def)
  have ls: "is_listing (disk demo_world) [''d''] [''photo.jpg'']"
    by (simp add: is_listing_def demo_world_def)
  have isf: "isfile (disk demo_world) q \<Longrightarrow> q = [''d'', ''photo.jpg'']" for q
    by (auto simp: isfile_def demo_world_def split: if_splits)
  have nf: "\<forall>q. prefix q demo_bd \<longrightarrow> \<not> isfile (disk demo_world) q"
  proof (intro allI impI notI)
    fix q assume "prefix q demo_bd" and "isfile (disk demo_world) q"
    then show False using isf [of q] by (simp add: demo_bd_def)
  qed
  have top: "top_files (disk demo_world) [''d''] = {#''abc''#}"
  proof -
    have mem: "isfile (disk demo_world) [''d'', ''photo.jpg'']"
      by (simp add: isfile_def demo_world_def)
    have "file_paths (disk demo_world) (\<lambda>p. p \<noteq> [] \<and> butlast p = [''d'']) = {[''d'', ''photo.jpg'']}"
    proof (rule set_eqI)
      fix q show "q \<in> file_paths (disk demo_world) (\<lambda>p. p \<noteq> [] \<and> butlast p = [''d'']) \<longleftrightarrow>
                  q \<in> {[''d'', ''photo.jpg'']}"
        unfolding file_paths_def using isf [of q] mem by auto
    qed
    moreover have "fdata (the (disk demo_world [''d'', ''photo.jpg''])) = ''abc''"
      by (simp add: demo_world_def)
    ultimately show ?thesis by (simp add: top_files_def contents_where_def)
  qed
  show ?thesis
  proof -
    have "\<exists>w'. backup_folder ''alice'' [''d''] [''photo.jpg''] demo_world = (Inr demo_bd, w') \<and>
               top_files (disk w') demo_bd = {#''abc''#} \<and> top_files (disk w') [''d''] = {#''abc''#}"
      using backup_folder_snapshot [OF demo_world_wf d ls, of "''alice''"] bd fr nf top by simp
    then show ?thesis using demo_world_wf d ls fr by blast
  qed
qed

end
