(* ===== verification/Gui.thy ===== *)
theory Gui
  imports Scenario
begin

text \<open>
  The older front end \<open>src/gui.py\<close>: a module-level \<open>username\<close> set by
  \<open>login_gui()\<close>, and \<open>select_folder()\<close>, which backs the folder up with
  \<open>organizer.backup_folder\<close> and then calls \<open>organizer.organize_folder\<close>,
  a function \<open>src/organizer.py\<close> does not define: the call raises
  \<open>AttributeError\<close>. The dialogs' answers are arguments (\<open>None\<close> for a
  cancelled dialog); an exception that escapes a Tkinter callback is printed
  and the program continues, so it is the \<open>Inl\<close> result. The window's two
  buttons and \<open>root.mainloop()\<close> give the states of a run.
\<close>

record gui_state =
  g_username :: "string option"
  g_world :: world

text \<open>\<open>login_gui()\<close>: the answer is stored before it is checked.\<close>

definition login_gui :: "string option \<Rightarrow> gui_state \<Rightarrow> (gui_state \<times> message option) \<times> bool" where
  "login_gui answer s =
     (let s' = s\<lparr>g_username := answer\<rparr> in
      if answer = None \<or> answer = Some [] then ((s', Some (Error ''Error'' ''Username is required!'')), False)
      else ((s', None), True))"

text \<open>\<open>[s.strip().lower() for s in skip_input.split(",")] if skip_input else []\<close>.\<close>

definition gui_skip :: "string option \<Rightarrow> string list" where
  "gui_skip skip_input =
     (case skip_input of None \<Rightarrow> [] | Some t \<Rightarrow>
        if t = [] then [] else map (\<lambda>s. py_lower (py_strip s)) (py_split CHR '','' t))"

text \<open>\<open>select_folder()\<close>: an exception escapes the callback (Tkinter prints
  it and keeps running); its effects on the disk stay.\<close>

definition select_folder ::
  "path option \<Rightarrow> string option \<Rightarrow> name list \<Rightarrow> gui_state \<Rightarrow> (os_error + message option) \<times> gui_state" where
  "select_folder folder_selected skip_input listing s =
     (case g_username s of
        None \<Rightarrow> (Inr (Some (Error ''Error'' ''You must log in first!'')), s)
      | Some username \<Rightarrow>
          if username = [] then (Inr (Some (Error ''Error'' ''You must log in first!'')), s)
          else case folder_selected of
            None \<Rightarrow> (Inr None, s)
          | Some folder \<Rightarrow>
              let skip_exts = gui_skip skip_input in
              (case backup_folder username folder listing (g_world s) of
                 (Inl e, w1) \<Rightarrow> (Inl e, s\<lparr>g_world := w1\<rparr>)
               | (Inr _, w1) \<Rightarrow> (Inl (AttributeError ''organize_folder''), s\<lparr>g_world := w1\<rparr>)))"

text \<open>The module body of \<open>src/gui.py\<close>: the root window with the Login
  button (\<open>command=login_gui\<close>), a label and the Choose Folder button
  (\<open>command=select_folder\<close>), then \<open>root.mainloop()\<close>. A click brings the
  answers of the dialogs its command opens and the listing of the folder.\<close>

datatype legacy_event =
    Click_login "string option"
  | Click_choose_folder "path option" "string option" "name list"

fun legacy_handle :: "legacy_event \<Rightarrow> gui_state \<Rightarrow> gui_state" where
  "legacy_handle (Click_login answer) s = fst (fst (login_gui answer s))"
| "legacy_handle (Click_choose_folder folder skip listing) s = snd (select_folder folder skip listing s)"

text \<open>The states of a run: \<open>username = None\<close> at import, then any
  sequence of clicks.\<close>

inductive legacy_reach :: "world \<Rightarrow> gui_state \<Rightarrow> bool" for w0 where
  legacy_start: "legacy_reach w0 \<lparr>g_username = None, g_world = w0\<rparr>"
| legacy_click: "legacy_reach w0 s \<Longrightarrow> legacy_reach w0 (legacy_handle ev s)"

subsection \<open>Properties\<close>

text \<open>
  (C18) \<open>select_folder\<close> never organizes: for a logged-in user and a chosen
  folder it always ends with an exception (the backup's, or the
  \<open>AttributeError\<close> of \<open>organize_folder\<close>), and it leaves the top-level
  files of every folder but the new backup directory as they were.
\<close>

theorem select_folder_never_organizes:
  assumes run: "select_folder (Some folder) skip listing s = (r, s')"
    and user: "g_username s = Some u" "u \<noteq> []"
  shows "(\<exists>e. r = Inl e) \<and> g_username s' = g_username s \<and>
         (\<forall>F. F \<noteq> backup_dir_of u (g_world s) \<longrightarrow>
              top_files (disk (g_world s')) F = top_files (disk (g_world s)) F)"
proof -
  obtain b w1 where b: "backup_folder u folder listing (g_world s) = (b, w1)" by fastforce
  have "\<exists>e. r = Inl e" and s': "s' = s\<lparr>g_world := w1\<rparr>"
    using run user b by (auto simp: select_folder_def Let_def split: sum.splits)
  moreover have "top_files (disk w1) F = top_files (disk (g_world s)) F" if "F \<noteq> backup_dir_of u (g_world s)" for F
    using backup_folder_top [OF b] that by metis
  ultimately show ?thesis by simp
qed

theorem select_folder_never_organizes_witness:
  "select_folder (Some [''d'']) None [''photo.jpg''] \<lparr>g_username = Some ''alice'', g_world = demo_world\<rparr> =
     (Inl (AttributeError ''organize_folder''),
      \<lparr>g_username = Some ''alice'', g_world = demo_world\<lparr>disk := demo_d1\<rparr>\<rparr>) \<and>
   top_files demo_d1 [''d''] = top_files (disk demo_world) [''d'']"
proof -
  have run: "select_folder (Some [''d'']) None [''photo.jpg''] \<lparr>g_username = Some ''alice'', g_world = demo_world\<rparr> =
     (Inl (AttributeError ''organize_folder''),
      \<lparr>g_username = Some ''alice'', g_world = demo_world\<lparr>disk := demo_d1\<rparr>\<rparr>)"
    by (simp add: select_folder_def demo_backup)
  have "backup_dir_of ''alice'' demo_world \<noteq> [''d'']" by (simp add: backup_dir_of_def demo_world_def)
  then show ?thesis using select_folder_never_organizes [OF run] run by simp
qed


text \<open>
  (C19) Running \<open>src/gui.py\<close> never organizes anything: in every state of a
  run started on a well-formed disk, whatever is clicked, the disk stays well
  formed and the top-level files of every folder outside
  \<open>data/backups\<close> are the ones it had at the start.
\<close>

theorem legacy_never_moves:
  assumes "legacy_reach w0 s" and wf: "wf_fs (disk w0)"
  shows "wf_fs (disk (g_world s)) \<and> data_dir (g_world s) = data_dir w0 \<and>
         (\<forall>F. \<not> prefix (data_dir w0 @ [''backups'']) F \<longrightarrow> top_files (disk (g_world s)) F = top_files (disk w0) F)"
  using assms(1)
proof (induction rule: legacy_reach.induct)
  case legacy_start
  then show ?case using wf by simp
next
  case (legacy_click s ev)
  show ?case
  proof (cases ev)
    case (Click_login a)
    then show ?thesis using legacy_click by (simp add: login_gui_def Let_def)
  next
    case (Click_choose_folder f k l)
    show ?thesis
    proof (cases "\<exists>u folder. g_username s = Some u \<and> u \<noteq> [] \<and> f = Some folder")
      case False
      then have "snd (select_folder f k l s) = s"
        by (cases "g_username s"; cases f) (auto simp: select_folder_def)
      then show ?thesis using legacy_click Click_choose_folder by simp
    next
      case True
      then obtain u folder where u: "g_username s = Some u" "u \<noteq> []" and fo: "f = Some folder" by blast
      obtain b w1 where b: "backup_folder u folder l (g_world s) = (b, w1)" by fastforce
      have s': "snd (select_folder f k l s) = s\<lparr>g_world := w1\<rparr>"
        using u fo b by (auto simp: select_folder_def Let_def split: sum.splits)
      have wm: "wf_fs (disk w1) \<and> meta_eq (g_world s) w1"
        using backup_folder_wf [OF b] legacy_click.IH by simp
      have "top_files (disk w1) F = top_files (disk w0) F" if "\<not> prefix (data_dir w0 @ [''backups'']) F" for F
      proof -
        have "backup_dir_of u (g_world s) \<noteq> F"
          using that legacy_click.IH by (auto simp: backup_dir_of_def)
        then show ?thesis using backup_folder_top [OF b] that legacy_click.IH by metis
      qed
      then show ?thesis using s' wm Click_choose_folder legacy_click.IH by (simp add: meta_eq_def)
    qed
  qed
qed

theorem legacy_never_moves_witness:
  "legacy_reach demo_world
     (legacy_handle (Click_choose_folder (Some [''d'']) None [''photo.jpg''])
        (legacy_handle (Click_login (Some ''alice'')) \<lparr>g_username = None, g_world = demo_world\<rparr>)) \<and>
   wf_fs (disk demo_world) \<and> \<not> prefix (data_dir demo_world @ [''backups'']) [''d''] \<and>
   top_files demo_d1 [''d''] = top_files (disk demo_world) [''d'']"
proof -
  let ?s1 = "legacy_handle (Click_login (Some ''alice'')) \<lparr>g_username = None, g_world = demo_world\<rparr>"
  let ?s2 = "legacy_handle (Click_choose_folder (Some [''d'']) None [''photo.jpg'']) ?s1"
  have r: "legacy_reach demo_world ?s2" by (intro legacy_click legacy_start)
  have s2: "?s2 = \<lparr>g_username = Some ''alice'', g_world = demo_world\<lparr>disk := demo_d1\<rparr>\<rparr>"
    by (simp add: login_gui_def select_folder_def demo_backup)
  have np: "\<not> prefix (data_dir demo_world @ [''backups'']) [''d'']" by (simp add: demo_world_def)
  show ?thesis using legacy_never_moves [OF r demo_world_wf] s2 r np demo_world_wf by simp
qed

end
