(* ===== verification/Accounts.thy ===== *)
theory Accounts
  imports Organizer
begin

text \<open>
  The accounts and the activity-log screen of \<open>src/organizer.py\<close>:
  \<open>load_users\<close>, \<open>save_users\<close>, \<open>FileOrganizerGUI.login\<close>,
  \<open>register\<close>, \<open>logout\<close>, \<open>load_log\<close> and \<open>ensure_data_dirs\<close>. Each
  handler returns the world and the message it shows.
\<close>

text \<open>\<open>load_users()\<close>: the parsed \<open>users.json\<close>, empty when the file does not
  exist; \<open>save_users(users)\<close> rewrites it wholesale. A user record
  \<open>{"password": p}\<close> is modelled by \<open>p\<close>.\<close>

definition load_users :: "world \<Rightarrow> (string \<rightharpoonup> string)" where
  "load_users w = (case users_file w of None \<Rightarrow> Map.empty | Some users \<Rightarrow> users)"

definition save_users :: "(string \<rightharpoonup> string) \<Rightarrow> world \<Rightarrow> world" where
  "save_users users w = w\<lparr>users_file := Some users\<rparr>"

text \<open>\<open>login()\<close> and \<open>register()\<close> on the two entry fields, both stripped.
  A successful login shows the welcome message and the main menu.\<close>

definition login :: "string \<Rightarrow> string \<Rightarrow> world \<Rightarrow> world \<times> message" where
  "login username_entry password_entry w =
     (let username = py_strip username_entry; password = py_strip password_entry in
      if username = [] \<or> password = [] then (w, Error ''Error'' ''Please enter both username and password!'')
      else let users = load_users w in
           if username \<in> dom users \<and> users username = Some password
           then (w\<lparr>current_user := Some username\<rparr>, Info ''Success'' (''Welcome, '' @ username @ ''!''))
           else (w, Error ''Error'' ''Invalid credentials!''))"

definition register :: "string \<Rightarrow> string \<Rightarrow> world \<Rightarrow> world \<times> message" where
  "register username_entry password_entry w =
     (let username = py_strip username_entry; password = py_strip password_entry in
      if username = [] \<or> password = [] then (w, Error ''Error'' ''Please enter both username and password!'')
      else let users = load_users w in
           if username \<in> dom users then (w, Error ''Error'' ''Username already exists!'')
           else (save_users (users(username \<mapsto> password)) w,
                 Info ''Success'' ''Registration successful! You can now login.''))"

text \<open>\<open>logout()\<close>: the answer of \<open>askyesno\<close> is \<open>confirm\<close>.\<close>

definition logout :: "bool \<Rightarrow> world \<Rightarrow> world" where
  "logout confirm w = (if confirm then w\<lparr>current_user := None\<rparr> else w)"

text \<open>\<open>load_log()\<close> reads \<open>data/logs/<current_user>_log.txt\<close>; the name is
  built with an f-string, so no user gives \<open>None_log.txt\<close>. A log that is
  only white space counts as empty.\<close>

definition py_str_user :: "string option \<Rightarrow> string" where
  "py_str_user u = (case u of None \<Rightarrow> ''None'' | Some s \<Rightarrow> s)"

definition load_log :: "world \<Rightarrow> string" where
  "load_log w =
     (case logs w (py_str_user (current_user w)) of
        None \<Rightarrow> ''No activity log found. Start organizing files to see activity here!''
      | Some log_content \<Rightarrow>
          if py_strip log_content \<noteq> [] then log_content
          else ''Activity log is empty. Start organizing files to see activity here!'')"

text \<open>\<open>ensure_data_dirs()\<close>, run when the application starts.\<close>

definition ensure_data_dirs :: "world \<Rightarrow> unit run" where
  "ensure_data_dirs w =
     ebind (on_disk (makedirs (data_dir w)) w) (\<lambda>_ w1.
     ebind (on_disk (makedirs (data_dir w @ [''logs''])) w1) (\<lambda>_ w2.
     on_disk (makedirs (data_dir w @ [''backups''])) w2))"

subsection \<open>Properties\<close>

text \<open>
  (C22) Login logs the user in exactly when both stripped fields are non-empty
  and the stored password of the stripped name is the stripped password;
  otherwise it changes nothing.
\<close>

theorem login_spec:
  "fst (login u p w) =
     (if py_strip u \<noteq> [] \<and> py_strip p \<noteq> [] \<and> load_users w (py_strip u) = Some (py_strip p)
      then w\<lparr>current_user := Some (py_strip u)\<rparr> else w)"
  by (auto simp: login_def Let_def)

text \<open>
  (C21) Registration adds the stripped name with the stripped password when
  both are non-empty and the name is not taken, and otherwise leaves the
  accounts as they are: no existing account is ever changed.
\<close>

theorem register_users:
  "load_users (fst (register u p w)) =
     (if py_strip u \<noteq> [] \<and> py_strip p \<noteq> [] \<and> py_strip u \<notin> dom (load_users w)
      then (load_users w)(py_strip u \<mapsto> py_strip p) else load_users w)"
  by (auto simp: register_def save_users_def load_users_def Let_def)

text \<open>
  (C23) A login with the same entries right after a successful registration
  succeeds and logs in the stripped name.
\<close>

theorem register_then_login:
  assumes "register u p w = (w', Info t s)"
  shows "login u p w' = (w'\<lparr>current_user := Some (py_strip u)\<rparr>, Info ''Success'' (''Welcome, '' @ py_strip u @ ''!''))"
  using assms by (auto simp: register_def login_def save_users_def load_users_def Let_def split: if_splits)

theorem register_then_login_witness:
  "register '' bob '' ''secret'' demo_world =
     (demo_world\<lparr>users_file := Some [''alice'' \<mapsto> ''pw'', ''bob'' \<mapsto> ''secret'']\<rparr>,
      Info ''Success'' ''Registration successful! You can now login.'') \<and>
   login '' bob '' ''secret'' (demo_world\<lparr>users_file := Some [''alice'' \<mapsto> ''pw'', ''bob'' \<mapsto> ''secret'']\<rparr>) =
     (demo_world\<lparr>users_file := Some [''alice'' \<mapsto> ''pw'', ''bob'' \<mapsto> ''secret''], current_user := Some ''bob''\<rparr>,
      Info ''Success'' ''Welcome, bob!'')"
proof -
  have r: "register '' bob '' ''secret'' demo_world =
     (demo_world\<lparr>users_file := Some [''alice'' \<mapsto> ''pw'', ''bob'' \<mapsto> ''secret'']\<rparr>,
      Info ''Success'' ''Registration successful! You can now login.'')"
    by (simp add: register_def demo_world_def save_users_def load_users_def py_strip_def py_isspace_def)
  have st: "py_strip '' bob '' = ''bob''" by (simp add: py_strip_def py_isspace_def)
  from register_then_login [OF r] r st show ?thesis by simp
qed

text \<open>
  (C24) Append, then read: after \<open>create_log\<close> for the logged-in user, the log
  screen shows the old log followed by the new timestamped line.
\<close>

theorem load_log_after_create_log:
  assumes "current_user w = Some u"
  shows "load_log (create_log u msg w) =
           (case logs w u of None \<Rightarrow> [] | Some old \<Rightarrow> old) @ str_datetime (tz w) (clock w) @ '' - '' @ msg @ ''\<newline>''"
proof -
  let ?s = "(case logs w u of None \<Rightarrow> [] | Some old \<Rightarrow> old) @ str_datetime (tz w) (clock w) @ '' - '' @ msg @ ''\<newline>''"
  have "CHR ''-'' \<in> set ?s" by simp
  moreover have "\<not> py_isspace CHR ''-''" by (simp add: py_isspace_def)
  ultimately have "py_strip ?s \<noteq> []" by (rule py_strip_nonempty)
  then show ?thesis using assms by (simp add: load_log_def create_log_def py_str_user_def)
qed

theorem load_log_after_create_log_witness:
  "current_user demo_world = Some ''alice'' \<and>
   load_log (create_log ''alice'' ''Restored: photo.jpg'' demo_world) =
     str_datetime 0 1710000000 @ '' - Restored: photo.jpg\<newline>''"
  using load_log_after_create_log [of demo_world "''alice''" "''Restored: photo.jpg''"]
  by (simp add: demo_world_def)

end
