(* ===== verification/App.thy ===== *)
theory App
  imports Accounts Undo
begin

text \<open>
  The application as a whole: the handlers a user can trigger, as a step
  relation on the world. The login screen (no user logged in) offers login
  and registration; the main menu (a user logged in) offers organize, undo,
  the log screen (which changes nothing) and logout. The invariant: the disk
  stays well formed and a logged-in user is always a registered one.
\<close>

inductive app_step :: "world \<Rightarrow> world \<Rightarrow> bool" where
  login_step: "current_user w = None \<Longrightarrow> app_step w (fst (login u p w))"
| register_step: "current_user w = None \<Longrightarrow> app_step w (fst (register u p w))"
| logout_step: "current_user w \<noteq> None \<Longrightarrow> app_step w (logout c w)"
| organize_step: "current_user w \<noteq> None \<Longrightarrow> start_organization skip f lb lo w = Some (w', m) \<Longrightarrow> app_step w w'"
| undo_step: "current_user w \<noteq> None \<Longrightarrow> undo_operation c w = Some (w', m') \<Longrightarrow> app_step w w'"

definition app_inv :: "world \<Rightarrow> bool" where
  "app_inv w = (wf_fs (disk w) \<and> (\<forall>u. current_user w = Some u \<longrightarrow> u \<in> dom (load_users w)))"

text \<open>\<open>FileOrganizerGUI.__init__\<close>: no user is logged in, then
  \<open>ensure_data_dirs()\<close> (an exception there ends the program).\<close>

definition app_start :: "world \<Rightarrow> unit run" where
  "app_start w = ensure_data_dirs (w\<lparr>current_user := None\<rparr>)"

subsection \<open>Lemmas\<close>

inductive_cases app_step_cases: "app_step w w'"

lemma organize_files_thread_wf:
  assumes run: "organize_files_thread user skip F lb lo w = Some (w2, m)" and wf: "wf_fs (disk w)"
  shows "wf_fs (disk w2) \<and> users_file w2 = users_file w \<and> current_user w2 = current_user w"
  using run
proof (cases rule: organize_files_thread_shape)
  case (1 r1 w1)
  then show ?thesis using backup_folder_wf [OF 1(1) wf] by (simp add: meta_eq_def)
next
  case (2 r1 w1 items r v)
  have wf1: "wf_fs (disk w1)" and m1: "meta_eq w w1" using backup_folder_wf [OF 2(1) wf] by simp_all
  have "wf_fs (disk v) \<and> meta_eq w1 v" using organize_loop_safe [OF 2(2) wf1] by simp
  then show ?thesis using 2 m1 by (simp add: meta_eq_def)
qed

lemma start_organization_wf:
  "start_organization skip f lb lo w = Some (w', m) \<Longrightarrow> wf_fs (disk w) \<Longrightarrow>
   wf_fs (disk w') \<and> users_file w' = users_file w \<and> current_user w' = current_user w"
  by (auto simp: start_organization_def split: option.splits if_splits dest: organize_files_thread_wf)

lemma undo_operation_wf:
  "undo_operation c w = Some (w', m) \<Longrightarrow> wf_fs (disk w) \<Longrightarrow>
   wf_fs (disk w') \<and> users_file w' = users_file w \<and> current_user w' = current_user w"
  using undo_loop_wf [of _ _ 0 w]
  by (auto simp: undo_operation_def meta_eq_def split: option.splits if_splits sum.splits)

lemma app_step_inv: "app_step w w' \<Longrightarrow> app_inv w \<Longrightarrow> app_inv w'"
proof (induction rule: app_step.induct)
  case (login_step w u p)
  then show ?case by (auto simp: app_inv_def login_def load_users_def Let_def)
next
  case (register_step w u p)
  then show ?case by (auto simp: app_inv_def register_def save_users_def load_users_def Let_def)
next
  case (logout_step w c)
  then show ?case by (simp add: app_inv_def logout_def load_users_def)
next
  case (organize_step w skip f lb lo w' m)
  then show ?case using start_organization_wf [OF organize_step.hyps(2)] by (simp add: app_inv_def load_users_def)
next
  case (undo_step w c w' m')
  then show ?case using undo_operation_wf [OF undo_step.hyps(2)] by (simp add: app_inv_def load_users_def)
qed

subsection \<open>Properties\<close>

text \<open>
  (C2) In every state reachable from a start with a well-formed disk and no
  user logged in, the disk is well formed and the logged-in user, if any,
  has an account.
\<close>

theorem app_reachable_inv:
  assumes "app_step\<^sup>*\<^sup>* w0 w" and "wf_fs (disk w0)" and "current_user w0 = None"
  shows "wf_fs (disk w) \<and> (\<forall>u. current_user w = Some u \<longrightarrow> u \<in> dom (load_users w))"
proof -
  have "app_inv w0" using assms(2,3) by (simp add: app_inv_def)
  with assms(1) have "app_inv w" by (induction rule: rtranclp_induct) (auto intro: app_step_inv)
  then show ?thesis by (simp add: app_inv_def)
qed

theorem app_reachable_inv_witness:
  "app_step\<^sup>*\<^sup>* (demo_world\<lparr>current_user := None\<rparr>) (fst (login ''alice'' ''pw'' (demo_world\<lparr>current_user := None\<rparr>))) \<and>
   wf_fs (disk (demo_world\<lparr>current_user := None\<rparr>)) \<and> current_user (demo_world\<lparr>current_user := None\<rparr>) = None \<and>
   current_user (fst (login ''alice'' ''pw'' (demo_world\<lparr>current_user := None\<rparr>))) = Some ''alice'' \<and>
   ''alice'' \<in> dom (load_users (fst (login ''alice'' ''pw'' (demo_world\<lparr>current_user := None\<rparr>))))"
proof -
  let ?w0 = "demo_world\<lparr>current_user := None\<rparr>"
  have st: "app_step\<^sup>*\<^sup>* ?w0 (fst (login ''alice'' ''pw'' ?w0))"
    by (rule r_into_rtranclp, rule login_step) simp
  have wf: "wf_fs (disk ?w0)" using demo_world_wf by simp
  have cu: "current_user (fst (login ''alice'' ''pw'' ?w0)) = Some ''alice''"
    by (simp add: login_def demo_world_def load_users_def py_strip_def py_isspace_def Let_def)
  from app_reachable_inv [OF st wf] cu st wf show ?thesis by simp
qed

text \<open>
  (C3) Start-up succeeds on a well-formed disk where no file blocks the data
  directories: afterwards nobody is logged in, the disk is well formed, and
  \<open>data\<close>, \<open>data/logs\<close> and \<open>data/backups\<close> are directories.
\<close>

theorem app_start_ok:
  assumes wf: "wf_fs (disk w)"
    and free: "\<forall>q. prefix q (data_dir w) \<longrightarrow> \<not> isfile (disk w) q"
    and nl: "\<not> isfile (disk w) (data_dir w @ [''logs''])" and nb: "\<not> isfile (disk w) (data_dir w @ [''backups''])"
  shows "\<exists>w'. app_start w = (Inr (), w') \<and> wf_fs (disk w') \<and> current_user w' = None \<and>
              isdir (disk w') (data_dir w) \<and> isdir (disk w') (data_dir w @ [''logs'']) \<and>
              isdir (disk w') (data_dir w @ [''backups''])"
proof -
  let ?D = "data_dir w"
  obtain d1 where m1: "makedirs ?D (disk w) = (Inr (), d1)" and wf1: "wf_fs d1"
    and dir1: "\<forall>q. prefix q ?D \<longrightarrow> d1 q = Some Dir" and k1: "\<forall>q. disk w q \<noteq> None \<longrightarrow> d1 q = disk w q"
    and f1: "\<forall>q. isfile d1 q \<longrightarrow> isfile (disk w) q"
    by (rule makedirs_success [OF wf free])
  have free2: "\<forall>q. prefix q (?D @ [''logs'']) \<longrightarrow> \<not> isfile d1 q"
    using dir1 f1 nl by (auto simp: prefix_snoc isfile_def)
  obtain d2 where m2: "makedirs (?D @ [''logs'']) d1 = (Inr (), d2)" and wf2: "wf_fs d2"
    and dir2: "\<forall>q. prefix q (?D @ [''logs'']) \<longrightarrow> d2 q = Some Dir" and k2: "\<forall>q. d1 q \<noteq> None \<longrightarrow> d2 q = d1 q"
    and f2: "\<forall>q. isfile d2 q \<longrightarrow> isfile d1 q"
    by (rule makedirs_success [OF wf1 free2])
  have free3: "\<forall>q. prefix q (?D @ [''backups'']) \<longrightarrow> \<not> isfile d2 q"
  proof (intro allI impI)
    fix q assume "prefix q (?D @ [''backups''])"
    then consider "q = ?D @ [''backups'']" | "prefix q ?D" by (auto simp: prefix_snoc)
    then show "\<not> isfile d2 q"
    proof cases
      case 1
      then show ?thesis using f2 f1 nb by blast
    next
      case 2
      then have "d1 q = Some Dir" using dir1 by blast
      then have "d2 q = Some Dir" using k2 by simp
      then show ?thesis by (simp add: isfile_def)
    qed
  qed
  obtain d3 where m3: "makedirs (?D @ [''backups'']) d2 = (Inr (), d3)" and wf3: "wf_fs d3"
    and dir3: "\<forall>q. prefix q (?D @ [''backups'']) \<longrightarrow> d3 q = Some Dir" and k3: "\<forall>q. d2 q \<noteq> None \<longrightarrow> d3 q = d2 q"
    and "\<forall>q. isfile d3 q \<longrightarrow> isfile d2 q"
    by (rule makedirs_success [OF wf2 free3])
  have "app_start w = (Inr (), (w\<lparr>current_user := None\<rparr>)\<lparr>disk := d3\<rparr>)"
    using m1 m2 m3 by (simp add: app_start_def ensure_data_dirs_def on_disk_def)
  moreover have "isdir d3 ?D" "isdir d3 (?D @ [''logs''])" "isdir d3 (?D @ [''backups''])"
    using dir1 dir2 dir3 k2 k3 by (auto simp: isdir_def)
  ultimately show ?thesis using wf3 by auto
qed

theorem app_start_ok_witness:
  "wf_fs (disk demo_world) \<and> data_dir demo_world = [''data''] \<and> disk demo_world [''data''] = None \<and>
   \<not> isfile (disk demo_world) (data_dir demo_world @ [''logs'']) \<and>
   \<not> isfile (disk demo_world) (data_dir demo_world @ [''backups'']) \<and>
   (\<exists>w'. app_start demo_world = (Inr (), w') \<and> isdir (disk w') [''data'', ''logs''])"
proof -
  have free: "\<forall>q. prefix q (data_dir demo_world) \<longrightarrow> \<not> isfile (disk demo_world) q"
    by (auto simp: demo_world_def isfile_def prefix_Cons)
  have nl: "\<not> isfile (disk demo_world) (data_dir demo_world @ [''logs''])"
    and nb: "\<not> isfile (disk demo_world) (data_dir demo_world @ [''backups''])"
    by (simp_all add: demo_world_def isfile_def)
  have dd: "data_dir demo_world = [''data'']" by (simp add: demo_world_def)
  have "disk demo_world [''data''] = None" by (simp add: demo_world_def)
  with app_start_ok [OF demo_world_wf free nl nb] show ?thesis
    using demo_world_wf nl nb dd by auto
qed

end
