(* ===== verification/Screens.thy ===== *)
theory Screens
  imports App Scenario
begin

text \<open>
  The Tkinter front end of \<open>src/organizer.py\<close>, class \<open>FileOrganizerGUI\<close>:
  the window, the attributes of \<open>self\<close> that refer to widgets and Tk
  variables, the \<open><Return>\<close> binding, and the handlers the buttons call.
  The widgets of the root window are the list of widgets the current screen
  created, in creation order; frames are kept as \<open>Frame\<close> but not their
  nesting, and fonts, colours and geometry are not modelled.
  \<open>clear_window\<close> destroys every widget; an attribute keeps referring to its
  widget after that, and a call on it raises \<open>TclError\<close>. An attribute never
  assigned raises \<open>AttributeError\<close>. An exception that escapes a callback
  is printed by Tkinter, which keeps running: it is the \<open>Inl\<close> result of
  the handler, with the state the handler left.
\<close>

datatype command =
    Login_cmd | Register_cmd | Show_organize_cmd | Undo_cmd | Show_log_cmd | Logout_cmd
  | Browse_cmd | Start_cmd | Main_menu_cmd

datatype attr = Username_entry | Password_entry | Folder_entry | Skip_entry | Progress_bar | Log_text

datatype widget =
    Frame | Label string | Var_label | Entry attr | Button string command | Progressbar | Scrolled_text

text \<open>The state of the application object: the live widgets, the attributes
  assigned so far, the contents of the entry fields, the progress bar
  (running or not), the log text (contents, disabled), the two Tk string
  variables (\<open>None\<close>: not yet created; the folder variable holds
  \<open>None\<close> for the empty string), the \<open><Return>\<close> binding and the world the
  handlers act on.\<close>

record tk_app =
  window :: "widget list"
  attrs :: "attr set"
  entry_text :: "attr \<Rightarrow> string"
  progress_running :: bool
  log_view :: "string \<times> bool"
  folder_path_var :: "path option option"
  progress_var :: "string option"
  return_binding :: "command option"
  app_world :: world

text \<open>The answers of the dialogs and of \<open>os.listdir\<close> an event brings:
  \<open>askyesno\<close>, \<open>askdirectory\<close> (\<open>None\<close> for a cancelled dialog), and the
  listings of the folder during the backup and the organize loop.\<close>

record answers =
  ask_yes :: bool
  ask_dir :: "path option"
  listing_backup :: "name list"
  listing_organize :: "name list"

text \<open>The pictographs of the labels, as the UTF-8 bytes of the source.\<close>

definition ICON_FOLDER :: string where "ICON_FOLDER = [CHR 0xF0, CHR 0x9F, CHR 0x93, CHR 0x81]"
definition ICON_OPEN_FOLDER :: string where "ICON_OPEN_FOLDER = [CHR 0xF0, CHR 0x9F, CHR 0x93, CHR 0x82]"
definition ICON_REWIND :: string where "ICON_REWIND = [CHR 0xE2, CHR 0x8F, CHR 0xAA]"
definition ICON_SCROLL :: string where "ICON_SCROLL = [CHR 0xF0, CHR 0x9F, CHR 0x93, CHR 0x9C]"
definition ICON_WAVE :: string where "ICON_WAVE = [CHR 0xF0, CHR 0x9F, CHR 0x91, CHR 0x8B]"
definition ICON_ROCKET :: string where "ICON_ROCKET = [CHR 0xF0, CHR 0x9F, CHR 0x9A, CHR 0x80]"
definition LEFT_ARROW :: string where "LEFT_ARROW = [CHR 0xE2, CHR 0x86, CHR 0x90]"

subsection \<open>Widgets\<close>

text \<open>The widget an attribute refers to, and the attribute's name.\<close>

fun widget_of :: "attr \<Rightarrow> widget" where
  "widget_of Progress_bar = Progressbar"
| "widget_of Log_text = Scrolled_text"
| "widget_of a = Entry a"

fun attr_name :: "attr \<Rightarrow> string" where
  "attr_name Username_entry = ''username_entry''"
| "attr_name Password_entry = ''password_entry''"
| "attr_name Folder_entry = ''folder_entry''"
| "attr_name Skip_entry = ''skip_entry''"
| "attr_name Progress_bar = ''progress_bar''"
| "attr_name Log_text = ''log_text''"

text \<open>A method call on \<open>self.<a>\<close>: the attribute must exist and its widget
  must not be destroyed.\<close>

definition widget_check :: "attr \<Rightarrow> tk_app \<Rightarrow> os_error + unit" where
  "widget_check a t =
     (if a \<notin> attrs t then Inl (AttributeError (attr_name a))
      else if widget_of a \<notin> set (window t) then Inl (TclError ''invalid command name'')
      else Inr ())"

text \<open>\<open>self.<a>.get()\<close> on an entry field.\<close>

definition entry_get :: "attr \<Rightarrow> tk_app \<Rightarrow> os_error + string" where
  "entry_get a t = (case widget_check a t of Inl e \<Rightarrow> Inl e | Inr _ \<Rightarrow> Inr (entry_text t a))"

text \<open>\<open>clear_window()\<close>: destroy every child of the root window.\<close>

definition clear_window :: "tk_app \<Rightarrow> tk_app" where
  "clear_window t = t\<lparr>window := []\<rparr>"

subsection \<open>Screens\<close>

text \<open>\<open>show_login_screen()\<close>: the widgets it creates, the two entry fields,
  and \<open>self.root.bind('<Return>', lambda e: self.login())\<close>.\<close>

definition login_widgets :: "widget list" where
  "login_widgets =
     [Frame, Label (ICON_FOLDER @ '' File Organizer''), Frame, Label ''Login / Register'',
      Label ''Username:'', Entry Username_entry, Label ''Password:'', Entry Password_entry,
      Frame, Button ''Login'' Login_cmd, Button ''Register'' Register_cmd]"

definition show_login_screen :: "tk_app \<Rightarrow> tk_app" where
  "show_login_screen t =
     (clear_window t)\<lparr>window := login_widgets,
        attrs := attrs t \<union> {Username_entry, Password_entry},
        entry_text := (entry_text t)(Username_entry := [], Password_entry := []),
        return_binding := Some Login_cmd\<rparr>"

text \<open>\<open>show_main_menu()\<close>: the welcome label (\<open>f"Welcome, {self.current_user}!"\<close>)
  and the four menu buttons.\<close>

definition main_widgets :: "string \<Rightarrow> widget list" where
  "main_widgets user =
     [Frame, Frame, Label (''Welcome, '' @ user @ ''!''), Frame,
      Button (ICON_OPEN_FOLDER @ '' Organize Folder'') Show_organize_cmd,
      Button (ICON_REWIND @ '' Undo Last Operation'') Undo_cmd,
      Button (ICON_SCROLL @ '' View Log'') Show_log_cmd,
      Button (ICON_WAVE @ '' Logout'') Logout_cmd]"

definition show_main_menu :: "tk_app \<Rightarrow> tk_app" where
  "show_main_menu t =
     (clear_window t)\<lparr>window := main_widgets (py_str_user (current_user (app_world t)))\<rparr>"

text \<open>\<open>show_organize_screen()\<close>: a new folder variable (empty), the read-only
  folder entry, the skip entry, the progress label and bar, and the buttons.\<close>

definition organize_widgets :: "widget list" where
  "organize_widgets =
     [Frame, Frame, Label (ICON_OPEN_FOLDER @ '' Organize Folder''), Frame,
      Label ''Select Folder to Organize:'', Frame, Entry Folder_entry, Button ''Browse'' Browse_cmd,
      Label ''File Extensions to Skip (optional):'',
      Label ''Enter comma-separated extensions (e.g., .txt,.jpg)'', Entry Skip_entry,
      Var_label, Progressbar, Frame,
      Button (ICON_ROCKET @ '' Start Organization'') Start_cmd,
      Button (LEFT_ARROW @ '' Back'') Main_menu_cmd]"

definition show_organize_screen :: "tk_app \<Rightarrow> tk_app" where
  "show_organize_screen t =
     (clear_window t)\<lparr>window := organize_widgets,
        attrs := attrs t \<union> {Folder_entry, Skip_entry, Progress_bar},
        entry_text := (entry_text t)(Skip_entry := []),
        folder_path_var := Some None, progress_var := Some ''Ready to organize...'',
        progress_running := False\<rparr>"

text \<open>\<open>show_log_screen()\<close>: the text widget, filled by \<open>load_log()\<close>
  (\<open>insert("1.0", \<dots>)\<close> into the empty widget, then \<open>state="disabled"\<close>), then
  the back button. Reading the log file does not fail in the model, so the
  \<open>"Error reading log file"\<close> branch is not taken.\<close>

definition log_widgets :: "widget list" where
  "log_widgets = [Frame, Frame, Label (ICON_SCROLL @ '' Activity Log''), Frame, Scrolled_text,
                  Button (LEFT_ARROW @ '' Back'') Main_menu_cmd]"

definition show_log_screen :: "tk_app \<Rightarrow> tk_app" where
  "show_log_screen t =
     (let t1 = (clear_window t)\<lparr>window := [Frame, Frame, Label (ICON_SCROLL @ '' Activity Log''), Frame, Scrolled_text],
                                attrs := attrs t \<union> {Log_text}, log_view := ([], False)\<rparr>;
          t2 = t1\<lparr>log_view := (load_log (app_world t1) @ fst (log_view t1), True)\<rparr>
      in t2\<lparr>window := window t2 @ [Button (LEFT_ARROW @ '' Back'') Main_menu_cmd]\<rparr>)"

subsection \<open>Handlers\<close>

type_synonym tk_result = "(os_error + message option) \<times> tk_app"

text \<open>\<open>login()\<close>: read both entries, then the check of \<open>login\<close>; on success
  the main menu.\<close>

definition gui_login :: "tk_app \<Rightarrow> tk_result" where
  "gui_login t =
     (case entry_get Username_entry t of
        Inl e \<Rightarrow> (Inl e, t)
      | Inr u \<Rightarrow>
          (case entry_get Password_entry t of
             Inl e \<Rightarrow> (Inl e, t)
           | Inr p \<Rightarrow>
               (case login u p (app_world t) of
                  (w', Info title msg) \<Rightarrow> (Inr (Some (Info title msg)), show_main_menu (t\<lparr>app_world := w'\<rparr>))
                | (w', m) \<Rightarrow> (Inr (Some m), t\<lparr>app_world := w'\<rparr>))))"

definition gui_register :: "tk_app \<Rightarrow> tk_result" where
  "gui_register t =
     (case entry_get Username_entry t of
        Inl e \<Rightarrow> (Inl e, t)
      | Inr u \<Rightarrow>
          (case entry_get Password_entry t of
             Inl e \<Rightarrow> (Inl e, t)
           | Inr p \<Rightarrow> (case register u p (app_world t) of (w', m) \<Rightarrow> (Inr (Some m), t\<lparr>app_world := w'\<rparr>))))"

text \<open>\<open>browse_folder()\<close>: \<open>folder_path_var.set(folder)\<close> when a folder was chosen.\<close>

definition browse_folder :: "path option \<Rightarrow> tk_app \<Rightarrow> tk_result" where
  "browse_folder answer t =
     (case answer of
        None \<Rightarrow> (Inr None, t)
      | Some folder \<Rightarrow>
          (case folder_path_var t of
             None \<Rightarrow> (Inl (AttributeError ''folder_path_var''), t)
           | Some _ \<Rightarrow> (Inr None, t\<lparr>folder_path_var := Some (Some folder)\<rparr>)))"

text \<open>The stage the worker last announced: it schedules
  \<open>progress_var.set("Creating backup...")\<close> before \<open>backup_folder\<close> and
  \<open>progress_var.set("Organizing files...")\<close> once the backup has returned.\<close>

definition worker_stage :: "string \<Rightarrow> path \<Rightarrow> name list \<Rightarrow> world \<Rightarrow> string" where
  "worker_stage user F lb w =
     (case fst (backup_folder user F lb w) of
        Inl _ \<Rightarrow> ''Creating backup...''
      | Inr _ \<Rightarrow> ''Organizing files...'')"

text \<open>The thread \<open>organize_files_thread(folder_path)\<close> as the GUI runs it:
  it first reads the skip entry (inside its \<open>try\<close>), then backs up and
  organizes for \<open>self.current_user\<close> (with no user, \<open>backup_folder(None, ...)\<close>
  raises \<open>TypeError\<close> after the first stage was announced). The result is
  the world, the worker's outcome and the stage last announced.\<close>

definition organize_worker ::
  "path \<Rightarrow> name list \<Rightarrow> name list \<Rightarrow> tk_app \<Rightarrow> (world \<times> worker_outcome \<times> string) option" where
  "organize_worker F lb lo t =
     (let w = app_world t in
      case entry_get Skip_entry t of
        Inl e \<Rightarrow> Some (w, Inl e, ''Creating backup...'')
      | Inr skip \<Rightarrow>
          (case current_user w of
             None \<Rightarrow> Some (w, Inl (TypeError ''join() argument must be str''), ''Creating backup...'')
           | Some user \<Rightarrow>
               map_option (\<lambda>(w', out). (w', out, worker_stage user F lb w))
                 (organize_files_thread user skip F lb lo w)))"

text \<open>
  \<open>start_organization()\<close>: the two guards, \<open>progress_bar.start()\<close>,
  \<open>progress_var.set("Creating backup...")\<close>, then the worker, run to its end,
  then the callbacks it scheduled with \<open>root.after\<close>, in order. After a
  completed run \<open>show_organization_results\<close> stops the bar, sets
  \<open>"Organization complete!"\<close> and shows its message. After an exception the
  first callback is \<open>lambda: messagebox.showerror(..., str(e))\<close>, whose \<open>e\<close>
  the \<open>except\<close> clause has deleted: it raises \<open>NameError\<close>, which Tkinter
  prints, and no message is shown; the \<open>finally\<close> callback then stops the
  bar, and the label keeps the last stage.
\<close>

definition gui_start :: "name list \<Rightarrow> name list \<Rightarrow> tk_app \<Rightarrow> tk_result option" where
  "gui_start lb lo t =
     (case folder_path_var t of
        None \<Rightarrow> Some (Inl (AttributeError ''folder_path_var''), t)
      | Some None \<Rightarrow> Some (Inr (Some (Error ''Error'' ''Please select a folder!'')), t)
      | Some (Some F) \<Rightarrow>
          if \<not> path_exists (disk (app_world t)) F
          then Some (Inr (Some (Error ''Error'' ''Folder path does not exist!'')), t)
          else (case widget_check Progress_bar t of
                  Inl e \<Rightarrow> Some (Inl e, t)
                | Inr _ \<Rightarrow>
                    (case progress_var t of
                       None \<Rightarrow> Some (Inl (AttributeError ''progress_var''), t\<lparr>progress_running := True\<rparr>)
                     | Some _ \<Rightarrow>
                         let t1 = t\<lparr>progress_running := True, progress_var := Some ''Creating backup...''\<rparr> in
                         map_option (\<lambda>(w', out, stage).
                             case out of
                               Inr m \<Rightarrow> (Inr (Some m), t1\<lparr>app_world := w', progress_running := False,
                                                        progress_var := Some ''Organization complete!''\<rparr>)
                             | Inl _ \<Rightarrow> (Inl (NameError ''e''), t1\<lparr>app_world := w', progress_running := False,
                                                           progress_var := Some stage\<rparr>))
                           (organize_worker F lb lo t1))))"

text \<open>\<open>undo_operation()\<close> and \<open>logout()\<close> with the answer of \<open>askyesno\<close>.\<close>

definition gui_undo :: "bool \<Rightarrow> tk_app \<Rightarrow> tk_result option" where
  "gui_undo confirm t =
     map_option (\<lambda>(w', m). (Inr m, t\<lparr>app_world := w'\<rparr>)) (undo_operation confirm (app_world t))"

definition gui_logout :: "bool \<Rightarrow> tk_app \<Rightarrow> tk_result" where
  "gui_logout confirm t =
     (if confirm then (Inr None, show_login_screen (t\<lparr>app_world := logout True (app_world t)\<rparr>))
      else (Inr None, t))"

text \<open>The callback of each command.\<close>

fun dispatch :: "answers \<Rightarrow> command \<Rightarrow> tk_app \<Rightarrow> tk_result option" where
  "dispatch ans Login_cmd t = Some (gui_login t)"
| "dispatch ans Register_cmd t = Some (gui_register t)"
| "dispatch ans Show_organize_cmd t = Some (Inr None, show_organize_screen t)"
| "dispatch ans Undo_cmd t = gui_undo (ask_yes ans) t"
| "dispatch ans Show_log_cmd t = Some (Inr None, show_log_screen t)"
| "dispatch ans Logout_cmd t = Some (gui_logout (ask_yes ans) t)"
| "dispatch ans Browse_cmd t = Some (browse_folder (ask_dir ans) t)"
| "dispatch ans Start_cmd t = gui_start (listing_backup ans) (listing_organize ans) t"
| "dispatch ans Main_menu_cmd t = Some (Inr None, show_main_menu t)"

subsection \<open>The event loop\<close>

text \<open>\<open>FileOrganizerGUI.__init__\<close>: a fresh application object, no user,
  \<open>ensure_data_dirs()\<close> (an exception ends the program), the login screen.\<close>

definition tk_empty :: "world \<Rightarrow> tk_app" where
  "tk_empty w = \<lparr>window = [], attrs = {}, entry_text = (\<lambda>_. []), progress_running = False,
                 log_view = ([], False), folder_path_var = None, progress_var = None,
                 return_binding = None, app_world = w\<rparr>"

definition gui_init :: "world \<Rightarrow> tk_app option" where
  "gui_init w =
     (case app_start w of
        (Inl _, _) \<Rightarrow> None
      | (Inr _, w') \<Rightarrow> Some (show_login_screen (tk_empty w')))"

text \<open>\<open>root.mainloop()\<close>: a click on a button of the window runs its command,
  the \<open><Return>\<close> key runs the bound command, typing changes an editable
  entry field of the window.\<close>

inductive gui_step :: "tk_app \<Rightarrow> tk_app \<Rightarrow> bool" where
  click: "Button label c \<in> set (window t) \<Longrightarrow> dispatch ans c t = Some (r, t') \<Longrightarrow> gui_step t t'"
| return_key: "return_binding t = Some c \<Longrightarrow> dispatch ans c t = Some (r, t') \<Longrightarrow> gui_step t t'"
| type_text: "Entry a \<in> set (window t) \<Longrightarrow> a \<noteq> Folder_entry \<Longrightarrow>
              gui_step t (t\<lparr>entry_text := (entry_text t)(a := s)\<rparr>)"

text \<open>\<open>app = FileOrganizerGUI(); app.run()\<close>: the states of a run.\<close>

inductive gui_reach :: "world \<Rightarrow> tk_app \<Rightarrow> bool" for w0 where
  start: "gui_init w0 = Some t \<Longrightarrow> gui_reach w0 t"
| step: "gui_reach w0 t \<Longrightarrow> gui_step t t' \<Longrightarrow> gui_reach w0 t'"

text \<open>The typing of the window: it is one of the four screens, with the
  attributes and variables that screen's handlers use, the login screen
  exactly when no user is logged in; the binding is the login; the world
  satisfies the application invariant.\<close>

definition gui_wf :: "tk_app \<Rightarrow> bool" where
  "gui_wf t =
     ({Username_entry, Password_entry} \<subseteq> attrs t \<and> return_binding t = Some Login_cmd \<and>
      app_inv (app_world t) \<and>
      (if current_user (app_world t) = None then window t = login_widgets
       else window t = main_widgets (py_str_user (current_user (app_world t))) \<or>
            (window t = organize_widgets \<and> {Folder_entry, Skip_entry, Progress_bar} \<subseteq> attrs t \<and>
             folder_path_var t \<noteq> None \<and> progress_var t \<noteq> None) \<or>
            (window t = log_widgets \<and> Log_text \<in> attrs t)))"

text \<open>The part of the typing every screen shares.\<close>

definition gui_base :: "tk_app \<Rightarrow> bool" where
  "gui_base t = ({Username_entry, Password_entry} \<subseteq> attrs t \<and> return_binding t = Some Login_cmd \<and>
                 app_inv (app_world t))"

text \<open>What a button callback run on a well-typed window must give: no
  exception escapes, the window stays well typed, and the world either stays
  or makes one step of the application. The Start callback may instead end
  with the \<open>NameError\<close> of its scheduled error message.\<close>

definition step_ok :: "tk_app \<Rightarrow> (os_error + message option) \<Rightarrow> tk_app \<Rightarrow> bool" where
  "step_ok t r t' = ((\<exists>v. r = Inr v) \<and> gui_wf t' \<and>
                     (app_world t' = app_world t \<or> app_step (app_world t) (app_world t')))"

definition start_ok :: "tk_app \<Rightarrow> (os_error + message option) \<Rightarrow> tk_app \<Rightarrow> bool" where
  "start_ok t r t' = (((\<exists>v. r = Inr v) \<or> r = Inl (NameError ''e'')) \<and> gui_wf t' \<and>
                      (app_world t' = app_world t \<or> app_step (app_world t) (app_world t')))"

subsection \<open>A run\<close>

text \<open>A run on the demo world in which \<open>data/backups/alice\<close> is a regular
  file: the application starts, the user types \<open>alice\<close> and \<open>pw\<close>, clicks
  Login, Organize Folder, Browse (choosing \<open>d\<close>) and Start Organization,
  whose backup cannot be made.\<close>

definition demo_gui_world :: world where
  "demo_gui_world = demo_world\<lparr>disk := (disk demo_world)([''data''] \<mapsto> Dir, [''data'', ''backups''] \<mapsto> Dir,
                                  [''data'', ''backups'', ''alice''] \<mapsto> File ''x'' 0 0)\<rparr>"

definition demo_started :: world where
  "demo_started = demo_gui_world\<lparr>current_user := None,
     disk := (disk demo_gui_world)([''data'', ''logs''] \<mapsto> Dir)\<rparr>"

definition demo_login_screen :: tk_app where
  "demo_login_screen =
     (let t0 = show_login_screen (tk_empty demo_started) in
      t0\<lparr>entry_text := (entry_text t0)(Username_entry := ''alice'', Password_entry := ''pw'')\<rparr>)"

definition demo_menu :: tk_app where
  "demo_menu = show_main_menu (demo_login_screen\<lparr>app_world := demo_started\<lparr>current_user := Some ''alice''\<rparr>\<rparr>)"

definition demo_chosen :: tk_app where
  "demo_chosen = (show_organize_screen demo_menu)\<lparr>folder_path_var := Some (Some [''d''])\<rparr>"

definition demo_answers :: answers where
  "demo_answers = \<lparr>ask_yes = True, ask_dir = Some [''d''], listing_backup = [''photo.jpg''],
                   listing_organize = [''photo.jpg'']\<rparr>"

subsection \<open>Lemmas\<close>

lemma screens_differ [simp]:
  "login_widgets \<noteq> main_widgets u" "login_widgets \<noteq> organize_widgets" "login_widgets \<noteq> log_widgets"
  "main_widgets u \<noteq> organize_widgets" "main_widgets u \<noteq> log_widgets" "organize_widgets \<noteq> log_widgets"
  by (simp_all add: login_widgets_def main_widgets_def organize_widgets_def log_widgets_def)

lemma entries_of_screens [simp]:
  "Entry a \<in> set login_widgets \<longleftrightarrow> a = Username_entry \<or> a = Password_entry"
  "Entry a \<notin> set (main_widgets u)" "Entry a \<notin> set log_widgets"
  "Entry a \<in> set organize_widgets \<longleftrightarrow> a = Folder_entry \<or> a = Skip_entry"
  "Progressbar \<in> set organize_widgets"
  by (auto simp: login_widgets_def main_widgets_def organize_widgets_def log_widgets_def)

lemma buttons_of_screens:
  "Button l c \<in> set login_widgets \<Longrightarrow> c = Login_cmd \<or> c = Register_cmd"
  "Button l c \<in> set (main_widgets u) \<Longrightarrow> c = Show_organize_cmd \<or> c = Undo_cmd \<or> c = Show_log_cmd \<or> c = Logout_cmd"
  "Button l c \<in> set organize_widgets \<Longrightarrow> c = Browse_cmd \<or> c = Start_cmd \<or> c = Main_menu_cmd"
  "Button l c \<in> set log_widgets \<Longrightarrow> c = Main_menu_cmd"
  by (auto simp: login_widgets_def main_widgets_def organize_widgets_def log_widgets_def)

lemma screens_keep [simp]:
  "app_world (show_main_menu t) = app_world t" "app_world (show_login_screen t) = app_world t"
  "app_world (show_organize_screen t) = app_world t" "app_world (show_log_screen t) = app_world t"
  by (simp_all add: show_main_menu_def show_login_screen_def show_organize_screen_def show_log_screen_def
                    clear_window_def Let_def)

lemma show_log_screen_window: "window (show_log_screen t) = log_widgets"
  by (simp add: show_log_screen_def log_widgets_def clear_window_def Let_def)

text \<open>Each screen, shown on a state with the login attributes and binding,
  is well typed.\<close>

lemma gui_wf_base: "gui_wf t \<Longrightarrow> gui_base t"
  by (simp add: gui_wf_def gui_base_def)

lemma wf_show_main_menu: "gui_base t \<Longrightarrow> current_user (app_world t) \<noteq> None \<Longrightarrow> gui_wf (show_main_menu t)"
  by (auto simp: gui_wf_def gui_base_def show_main_menu_def clear_window_def)

lemma wf_show_organize_screen: "gui_base t \<Longrightarrow> current_user (app_world t) \<noteq> None \<Longrightarrow> gui_wf (show_organize_screen t)"
  by (auto simp: gui_wf_def gui_base_def show_organize_screen_def clear_window_def)

lemma wf_show_log_screen: "gui_base t \<Longrightarrow> current_user (app_world t) \<noteq> None \<Longrightarrow> gui_wf (show_log_screen t)"
  using show_log_screen_window [of t]
  by (auto simp: gui_wf_def gui_base_def show_log_screen_def clear_window_def Let_def)

lemma wf_show_login_screen: "app_inv (app_world t) \<Longrightarrow> current_user (app_world t) = None \<Longrightarrow> gui_wf (show_login_screen t)"
  by (simp add: gui_wf_def show_login_screen_def clear_window_def)

text \<open>A button of a well-typed window belongs to the screen of its command.\<close>

lemma button_screen:
  assumes wf: "gui_wf t" and b: "Button l c \<in> set (window t)"
  shows "(c \<in> {Login_cmd, Register_cmd} \<and> current_user (app_world t) = None \<and> window t = login_widgets) \<or>
         (c \<in> {Show_organize_cmd, Undo_cmd, Show_log_cmd, Logout_cmd} \<and> current_user (app_world t) \<noteq> None \<and>
            window t = main_widgets (py_str_user (current_user (app_world t)))) \<or>
         (c \<in> {Browse_cmd, Start_cmd} \<and> current_user (app_world t) \<noteq> None \<and> window t = organize_widgets \<and>
            {Folder_entry, Skip_entry, Progress_bar} \<subseteq> attrs t \<and> folder_path_var t \<noteq> None \<and> progress_var t \<noteq> None) \<or>
         (c = Main_menu_cmd \<and> current_user (app_world t) \<noteq> None)"
proof (cases "current_user (app_world t) = None")
  case True
  then have "window t = login_widgets" using wf by (simp add: gui_wf_def)
  then show ?thesis using True b buttons_of_screens(1) [of l c] by auto
next
  case False
  let ?u = "py_str_user (current_user (app_world t))"
  have "window t = main_widgets ?u \<or>
        (window t = organize_widgets \<and> {Folder_entry, Skip_entry, Progress_bar} \<subseteq> attrs t \<and>
         folder_path_var t \<noteq> None \<and> progress_var t \<noteq> None) \<or> window t = log_widgets"
    using wf False unfolding gui_wf_def by auto
  then show ?thesis
  proof (elim disjE)
    assume "window t = main_widgets ?u"
    then show ?thesis using False b buttons_of_screens(2) [of l c ?u] by auto
  next
    assume o: "window t = organize_widgets \<and> {Folder_entry, Skip_entry, Progress_bar} \<subseteq> attrs t \<and>
               folder_path_var t \<noteq> None \<and> progress_var t \<noteq> None"
    then show ?thesis using False b buttons_of_screens(3) [of l c] by auto
  next
    assume "window t = log_widgets"
    then show ?thesis using False b buttons_of_screens(4) [of l c] by auto
  qed
qed


lemma step_ok_same [simp]: "gui_wf t \<Longrightarrow> step_ok t (Inr v) t"
  by (simp add: step_ok_def)

lemma gui_wf_world:
  "gui_wf t \<Longrightarrow> app_inv w' \<Longrightarrow> current_user w' = current_user (app_world t) \<Longrightarrow> gui_wf (t\<lparr>app_world := w'\<rparr>)"
  unfolding gui_wf_def by (simp split: if_splits)

lemma entry_get_alive:
  "a \<in> attrs t \<Longrightarrow> widget_of a \<in> set (window t) \<Longrightarrow> entry_get a t = Inr (entry_text t a)"
  by (simp add: entry_get_def widget_check_def)

lemma entry_get_destroyed:
  "a \<in> attrs t \<Longrightarrow> widget_of a \<notin> set (window t) \<Longrightarrow> entry_get a t = Inl (TclError ''invalid command name'')"
  by (simp add: entry_get_def widget_check_def)

lemma login_not_Info: "login u p w = (w', m) \<Longrightarrow> \<forall>ti s. m \<noteq> Info ti s \<Longrightarrow> w' = w"
  by (auto simp: login_def Let_def split: if_splits)

lemma login_Info: "login u p w = (w', Info ti s) \<Longrightarrow> current_user w' \<noteq> None"
  by (auto simp: login_def Let_def split: if_splits)

lemma register_user: "current_user (fst (register u p w)) = current_user w"
  by (simp add: register_def save_users_def Let_def)

lemma gui_login_ok:
  assumes wf: "gui_wf t" and cu: "current_user (app_world t) = None"
  shows "step_ok t (fst (gui_login t)) (snd (gui_login t))"
proof -
  let ?w = "app_world t"
  have win: "window t = login_widgets" using wf cu by (simp add: gui_wf_def)
  have at: "Username_entry \<in> attrs t" "Password_entry \<in> attrs t" using wf by (simp_all add: gui_wf_def)
  obtain w' m where l: "login (entry_text t Username_entry) (entry_text t Password_entry) ?w = (w', m)"
    by fastforce
  have st: "app_step ?w w'" using login_step [OF cu] l by (metis fst_conv)
  have inv: "app_inv w'" using app_step_inv [OF st] wf by (simp add: gui_wf_def)
  have g: "gui_login t = (case m of Info ti s \<Rightarrow> (Inr (Some (Info ti s)), show_main_menu (t\<lparr>app_world := w'\<rparr>))
                                 | _ \<Rightarrow> (Inr (Some m), t\<lparr>app_world := w'\<rparr>))"
    using at win l by (simp add: gui_login_def entry_get_alive split: message.split)
  show ?thesis
  proof (cases "\<exists>ti s. m = Info ti s")
    case True
    then obtain ti s where m: "m = Info ti s" by blast
    have "current_user w' \<noteq> None" using login_Info l m by blast
    then have "gui_wf (show_main_menu (t\<lparr>app_world := w'\<rparr>))"
      using wf inv by (intro wf_show_main_menu) (simp_all add: gui_base_def gui_wf_def)
    then show ?thesis using g m st by (simp add: step_ok_def)
  next
    case False
    then have "w' = ?w" using login_not_Info [OF l] by blast
    moreover have "gui_login t = (Inr (Some m), t\<lparr>app_world := w'\<rparr>)" using g False by (cases m) auto
    ultimately show ?thesis using wf by simp
  qed
qed

lemma gui_register_ok:
  assumes wf: "gui_wf t" and cu: "current_user (app_world t) = None"
  shows "step_ok t (fst (gui_register t)) (snd (gui_register t))"
proof -
  let ?w = "app_world t"
  obtain w' m where r: "register (entry_text t Username_entry) (entry_text t Password_entry) ?w = (w', m)"
    by fastforce
  have win: "window t = login_widgets" using wf cu by (simp add: gui_wf_def)
  have at: "Username_entry \<in> attrs t" "Password_entry \<in> attrs t" using wf by (simp_all add: gui_wf_def)
  have g: "gui_register t = (Inr (Some m), t\<lparr>app_world := w'\<rparr>)"
    using at win r by (simp add: gui_register_def entry_get_alive)
  have st: "app_step ?w w'" using register_step [OF cu] r by (metis fst_conv)
  have "current_user w' = current_user ?w" using register_user [of _ _ ?w] r by (metis fst_conv)
  moreover have "app_inv w'" using app_step_inv [OF st] wf by (simp add: gui_wf_def)
  ultimately have "gui_wf (t\<lparr>app_world := w'\<rparr>)" using gui_wf_world [OF wf] by blast
  then show ?thesis using g st by (simp add: step_ok_def)
qed


lemma show_screen_ok:
  assumes "gui_wf t" and "current_user (app_world t) \<noteq> None"
  shows "step_ok t (Inr None) (show_main_menu t)" "step_ok t (Inr None) (show_organize_screen t)"
        "step_ok t (Inr None) (show_log_screen t)"
  using assms gui_wf_base [OF assms(1)]
  by (simp_all add: step_ok_def wf_show_main_menu wf_show_organize_screen wf_show_log_screen)

lemma gui_undo_ok:
  assumes wf: "gui_wf t" and cu: "current_user (app_world t) \<noteq> None"
    and u: "gui_undo c t = Some (r, t')"
  shows "step_ok t r t'"
proof -
  let ?w = "app_world t"
  obtain w' m where uo: "undo_operation c ?w = Some (w', m)" and r: "r = Inr m" and t': "t' = t\<lparr>app_world := w'\<rparr>"
    using u by (auto simp: gui_undo_def)
  have st: "app_step ?w w'" by (rule undo_step [OF cu uo])
  have inv: "app_inv w'" using app_step_inv [OF st] wf by (simp add: gui_wf_def)
  have "current_user w' = current_user ?w"
    using undo_operation_wf [OF uo] wf by (simp add: gui_wf_def app_inv_def)
  then show ?thesis using gui_wf_world [OF wf inv] st r t' by (simp add: step_ok_def)
qed

lemma gui_logout_ok:
  assumes wf: "gui_wf t" and cu: "current_user (app_world t) \<noteq> None"
  shows "step_ok t (fst (gui_logout c t)) (snd (gui_logout c t))"
proof (cases c)
  case True
  let ?w' = "logout True (app_world t)"
  have st: "app_step (app_world t) ?w'" by (rule logout_step [OF cu])
  have inv: "app_inv ?w'" using app_step_inv [OF st] wf by (simp add: gui_wf_def)
  have "gui_wf (show_login_screen (t\<lparr>app_world := ?w'\<rparr>))"
    using inv by (intro wf_show_login_screen) (simp_all add: logout_def)
  then show ?thesis using True st by (simp add: gui_logout_def step_ok_def)
next
  case False
  then show ?thesis using wf by (simp add: gui_logout_def)
qed

lemma browse_folder_ok:
  assumes wf: "gui_wf t" and cu: "current_user (app_world t) \<noteq> None" and win: "window t = organize_widgets"
    and fv: "folder_path_var t \<noteq> None"
  shows "step_ok t (fst (browse_folder a t)) (snd (browse_folder a t))"
proof (cases a)
  case None
  then show ?thesis using wf by (simp add: browse_folder_def)
next
  case (Some f)
  have "gui_wf (t\<lparr>folder_path_var := Some (Some f)\<rparr>)" using wf cu win unfolding gui_wf_def by auto
  then show ?thesis using Some fv by (auto simp: browse_folder_def step_ok_def)
qed


lemma gui_start_ok:
  assumes wf: "gui_wf t" and cu: "current_user (app_world t) = Some user" and win: "window t = organize_widgets"
    and at: "{Folder_entry, Skip_entry, Progress_bar} \<subseteq> attrs t"
    and fv: "folder_path_var t = Some fo" and pv: "progress_var t = Some x"
    and g: "gui_start lb lo t = Some (r, t')"
  shows "start_ok t r t'"
proof (cases fo)
  case None
  then show ?thesis using g fv wf by (auto simp: gui_start_def start_ok_def)
next
  case (Some F)
  let ?w = "app_world t"
  show ?thesis
  proof (cases "path_exists (disk ?w) F")
    case False
    then show ?thesis using g fv Some wf by (auto simp: gui_start_def start_ok_def)
  next
    case True
    let ?t1 = "t\<lparr>progress_running := True, progress_var := Some ''Creating backup...''\<rparr>"
    let ?skip = "entry_text t Skip_entry"
    have pb: "widget_check Progress_bar t = Inr ()" using at win by (simp add: widget_check_def)
    have sk: "entry_get Skip_entry ?t1 = Inr ?skip" using at win by (simp add: entry_get_alive)
    have g1: "map_option (\<lambda>(w', out, stage). case out of
                 Inr m \<Rightarrow> (Inr (Some m), ?t1\<lparr>app_world := w', progress_running := False,
                                          progress_var := Some ''Organization complete!''\<rparr>)
               | Inl _ \<Rightarrow> (Inl (NameError ''e''), ?t1\<lparr>app_world := w', progress_running := False,
                                             progress_var := Some stage\<rparr>))
               (organize_worker F lb lo ?t1) = Some (r, t')"
      using g fv Some True pb pv by (simp add: gui_start_def Let_def)
    then obtain w' out stage where ow: "organize_worker F lb lo ?t1 = Some (w', out, stage)"
      and rt: "(r, t') = (case out of
                 Inr m \<Rightarrow> (Inr (Some m), ?t1\<lparr>app_world := w', progress_running := False,
                                          progress_var := Some ''Organization complete!''\<rparr>)
               | Inl _ \<Rightarrow> (Inl (NameError ''e''), ?t1\<lparr>app_world := w', progress_running := False,
                                             progress_var := Some stage\<rparr>))"
      by (auto split: prod.splits)
    have th: "organize_files_thread user ?skip F lb lo ?w = Some (w', out)"
      using ow sk cu by (auto simp: organize_worker_def Let_def)
    have t': "app_world t' = w' \<and> window t' = window t \<and> attrs t' = attrs t \<and>
               return_binding t' = return_binding t \<and> folder_path_var t' = folder_path_var t \<and>
               progress_var t' \<noteq> None"
      and r: "(\<exists>v. r = Inr v) \<or> r = Inl (NameError ''e'')"
      using rt by (auto split: sum.splits)
    have "start_organization ?skip (Some F) lb lo ?w = Some (w', out)"
      using th True cu by (simp add: start_organization_def)
    then have st: "app_step ?w w'" using organize_step cu by blast
    have inv: "app_inv w'" using app_step_inv [OF st] wf by (simp add: gui_wf_def)
    have "current_user w' = current_user ?w"
      using organize_files_thread_wf [OF th] wf by (simp add: gui_wf_def app_inv_def)
    then have "gui_wf t'" using wf inv cu win at fv t' by (simp add: gui_wf_def)
    then show ?thesis using st r t' by (simp add: start_ok_def)
  qed
qed

lemma dispatch_button_ok:
  assumes wf: "gui_wf t" and b: "Button l c \<in> set (window t)" and d: "dispatch ans c t = Some (r, t')"
  shows "if c = Start_cmd then start_ok t r t' else step_ok t r t'"
  using button_screen [OF wf b]
proof (elim disjE conjE)
  assume "c \<in> {Login_cmd, Register_cmd}" and cu: "current_user (app_world t) = None"
  then show ?thesis using d gui_login_ok [OF wf cu] gui_register_ok [OF wf cu] by auto
next
  assume c: "c \<in> {Show_organize_cmd, Undo_cmd, Show_log_cmd, Logout_cmd}" and cu: "current_user (app_world t) \<noteq> None"
  then show ?thesis
    using d show_screen_ok [OF wf cu] gui_undo_ok [OF wf cu] gui_logout_ok [OF wf cu, of "ask_yes ans"] by auto
next
  assume c: "c \<in> {Browse_cmd, Start_cmd}" and cu: "current_user (app_world t) \<noteq> None"
    and win: "window t = organize_widgets" and at: "{Folder_entry, Skip_entry, Progress_bar} \<subseteq> attrs t"
    and fv: "folder_path_var t \<noteq> None" and pv: "progress_var t \<noteq> None"
  obtain user fo x where "current_user (app_world t) = Some user" "folder_path_var t = Some fo" "progress_var t = Some x"
    using cu fv pv by blast
  then show ?thesis
    using c d browse_folder_ok [OF wf cu win fv, of "ask_dir ans"] gui_start_ok [OF wf _ win at] by auto
next
  assume "c = Main_menu_cmd" and cu: "current_user (app_world t) \<noteq> None"
  then show ?thesis using d show_screen_ok [OF wf cu] by auto
qed


text \<open>Off the login screen the entry fields are destroyed, so the login the
  \<open><Return>\<close> binding calls raises \<open>TclError\<close> and changes nothing.\<close>

lemma gui_login_destroyed:
  assumes wf: "gui_wf t" and cu: "current_user (app_world t) \<noteq> None"
  shows "gui_login t = (Inl (TclError ''invalid command name''), t)"
proof -
  have "Entry Username_entry \<notin> set (window t)" using wf cu unfolding gui_wf_def by auto
  then have "entry_get Username_entry t = Inl (TclError ''invalid command name'')"
    using wf by (intro entry_get_destroyed) (simp_all add: gui_wf_def)
  then show ?thesis by (simp add: gui_login_def)
qed

lemma gui_step_sim:
  assumes wf: "gui_wf t" and st: "gui_step t t'"
  shows "gui_wf t' \<and> (app_world t' = app_world t \<or> app_step (app_world t) (app_world t'))"
  using st
proof (cases rule: gui_step.cases)
  case (click l c ans r)
  then show ?thesis using dispatch_button_ok [OF wf, of l c ans r t'] by (auto simp: step_ok_def start_ok_def split: if_splits)
next
  case (return_key c ans r)
  have c: "c = Login_cmd" using return_key wf by (simp add: gui_wf_def)
  show ?thesis
  proof (cases "current_user (app_world t) = None")
    case True
    then have "Button ''Login'' Login_cmd \<in> set (window t)"
      using wf by (simp add: gui_wf_def login_widgets_def)
    then show ?thesis using dispatch_button_ok [OF wf, of "''Login''" c ans r t'] return_key c by (auto simp: step_ok_def start_ok_def)
  next
    case False
    then show ?thesis using gui_login_destroyed [OF wf] return_key c wf by simp
  qed
next
  case (type_text a s)
  then show ?thesis using wf unfolding gui_wf_def by auto
qed

lemma app_start_inv:
  assumes st: "app_start w = (Inr (), w')" and wf: "wf_fs (disk w)"
  shows "app_inv w' \<and> current_user w' = None"
proof -
  let ?w = "w\<lparr>current_user := None\<rparr>"
  obtain r1 d1 where m1: "makedirs (data_dir w) (disk w) = (r1, d1)" by fastforce
  obtain r2 d2 where m2: "makedirs (data_dir w @ [''logs'']) d1 = (r2, d2)" by fastforce
  obtain r3 d3 where m3: "makedirs (data_dir w @ [''backups'']) d2 = (r3, d3)" by fastforce
  have wf3: "wf_fs d3" using makedirs_wf [OF m3 makedirs_wf [OF m2 makedirs_wf [OF m1 wf]]] .
  have "w' = ?w\<lparr>disk := d3\<rparr>"
    using st m1 m2 m3 by (cases r1; cases r2; simp add: app_start_def ensure_data_dirs_def on_disk_def)
  then show ?thesis using wf3 by (simp add: app_inv_def)
qed

lemma gui_init_wf:
  assumes i: "gui_init w0 = Some t" and wf: "wf_fs (disk w0)"
  shows "gui_wf t \<and> app_start w0 = (Inr (), app_world t)"
proof -
  obtain r w1 where a: "app_start w0 = (r, w1)" by fastforce
  have st: "app_start w0 = (Inr (), w1)" and t: "t = show_login_screen (tk_empty w1)"
    using i a by (cases r; simp add: gui_init_def)+
  have "app_inv w1 \<and> current_user w1 = None" by (rule app_start_inv [OF st wf])
  then show ?thesis using st t by (simp add: wf_show_login_screen tk_empty_def)
qed

text \<open>The invariant of the event loop: every reachable window is well typed,
  and its world is reached from the started world by steps of the
  application.\<close>

lemma gui_reach_inv:
  assumes "gui_reach w0 t" and wf: "wf_fs (disk w0)"
  shows "gui_wf t \<and> (\<exists>w1. app_start w0 = (Inr (), w1) \<and> app_step\<^sup>*\<^sup>* w1 (app_world t))"
  using assms(1)
proof (induction rule: gui_reach.induct)
  case (start t)
  then show ?case using gui_init_wf [OF start wf] by blast
next
  case (step t t')
  then obtain w1 where "app_start w0 = (Inr (), w1)" "app_step\<^sup>*\<^sup>* w1 (app_world t)" "gui_wf t" by blast
  then show ?case using gui_step_sim [OF \<open>gui_wf t\<close> step.hyps(2)]
    by (metis rtranclp.rtrancl_into_rtrancl)
qed


lemma demo_gui_world_wf: "wf_fs (disk demo_gui_world)"
  by (auto simp: wf_fs_def demo_gui_world_def demo_world_def append_eq_Cons_conv Cons_eq_append_conv)

lemma demo_app_start: "app_start demo_gui_world = (Inr (), demo_started)"
  by (simp add: app_start_def ensure_data_dirs_def on_disk_def demo_gui_world_def demo_world_def demo_started_def
                makedirs.simps mkdir_def isdir_def fun_upd_twist)

lemma demo_login_reach: "gui_reach demo_gui_world demo_login_screen"
proof -
  let ?t0 = "show_login_screen (tk_empty demo_started)"
  let ?t1 = "?t0\<lparr>entry_text := (entry_text ?t0)(Username_entry := ''alice'')\<rparr>"
  have r0: "gui_reach demo_gui_world ?t0" by (rule gui_reach.start) (simp add: gui_init_def demo_app_start)
  have r1: "gui_reach demo_gui_world ?t1"
    by (rule gui_reach.step [OF r0], rule type_text) (simp_all add: show_login_screen_def login_widgets_def)
  have "gui_step ?t1 (?t1\<lparr>entry_text := (entry_text ?t1)(Password_entry := ''pw'')\<rparr>)"
    by (rule type_text) (simp_all add: show_login_screen_def login_widgets_def)
  moreover have "?t1\<lparr>entry_text := (entry_text ?t1)(Password_entry := ''pw'')\<rparr> = demo_login_screen"
    by (simp add: demo_login_screen_def Let_def)
  ultimately show ?thesis using gui_reach.step [OF r1] by simp
qed

lemma demo_login_step: "gui_step demo_login_screen demo_menu"
proof -
  have b: "Button ''Login'' Login_cmd \<in> set (window demo_login_screen)"
    by (simp add: demo_login_screen_def show_login_screen_def login_widgets_def)
  have l: "login ''alice'' ''pw'' demo_started =
           (demo_started\<lparr>current_user := Some ''alice''\<rparr>, Info ''Success'' ''Welcome, alice!'')"
    by (simp add: login_def demo_started_def demo_gui_world_def demo_world_def load_users_def
                  py_strip_def py_isspace_def Let_def)
  have "entry_get Username_entry demo_login_screen = Inr ''alice''"
    and "entry_get Password_entry demo_login_screen = Inr ''pw''"
    and "app_world demo_login_screen = demo_started"
    by (simp_all add: entry_get_def widget_check_def demo_login_screen_def show_login_screen_def
                      login_widgets_def clear_window_def tk_empty_def)
  then have "dispatch demo_answers Login_cmd demo_login_screen =
               Some (Inr (Some (Info ''Success'' ''Welcome, alice!'')), demo_menu)"
    using l by (simp add: gui_login_def demo_menu_def)
  then show ?thesis by (rule click [OF b])
qed

lemma demo_reach: "gui_reach demo_gui_world demo_menu"
  by (rule gui_reach.step [OF demo_login_reach demo_login_step])

lemma demo_menu_user: "current_user (app_world demo_menu) = Some ''alice''"
  by (simp add: demo_menu_def)

lemma demo_chosen_reach: "gui_reach demo_gui_world demo_chosen"
proof -
  have b1: "Button (ICON_OPEN_FOLDER @ '' Organize Folder'') Show_organize_cmd \<in> set (window demo_menu)"
    by (simp add: demo_menu_def show_main_menu_def main_widgets_def clear_window_def)
  have r1: "gui_reach demo_gui_world (show_organize_screen demo_menu)"
    by (rule gui_reach.step [OF demo_reach click [OF b1, of demo_answers]]) simp
  have b2: "Button ''Browse'' Browse_cmd \<in> set (window (show_organize_screen demo_menu))"
    by (simp add: show_organize_screen_def organize_widgets_def clear_window_def)
  have "dispatch demo_answers Browse_cmd (show_organize_screen demo_menu) = Some (Inr None, demo_chosen)"
    by (simp add: demo_answers_def browse_folder_def demo_chosen_def show_organize_screen_def clear_window_def)
  then show ?thesis by (rule gui_reach.step [OF r1 click [OF b2]])
qed

lemma demo_start_button: "Button (ICON_ROCKET @ '' Start Organization'') Start_cmd \<in> set (window demo_chosen)"
  by (simp add: demo_chosen_def show_organize_screen_def organize_widgets_def clear_window_def)

text \<open>The backup of that run fails: \<open>data/backups/alice\<close> is a file, so
  \<open>os.makedirs\<close> of the time-stamped directory raises.\<close>

lemma demo_chosen_backup:
  "backup_folder ''alice'' [''d''] [''photo.jpg''] (app_world demo_chosen) =
     (Inl (NotADirectoryError [''data'', ''backups'', ''alice'', ''2024-03-09_16-00-00'']), app_world demo_chosen)"
  by (simp add: backup_folder_def backup_dir_of_def demo_chosen_def demo_menu_def demo_started_def
                demo_gui_world_def demo_world_def demo_stamp Let_def on_disk_def makedirs.simps mkdir_def
                isdir_def show_organize_screen_def show_main_menu_def clear_window_def demo_login_screen_def)

lemma demo_start_fails:
  "dispatch demo_answers Start_cmd demo_chosen =
     Some (Inl (NameError ''e''), demo_chosen\<lparr>progress_running := False, progress_var := Some ''Creating backup...''\<rparr>)"
proof -
  let ?t1 = "demo_chosen\<lparr>progress_running := True, progress_var := Some ''Creating backup...''\<rparr>"
  let ?e = "NotADirectoryError [''data'', ''backups'', ''alice'', ''2024-03-09_16-00-00'']"
  have f: "folder_path_var demo_chosen = Some (Some [''d''])"
    "path_exists (disk (app_world demo_chosen)) [''d'']"
    "widget_check Progress_bar demo_chosen = Inr ()"
    "progress_var demo_chosen = Some ''Ready to organize...''"
    "current_user (app_world demo_chosen) = Some ''alice''"
    "entry_get Skip_entry ?t1 = Inr []"
    by (simp_all add: demo_chosen_def show_organize_screen_def clear_window_def demo_menu_def demo_started_def
                      demo_gui_world_def demo_world_def path_exists_def widget_check_def entry_get_def
                      organize_widgets_def show_main_menu_def)
  have "organize_files_thread ''alice'' [] [''d''] [''photo.jpg''] [''photo.jpg''] (app_world demo_chosen) =
          Some (app_world demo_chosen, Inl ?e)"
    using demo_chosen_backup by (simp add: organize_files_thread_def Let_def)
  moreover have "worker_stage ''alice'' [''d''] [''photo.jpg''] (app_world demo_chosen) = ''Creating backup...''"
    using demo_chosen_backup by (simp add: worker_stage_def)
  ultimately have "organize_worker [''d''] [''photo.jpg''] [''photo.jpg''] ?t1 =
          Some (app_world demo_chosen, Inl ?e, ''Creating backup...'')"
    using f by (simp add: organize_worker_def)
  then show ?thesis using f by (simp add: demo_answers_def gui_start_def)
qed

subsection \<open>Properties\<close>

text \<open>
  (C4) The window is always well typed: in every state of a run started on a
  well-formed disk, the window is exactly one of the four screens, the login
  screen exactly when nobody is logged in, the attributes its buttons use
  exist, the \<open><Return>\<close> binding is the login, the disk is well formed and
  the logged-in user is registered.
\<close>

theorem gui_reach_wf:
  assumes "gui_reach w0 t" and "wf_fs (disk w0)"
  shows "gui_wf t"
  using gui_reach_inv [OF assms] by simp

theorem gui_reach_wf_witness:
  "gui_reach demo_gui_world demo_menu \<and> wf_fs (disk demo_gui_world) \<and> gui_wf demo_menu"
  using gui_reach_wf [OF demo_reach demo_gui_world_wf] demo_reach demo_gui_world_wf by simp

text \<open>
  (C5) Each event of the GUI is a step of the application or leaves its world
  alone: in a run started on a well-formed disk, a click, the Return key or
  typing either keeps the world or makes one \<open>app_step\<close>, so login and
  register happen only with nobody logged in, organize, undo and logout only
  with a user logged in, and organize only through \<open>start_organization\<close>.
\<close>

theorem gui_refines_app:
  assumes "gui_reach w0 t" and "wf_fs (disk w0)" and "gui_step t t'"
  shows "app_world t' = app_world t \<or> app_step (app_world t) (app_world t')"
  using gui_step_sim [OF _ assms(3)] gui_reach_inv [OF assms(1,2)] by simp

theorem gui_refines_app_witness:
  "gui_reach demo_gui_world demo_login_screen \<and> wf_fs (disk demo_gui_world) \<and>
   gui_step demo_login_screen demo_menu \<and> app_world demo_menu \<noteq> app_world demo_login_screen \<and>
   app_step (app_world demo_login_screen) (app_world demo_menu)"
proof -
  have "current_user (app_world demo_login_screen) = None"
    by (simp add: demo_login_screen_def show_login_screen_def clear_window_def tk_empty_def demo_started_def)
  then have ne: "app_world demo_menu \<noteq> app_world demo_login_screen" using demo_menu_user by auto
  show ?thesis
    using gui_refines_app [OF demo_login_reach demo_gui_world_wf demo_login_step] ne
          demo_login_reach demo_gui_world_wf demo_login_step by simp
qed

text \<open>
  (C6) The only exception a button lets escape to Tkinter is the
  \<open>NameError\<close> of a failed organization: in a run started on a well-formed
  disk, every other callback returns normally (its errors are shown in
  message boxes), while Start Organization, when the worker fails, runs the
  scheduled \<open>showerror\<close> callback whose \<open>e\<close> the \<open>except\<close> clause has
  deleted, so the failure is never shown.
\<close>

theorem gui_button_exceptions:
  assumes "gui_reach w0 t" and "wf_fs (disk w0)" and "Button l c \<in> set (window t)"
    and "dispatch ans c t = Some (Inl e, t')"
  shows "c = Start_cmd \<and> e = NameError ''e''"
  using dispatch_button_ok [OF _ assms(3,4)] gui_reach_inv [OF assms(1,2)]
  by (auto simp: step_ok_def start_ok_def split: if_splits)

theorem gui_button_exceptions_witness:
  "gui_reach demo_gui_world demo_chosen \<and> wf_fs (disk demo_gui_world) \<and>
   Button (ICON_ROCKET @ '' Start Organization'') Start_cmd \<in> set (window demo_chosen) \<and>
   dispatch demo_answers Start_cmd demo_chosen =
     Some (Inl (NameError ''e''), demo_chosen\<lparr>progress_running := False, progress_var := Some ''Creating backup...''\<rparr>) \<and>
   Start_cmd = Start_cmd \<and> NameError ''e'' = NameError ''e''"
  using gui_button_exceptions [OF demo_chosen_reach demo_gui_world_wf demo_start_button demo_start_fails]
        demo_chosen_reach demo_gui_world_wf demo_start_button demo_start_fails by simp

text \<open>
  (C7) The \<open><Return>\<close> binding of the login screen is never removed: once a
  user is logged in, on every screen, pressing Return calls \<open>login()\<close> on the
  destroyed entry fields, which raises \<open>TclError\<close> and changes nothing.
\<close>

theorem gui_return_key_error:
  assumes "gui_reach w0 t" and "wf_fs (disk w0)" and "current_user (app_world t) \<noteq> None"
  shows "return_binding t = Some Login_cmd \<and>
         dispatch ans Login_cmd t = Some (Inl (TclError ''invalid command name''), t)"
proof -
  have wf: "gui_wf t" using gui_reach_inv [OF assms(1,2)] by simp
  then show ?thesis using gui_login_destroyed [OF wf assms(3)] by (simp add: gui_wf_def)
qed

theorem gui_return_key_error_witness:
  "gui_reach demo_gui_world demo_menu \<and> wf_fs (disk demo_gui_world) \<and> current_user (app_world demo_menu) = Some ''alice'' \<and>
   return_binding demo_menu = Some Login_cmd \<and>
   dispatch demo_answers Login_cmd demo_menu = Some (Inl (TclError ''invalid command name''), demo_menu)"
  using gui_return_key_error [OF demo_reach demo_gui_world_wf, of demo_answers] demo_reach demo_gui_world_wf demo_menu_user
  by simp

text \<open>
  (C8) The login screen can always be reached again: from every state of a
  run, clicking Back (on the organize or log screen) and then Logout,
  confirmed, leads to the login screen with nobody logged in.
\<close>

theorem gui_back_to_login:
  assumes "gui_reach w0 t" and "wf_fs (disk w0)"
  shows "\<exists>t'. gui_step\<^sup>*\<^sup>* t t' \<and> window t' = login_widgets \<and> current_user (app_world t') = None"
proof -
  have wf: "gui_wf t" using gui_reach_inv [OF assms] by simp
  let ?yes = "\<lparr>ask_yes = True, ask_dir = None, listing_backup = [], listing_organize = []\<rparr>"
  have logout_step_gui: "gui_step u (show_login_screen (u\<lparr>app_world := logout True (app_world u)\<rparr>))"
    if "window u = main_widgets v" for u v
  proof (rule click [where ans = ?yes])
    show "Button (ICON_WAVE @ '' Logout'') Logout_cmd \<in> set (window u)" using that by (simp add: main_widgets_def)
  qed (simp add: gui_logout_def)
  have menu_step: "gui_step u (show_main_menu u)" if "window u = organize_widgets \<or> window u = log_widgets" for u
  proof (rule click [where ans = ?yes])
    show "Button (LEFT_ARROW @ '' Back'') Main_menu_cmd \<in> set (window u)"
      using that by (auto simp: organize_widgets_def log_widgets_def)
  qed simp
  have out: "window (show_login_screen (u\<lparr>app_world := logout True (app_world u)\<rparr>)) = login_widgets \<and>
             current_user (app_world (show_login_screen (u\<lparr>app_world := logout True (app_world u)\<rparr>))) = None" for u
    by (simp add: show_login_screen_def logout_def clear_window_def)
  show ?thesis
  proof (cases "current_user (app_world t) = None")
    case True
    then show ?thesis using wf by (auto simp: gui_wf_def)
  next
    case False
    then consider "window t = main_widgets (py_str_user (current_user (app_world t)))"
      | "window t = organize_widgets \<or> window t = log_widgets" using wf unfolding gui_wf_def by auto
    then show ?thesis
    proof cases
      case 1
      then show ?thesis using logout_step_gui [OF 1] out by (meson r_into_rtranclp)
    next
      case 2
      let ?m = "show_main_menu t"
      let ?f = "show_login_screen (?m\<lparr>app_world := logout True (app_world ?m)\<rparr>)"
      have "window ?m = main_widgets (py_str_user (current_user (app_world t)))"
        by (simp add: show_main_menu_def clear_window_def)
      then have s2: "gui_step ?m ?f" by (rule logout_step_gui)
      have "gui_step\<^sup>*\<^sup>* t ?f" using menu_step [OF 2] s2 by (meson converse_rtranclp_into_rtranclp r_into_rtranclp)
      then show ?thesis using out [of ?m] by (intro exI [of _ ?f]) simp
    qed
  qed
qed

theorem gui_back_to_login_witness:
  "gui_reach demo_gui_world demo_menu \<and> wf_fs (disk demo_gui_world) \<and>
   (\<exists>t'. gui_step\<^sup>*\<^sup>* demo_menu t' \<and> window t' = login_widgets \<and> current_user (app_world t') = None)"
  using gui_back_to_login [OF demo_reach demo_gui_world_wf] demo_reach demo_gui_world_wf by simp

end
