(* ===== verification/Spec2Isabelle.thy ===== *)
theory Spec2Isabelle
  imports Gui Screens
begin

text \<open>
  A shallow embedding of the file organizer in \<open>src/organizer.py\<close> (the
  Tkinter application \<open>FileOrganizerGUI\<close> and its back-end functions) and of
  the older front end \<open>src/gui.py\<close>.

  \<^bold>\<open>How the program works.\<close> A user registers or logs in
  (\<open>register\<close>, \<open>login\<close>), picks a folder and a skip list and starts
  \<open>start_organization\<close>, whose worker \<open>organize_files_thread\<close> first copies
  the folder's top-level files into \<open>data/backups/<user>/<stamp>\<close>
  (\<open>backup_folder\<close>), then moves every top-level file not skipped to
  \<open>folder/category/year/month/size_group\<close> under the first free name, logs each
  move (\<open>create_log\<close>) and, if anything moved, overwrites the single undo
  entry. \<open>undo_operation\<close> moves the recorded files back and deletes the
  entry; \<open>load_log\<close> shows the activity log; \<open>logout\<close> returns to the login
  screen.

  \<^bold>\<open>Theories.\<close>
  \<^item> \<open>Prelude\<close>: results with exceptions as \<open>('e + 'a) \<times> 's\<close> (the effects
    done before an exception stay) and their bind \<open>ebind\<close>.
  \<^item> \<open>PyStr\<close>: \<open>str.strip\<close>, \<open>str.lower\<close>, \<open>str.split\<close>, \<open>os.path.splitext\<close>
    on a base name and \<open>str(int)\<close> on Latin-1 strings (library routines the
    code calls; their lemmas serve the component proofs).
  \<^item> \<open>Classifier\<close>: \<open>FILE_TYPES\<close>, \<open>SIZE_LIMITS\<close>, \<open>get_category\<close>,
    \<open>get_size_group\<close> and their specifications.
  \<^item> \<open>FileSystem\<close>: the disk as a finite map from paths to files and
    directories, and the calls the code makes (\<open>os.makedirs(exist_ok=True)\<close>,
    \<open>shutil.move\<close>, \<open>shutil.copy2\<close>, \<open>os.listdir\<close>, \<open>os.path.exists\<close>), each
    returning the \<open>OSError\<close> it raises. The invariant \<open>wf_fs\<close> (root is a
    directory, every entry's parent is a directory, finitely many entries)
    is kept by every call; moves keep the multiset of file contents.
  \<^item> \<open>Naming\<close>: the duplicate-name loop of organize and undo, a
    \<open>partial_function (option)\<close>: it returns on every finite disk, and returns
    the first free name of \<open>name\<close>, \<open>base_1ext\<close>, \<open>base_2ext\<close>, \<dots>
  \<^item> \<open>Dates\<close>: \<open>datetime.fromtimestamp\<close> (CPython's \<open>_ord2ymd\<close>, and the
    \<open>OverflowError\<close> outside years 1..9999), \<open>strftime\<close>, \<open>str(datetime)\<close>;
    the month it returns is in 1..12, so \<open>f"{month:02}"\<close> is \<open>01\<close>..\<open>12\<close>.
  \<^item> \<open>AppState\<close>: the world the handlers act on (disk, parsed \<open>users.json\<close>,
    the undo slot, the per-user logs, the logged-in user, the clock), and
    \<open>create_log\<close>.
  \<^item> \<open>Organizer\<close>: \<open>backup_folder\<close>, the organize loop, the worker thread,
    \<open>show_organization_results\<close>, \<open>start_organization\<close>. The backup of a
    real listing into a fresh directory succeeds and its snapshot holds exactly
    the folder's top-level files. One invariant rule
    for the loop carries the lemmas: on every outcome the disk stays well
    formed and keeps its file contents; a completed run accounts for every
    top-level file (still there, or recorded as moved); its summary refines
    the multiset of the moved files' categories; every month folder of a
    recorded path is \<open>01\<close>..\<open>12\<close>; the worker always returns. The worker's
    outcome is the exception it caught or the results message.
  \<^item> \<open>Undo\<close>: \<open>undo_operation\<close>: the guards, the restore loop (with its own
    invariant rule), the kept entry on failure, termination, and that the
    restore of a run's records puts their files back at the folder's top.
  \<^item> \<open>Accounts\<close>: \<open>load_users\<close>, \<open>save_users\<close>, \<open>login\<close>, \<open>register\<close>,
    \<open>logout\<close>, \<open>load_log\<close>, \<open>ensure_data_dirs\<close>.
  \<^item> \<open>App\<close>: the screens as an inductive step relation \<open>app_step\<close> (login
    screen: login, register; main menu: organize, undo, logout) and its
    invariant, by rule induction over reachable states.
  \<^item> \<open>Scenario\<close>: the specification's example run evaluated on the model.
  \<^item> \<open>Gui\<close>: \<open>src/gui.py\<close>, whose \<open>select_folder\<close> calls a function the
    organizer does not define; its two buttons and \<open>mainloop\<close> as the states
    \<open>legacy_reach\<close> of a run, in which no folder outside the backups ever
    changes.
  \<^item> \<open>Screens\<close>: the Tkinter front end of \<open>FileOrganizerGUI\<close>. The window is
    the list of widgets the current screen created (\<open>show_login_screen\<close>,
    \<open>show_main_menu\<close>, \<open>show_organize_screen\<close>, \<open>show_log_screen\<close>, after
    \<open>clear_window\<close>); the attributes of \<open>self\<close> keep referring to destroyed
    widgets, and a call on one raises \<open>TclError\<close>. Every button callback
    (\<open>gui_login\<close>, \<open>gui_register\<close>, \<open>browse_folder\<close>, \<open>gui_start\<close> with the
    progress bar, \<open>gui_undo\<close>, \<open>gui_logout\<close>) wraps the handler of
    \<open>Accounts\<close>, \<open>Organizer\<close> or \<open>Undo\<close>; \<open>mainloop\<close> is the event relation
    \<open>gui_step\<close> (a click on a button of the window, the \<open><Return>\<close> key,
    typing into an entry) and \<open>gui_reach\<close> the states of a run. The Start
    callback runs the worker's \<open>root.after\<close> callbacks in order: on success
    the results, on an exception the \<open>showerror\<close> lambda, which reads the
    \<open>e\<close> Python deleted at the end of the \<open>except\<close> block and raises
    \<open>NameError\<close> (the message is never shown), then the \<open>finally\<close>
    callback. Proved: a typing invariant of the window; each event keeps the
    application world or is one \<open>app_step\<close> of it (a stepwise simulation);
    the only exception a button lets escape is that \<open>NameError\<close>; Return
    raises \<open>TclError\<close> once a user is logged in; the login screen can always
    be reached again.
  \<^item> This theory: the round trip organize, then undo (claim C1).

  \<^bold>\<open>Bounds and fuel.\<close> No fuel is used. The only loop that is not
  structural is the duplicate-name loop, a \<open>partial_function (option)\<close>
  whose termination is a theorem (finitely many entries, pairwise distinct
  candidate names). The organize, backup and undo loops are structural over
  the listing or the undo records. \<open>os.listdir\<close>'s order is not fixed, so
  listings are arguments; \<open>askyesno\<close> and the dialogs' answers likewise.

  \<^bold>\<open>Not modelled.\<close> Fonts, colours, geometry and the nesting of frames
  (pure presentation; the widgets themselves, their texts and commands are
  modelled); the worker thread runs to its end within the Start event, so the
  GUI staying usable while it runs (undo or a second organize racing it, a
  screen change before its \<open>root.after\<close> callbacks) is not modelled; the
  JSON encoding of the data files (their parsed content is the state, and a
  corrupt file's \<open>JSONDecodeError\<close> is not modelled); the log and data files
  live beside the disk model, not in it; cross-volume moves (copy and
  delete); the \<open>"Error reading log file"\<close> branch of \<open>load_log\<close> (reading a
  log file does not fail in the model).
\<close>

section \<open>Organize, then undo\<close>

text \<open>
  (C1) Undo after organize restores the folder: when a user organizes a
  folder (the run ends with its summary, not an error) and then undoes it,
  the files at the top level of the folder are again, as a multiset of
  contents, the files that were there before the run. Assumed: the disk is
  well formed, no older undo entry exists, and the folder is not the
  backup directory of the run.
\<close>

theorem organize_then_undo_restores:
  assumes wf: "wf_fs (disk w)" and cu: "current_user w = Some user" and nu: "undo_file w = None"
    and bd: "backup_dir_of user w \<noteq> F"
    and org: "organize_files_thread user skip F lb lo w = Some (w2, Inr (Info t s))"
  shows "\<exists>w3 m. undo_operation True w2 = Some (w3, m) \<and>
                top_files (disk w3) F = top_files (disk w) F \<and> undo_file w3 = None"
proof -
  obtain bp w1 items M Sm v where b: "backup_folder user F lb w = (Inr bp, w1)"
    and lp: "organize_loop user F (parse_skip skip) items [] [] w1 = Some (Inr (M, Sm), v)"
    and w2: "w2 = (if M \<noteq> [] then v\<lparr>undo_file := Some \<lparr>undo_user = user, undo_files = M\<rparr>\<rparr> else v)"
    using org by (rule organize_files_thread_Info)
  have wf1: "wf_fs (disk w1)" and m1: "meta_eq w w1" using backup_folder_wf [OF b wf] by simp_all
  have t1: "top_files (disk w1) F = top_files (disk w) F" by (rule backup_folder_top [OF b bd])
  have mv: "meta_eq w1 v" using organize_loop_safe [OF lp wf1] by simp
  note acc = organize_loop_accounting [OF lp wf1]
  show ?thesis
  proof (cases "M = []")
    case True
    have "undo_file w2 = None" using True w2 m1 mv nu by (simp add: meta_eq_def)
    then have "undo_operation True w2 = Some (w2, Some (Error ''Error'' ''No undo history found!''))"
      by (simp add: undo_operation_def)
    moreover have "top_files (disk w2) F = top_files (disk w) F"
      using acc True w2 t1 by (simp add: files_at_def)
    ultimately show ?thesis using \<open>undo_file w2 = None\<close> by blast
  next
    case False
    have uf: "undo_file w2 = Some \<lparr>undo_user = user, undo_files = M\<rparr>" using False w2 by simp
    have cu2: "current_user w2 = Some user" using False w2 m1 mv cu by (simp add: meta_eq_def)
    have ok: "moved_ok F (disk w2) M" and wf2: "wf_fs (disk w2)" using acc False w2 by simp_all
    obtain n u where u: "undo_loop user M 0 w2 = Some (Inr n, u)" "wf_fs (disk u)"
      "top_files (disk u) F = top_files (disk w2) F + files_at (disk w2) (map fst M)"
      using undo_loop_restores [OF ok wf2] by blast
    have "undo_operation True w2 =
            Some (u\<lparr>undo_file := None\<rparr>,
                  Some (Info ''Success'' (''Undo complete! Restored '' @ nat_str n @ '' files.'')))"
      using uf cu2 u(1) by (simp add: undo_operation_def)
    moreover have "top_files (disk u) F = top_files (disk w) F"
      using u(3) acc False w2 t1 by simp
    ultimately show ?thesis by auto
  qed
qed

theorem organize_then_undo_restores_witness:
  "wf_fs (disk demo_world) \<and> current_user demo_world = Some ''alice'' \<and> undo_file demo_world = None \<and>
   backup_dir_of ''alice'' demo_world \<noteq> [''d''] \<and>
   (\<exists>t s. organize_files_thread ''alice'' [] [''d''] [''photo.jpg''] [''photo.jpg''] demo_world = Some (demo_w2, Inr (Info t s))) \<and>
   undo_file demo_w2 \<noteq> None \<and>
   (\<exists>w3 m. undo_operation True demo_w2 = Some (w3, m) \<and>
            top_files (disk w3) [''d''] = top_files (disk demo_world) [''d''] \<and> undo_file w3 = None)"
proof -
  have cu: "current_user demo_world = Some ''alice''" and nu: "undo_file demo_world = None"
    and bd: "backup_dir_of ''alice'' demo_world \<noteq> [''d'']"
    by (simp_all add: demo_world_def backup_dir_of_def)
  obtain t s where org: "organize_files_thread ''alice'' [] [''d''] [''photo.jpg''] [''photo.jpg''] demo_world =
                           Some (demo_w2, Inr (Info t s))"
    using demo_thread by blast
  have "undo_file demo_w2 \<noteq> None" by (simp add: demo_w2_def)
  then show ?thesis
    using organize_then_undo_restores [OF demo_world_wf cu nu bd org] demo_world_wf cu nu bd org by blast
qed

end
